(* ===== verification/Prelude.thy ===== *)
theory Prelude
  imports Main "HOL-Library.Sublist"
begin

text \<open>
  Shared vocabulary of the development: the rule collections the component theories
  fill, the result type used for Python exceptions, a bind on that sum type (the
  sources raise and propagate exceptions; a computation that may raise is a value of
  \<open>py_error + 'a\<close>), and generic lemmas on lists and substrings that the string and
  controller theories share.
\<close>

named_theorems pystr_simps "evaluation rules of the Python string primitives"
named_theorems node_simps "equations of the agent's graph nodes and routers"

type_synonym path = string

text \<open>
  The Python exceptions the modelled code can raise, with the text \<open>str(e)\<close>
  renders them as (the agent formats caught exceptions with \<open>f"...{e}"\<close>).
\<close>

datatype py_error =
    IndexError
  | ValueError string
  | KeyError string

fun py_error_str :: "py_error \<Rightarrow> string" where
  "py_error_str IndexError = ''list index out of range''"
| "py_error_str (ValueError msg) = msg"
| "py_error_str (KeyError k) = [CHR 0x27] @ k @ [CHR 0x27]"

definition bind_sum :: "'e + 'a \<Rightarrow> ('a \<Rightarrow> 'e + 'b) \<Rightarrow> 'e + 'b" where
  "bind_sum m f = (case m of Inl e \<Rightarrow> Inl e | Inr a \<Rightarrow> f a)"

lemma bind_sum_Inl [simp]: "bind_sum (Inl e) f = Inl e"
  and bind_sum_Inr [simp]: "bind_sum (Inr a) f = f a"
  by (simp_all add: bind_sum_def)

lemma bind_sum_eq_Inr [simp]:
  "bind_sum m f = Inr b \<longleftrightarrow> (\<exists>a. m = Inr a \<and> f a = Inr b)"
  by (cases m) simp_all

text \<open>Python list indexing \<open>xs[i]\<close> for a non-negative index: IndexError out of range.\<close>

definition py_index :: "'a list \<Rightarrow> nat \<Rightarrow> py_error + 'a" where
  "py_index xs i = (if i < length xs then Inr (xs ! i) else Inl IndexError)"

lemma py_index_in_range [simp]: "i < length xs \<Longrightarrow> py_index xs i = Inr (xs ! i)"
  by (simp add: py_index_def)

text \<open>
  Lookup \<open>d[k]\<close> in a dictionary literal, kept as the list of its items in insertion
  order: KeyError for a missing key.
\<close>

definition py_dict_get :: "(string \<times> 'v) list \<Rightarrow> string \<Rightarrow> py_error + 'v" where
  "py_dict_get d k = (case map_of d k of None \<Rightarrow> Inl (KeyError k) | Some v \<Rightarrow> Inr v)"

text \<open>Python truthiness of an \<open>Optional[str]\<close>: \<open>None\<close> and the empty string are false.\<close>

definition py_truthy :: "string option \<Rightarrow> bool" where
  "py_truthy v = (case v of None \<Rightarrow> False | Some s \<Rightarrow> s \<noteq> [])"

text \<open>\<open>str(v)\<close> for a value of type \<open>Optional[str]\<close>.\<close>

definition py_str_opt :: "string option \<Rightarrow> string" where
  "py_str_opt v = (case v of None \<Rightarrow> ''None'' | Some s \<Rightarrow> s)"

subsection \<open>Substrings\<close>

text \<open>
  Whether \<open>p\<close> occurs in \<open>s\<close> at position \<open>i\<close>; the library's \<open>sublist\<close> is
  ``occurs somewhere''.
\<close>

definition occurs_at :: "'a list \<Rightarrow> 'a list \<Rightarrow> nat \<Rightarrow> bool" where
  "occurs_at p s i \<longleftrightarrow> i + length p \<le> length s \<and> take (length p) (drop i s) = p"

lemma occurs_at_sublist: "occurs_at p s i \<Longrightarrow> sublist p s"
  unfolding occurs_at_def sublist_def
  by (metis append_take_drop_id)

lemma sublist_occurs_at: "sublist p s \<Longrightarrow> \<exists>i. occurs_at p s i"
proof -
  assume "sublist p s"
  then obtain ps ss where "s = ps @ p @ ss" by (auto simp: sublist_def)
  then have "occurs_at p s (length ps)" by (simp add: occurs_at_def)
  then show ?thesis by blast
qed

lemma occurs_at_Cons_Suc [simp]: "occurs_at p (c # s) (Suc i) \<longleftrightarrow> occurs_at p s i"
  by (simp add: occurs_at_def)

lemma occurs_at_0: "occurs_at p s 0 \<longleftrightarrow> take (length p) s = p"
  by (auto simp: occurs_at_def dest: arg_cong [where f = length])

lemma occurs_at_take:
  "occurs_at p (take n s) i \<Longrightarrow> occurs_at p s i"
  by (auto simp: occurs_at_def min_def take_drop split: if_splits)

lemma occurs_at_append_left:
  "occurs_at p a i \<Longrightarrow> occurs_at p (a @ b) i"
  by (auto simp: occurs_at_def)
lemma occurs_at_append_prefix:
  "occurs_at p (xs @ ys) j \<Longrightarrow> j + length p \<le> length xs \<Longrightarrow> occurs_at p xs j"
  by (auto simp: occurs_at_def)

lemma occurs_at_append_pattern:
  assumes "occurs_at (p @ q) s j"
  shows "occurs_at p s j"
proof -
  from assms have len: "j + length p \<le> length s"
    and t: "take (length p + length q) (drop j s) = p @ q" by (auto simp: occurs_at_def)
  have "take (length p) (drop j s) = take (length p) (take (length p + length q) (drop j s))"
    by (simp add: min_def)
  also have "\<dots> = p" using t by simp
  finally show ?thesis using len by (simp add: occurs_at_def)
qed

subsection \<open>Trimming both ends\<close>

text \<open>
  Dropping the elements that satisfy \<open>P\<close> from both ends of a list (Python's
  \<open>strip\<close> for \<open>P\<close> the white-space test): the result is the unique middle part
  whose ends fail \<open>P\<close>.
\<close>

lemma dropWhile_hd_not: "dropWhile P xs \<noteq> [] \<Longrightarrow> \<not> P (hd (dropWhile P xs))"
  by (induction xs) auto

lemma trim_all: "\<forall>c\<in>set xs. P c \<Longrightarrow> rev (dropWhile P (rev (dropWhile P xs))) = []"
proof -
  assume "\<forall>c\<in>set xs. P c"
  then have "dropWhile P xs = []" by (simp only: dropWhile_eq_Nil_conv)
  then show ?thesis by (simp only: rev.simps(1) dropWhile.simps(1))
qed
lemma trim_both_eqI:
  assumes "\<forall>c\<in>set a. P c" and "\<forall>c\<in>set b. P c" and "m = [] \<or> \<not> P (hd m) \<and> \<not> P (last m)"
  shows "rev (dropWhile P (rev (dropWhile P (a @ m @ b)))) = m"
proof (cases m)
  case Nil
  have "\<forall>c\<in>set (a @ m @ b). P c" using assms(1,2) Nil by auto
  then have "rev (dropWhile P (rev (dropWhile P (a @ m @ b)))) = []" by (rule trim_all)
  with Nil show ?thesis by metis
next
  case (Cons y ys)
  then have m_ne: "m \<noteq> []" by simp
  have "dropWhile P (m @ b) = m @ b" using Cons assms(3) by simp
  then have d1: "dropWhile P (a @ m @ b) = m @ b" using assms(1) by (simp add: dropWhile_append2)
  have rm: "rev m = last m # rev (butlast m)" using m_ne by (cases m rule: rev_cases) auto
  have "dropWhile P (last m # rev (butlast m)) = last m # rev (butlast m)"
    using assms(3) m_ne by simp
  then have "dropWhile P (rev m) = rev m" by (simp only: rm)
  moreover have "dropWhile P (rev b @ rev m) = dropWhile P (rev m)"
    using assms(2) by (intro dropWhile_append2) simp
  ultimately have d2: "dropWhile P (rev (m @ b)) = rev m" by simp
  from d1 d2 show ?thesis by simp
qed
lemma trim_both_decomp:
  "\<exists>a b. xs = a @ rev (dropWhile P (rev (dropWhile P xs))) @ b
     \<and> (\<forall>c\<in>set a. P c) \<and> (\<forall>c\<in>set b. P c)"
proof -
  let ?d = "dropWhile P xs"
  have "xs = takeWhile P xs @ ?d" by simp
  moreover have "?d = rev (dropWhile P (rev ?d)) @ rev (takeWhile P (rev ?d))"
    by (metis rev_append rev_rev_ident takeWhile_dropWhile_id)
  moreover have "\<forall>c\<in>set (takeWhile P xs). P c" "\<forall>c\<in>set (rev (takeWhile P (rev ?d))). P c"
    by (auto dest: set_takeWhileD)
  ultimately show ?thesis by (metis append_assoc)
qed

lemma trim_both_ends:
  assumes "rev (dropWhile P (rev (dropWhile P xs))) = m" and "m \<noteq> []"
  shows "\<not> P (hd m) \<and> \<not> P (last m)"
proof -
  let ?d = "dropWhile P xs"
  have last: "\<not> P (last m)"
    using assms dropWhile_hd_not [of P "rev ?d"] by (auto simp: last_rev)
  have "?d = m @ rev (takeWhile P (rev ?d))"
    using assms(1) by (metis rev_append rev_rev_ident takeWhile_dropWhile_id)
  then have "hd m = hd ?d" using assms(2) by (metis hd_append2)
  moreover have "?d \<noteq> []"
  proof
    assume "?d = []"
    with assms show False by simp
  qed
  ultimately have "\<not> P (hd m)" using dropWhile_hd_not by metis
  with last show ?thesis by simp
qed


end
