(* ===== verification/PyStr.thy ===== *)
theory PyStr
  imports Prelude
begin

text \<open>
  The Python \<open>str\<close> builtins that \<open>_extract_code\<close> (src/agent.py) relies on, defined
  as CPython computes them: \<open>str.isspace\<close> on one character, \<open>strip\<close>, \<open>find\<close>, the
  operator \<open>in\<close>, \<open>split\<close> with an explicit separator (ValueError on an empty one)
  and \<open>join\<close>. Isabelle characters are bytes; a character is read as the code point of
  the same number (Latin-1), so \<open>py_isspace\<close> lists the code points below 256 for which
  CPython's \<open>isspace\<close> holds.
  Proved here: \<open>find\<close> returns the first occurrence, \<open>in\<close> is the substring relation,
  \<open>join\<close> inverts \<open>split\<close>, no piece of a split contains the separator, and
  \<open>strip\<close> is idempotent and removes exactly the surrounding white space.
\<close>

section \<open>White space and strip\<close>

definition py_isspace :: "char \<Rightarrow> bool" where
  "py_isspace c \<longleftrightarrow> of_char c \<in> {9, 10, 11, 12, 13, 28, 29, 30, 31, 32, 133, 160 :: nat}"

definition py_lstrip :: "string \<Rightarrow> string" where
  "py_lstrip s = dropWhile py_isspace s"

definition py_rstrip :: "string \<Rightarrow> string" where
  "py_rstrip s = rev (dropWhile py_isspace (rev s))"

definition py_strip :: "string \<Rightarrow> string" where
  "py_strip s = py_rstrip (py_lstrip s)"

section \<open>find and in\<close>

text \<open>\<open>s.find(p)\<close>: the least index where \<open>p\<close> occurs, \<open>-1\<close> (here \<open>None\<close>) if none.\<close>

fun py_find :: "string \<Rightarrow> string \<Rightarrow> nat option" where
  "py_find p [] = (if p = [] then Some 0 else None)"
| "py_find p (c # cs) =
     (if take (length p) (c # cs) = p then Some 0 else map_option Suc (py_find p cs))"

definition py_in :: "string \<Rightarrow> string \<Rightarrow> bool" where
  "py_in p s \<longleftrightarrow> py_find p s \<noteq> None"

section \<open>split and join\<close>

text \<open>
  \<open>s.split(sep)\<close> scans left to right: the text before the next occurrence is a piece,
  the scan resumes after the occurrence, the rest after the last one is the last piece.
  The guard \<open>sep = []\<close> is never taken through \<open>py_split\<close>, which raises first.
\<close>

lemma py_find_Some_bound: "py_find p s = Some i \<Longrightarrow> i + length p \<le> length s"
proof (induction p s arbitrary: i rule: py_find.induct)
  case (2 p c cs)
  then show ?case
    by (auto split: if_splits dest: arg_cong [where f = length])
qed (simp split: if_splits)

function py_split_ne :: "string \<Rightarrow> string \<Rightarrow> string list" where
  "py_split_ne sep s =
     (case py_find sep s of
        None \<Rightarrow> [s]
      | Some i \<Rightarrow>
          if sep = [] then [s] else take i s # py_split_ne sep (drop (i + length sep) s))"
  by pat_completeness auto
termination
proof (relation "measure (\<lambda>(sep, s). length s)")
  fix sep s i
  assume "py_find sep s = Some i" and "sep \<noteq> []"
  then show "((sep, drop (i + length sep) s), sep, s) \<in> measure (\<lambda>(sep, s). length s)"
    using py_find_Some_bound [of sep s i] by (cases sep) auto
qed simp

definition py_split :: "string \<Rightarrow> string \<Rightarrow> py_error + string list" where
  "py_split s sep =
     (if sep = [] then Inl (ValueError ''empty separator'') else Inr (py_split_ne sep s))"

fun py_join :: "string \<Rightarrow> string list \<Rightarrow> string" where
  "py_join sep [] = []"
| "py_join sep [x] = x"
| "py_join sep (x # y # xs) = x @ sep @ py_join sep (y # xs)"

declare py_split_ne.simps [simp del]

section \<open>Properties of find and in\<close>

lemma py_find_Some_iff:
  "py_find p s = Some i \<longleftrightarrow> occurs_at p s i \<and> (\<forall>j < i. \<not> occurs_at p s j)"
proof (induction p s arbitrary: i rule: py_find.induct)
  case (1 p)
  then show ?case by (auto simp: occurs_at_def)
next
  case (2 p c cs)
  show ?case
  proof (cases "take (length p) (c # cs) = p")
    case True
    then have "occurs_at p (c # cs) 0" by (simp add: occurs_at_0)
    with True show ?thesis by auto
  next
    case False
    then have no0: "\<not> occurs_at p (c # cs) 0" by (simp add: occurs_at_0)
    show ?thesis
    proof
      assume "py_find p (c # cs) = Some i"
      with False "2.IH" obtain k where "i = Suc k" and "occurs_at p cs k"
        and "\<forall>j < k. \<not> occurs_at p cs j" by auto
      with no0 show "occurs_at p (c # cs) i \<and> (\<forall>j < i. \<not> occurs_at p (c # cs) j)"
        by (auto simp: less_Suc_eq_0_disj)
    next
      assume a: "occurs_at p (c # cs) i \<and> (\<forall>j < i. \<not> occurs_at p (c # cs) j)"
      with no0 obtain k where k: "i = Suc k" by (cases i) auto
      with a have "occurs_at p cs k \<and> (\<forall>j < k. \<not> occurs_at p cs j)" by auto
      with False "2.IH" k show "py_find p (c # cs) = Some i" by simp
    qed
  qed
qed

lemma py_find_None_iff: "py_find p s = None \<longleftrightarrow> \<not> sublist p s"
proof
  assume none: "py_find p s = None"
  show "\<not> sublist p s"
  proof
    assume "sublist p s"
    then obtain i where "occurs_at p s i" using sublist_occurs_at by blast
    then have "\<exists>i. occurs_at p s i \<and> (\<forall>j < i. \<not> occurs_at p s j)"
      using exists_least_iff [where P = "occurs_at p s"] by blast
    with none py_find_Some_iff show False by (metis option.distinct(1))
  qed
next
  assume "\<not> sublist p s"
  then show "py_find p s = None"
    using py_find_Some_iff occurs_at_sublist by (metis not_None_eq)
qed

lemma py_in_iff_sublist [simp]: "py_in p s \<longleftrightarrow> sublist p s"
  by (simp add: py_in_def py_find_None_iff)

lemma py_find_Some_split:
  "py_find p s = Some i \<Longrightarrow> s = take i s @ p @ drop (i + length p) s"
  using py_find_Some_iff [of p s i]
  by (metis append_take_drop_id occurs_at_def drop_drop add.commute)

lemma py_find_Some_first:
  assumes "py_find p s = Some i" and "p \<noteq> []"
  shows "\<not> sublist p (take i s)"
proof
  assume "sublist p (take i s)"
  then obtain j where j: "occurs_at p (take i s) j" using sublist_occurs_at by blast
  then have "j < i" using assms(2) by (cases p) (auto simp: occurs_at_def)
  moreover from j have "occurs_at p s j" by (rule occurs_at_take)
  ultimately show False using assms(1) py_find_Some_iff by blast
qed

text \<open>The first occurrence is at \<open>length a\<close> when none starts inside \<open>a\<close>.\<close>

lemma py_find_first_occurrence:
  assumes "p \<noteq> []" and "\<not> sublist p (a @ butlast p)"
  shows "py_find p (a @ p @ b) = Some (length a)"
proof -
  have at: "occurs_at p (a @ p @ b) (length a)" by (simp add: occurs_at_def)
  have "\<not> occurs_at p (a @ p @ b) j" if "j < length a" for j
  proof
    assume occ: "occurs_at p (a @ p @ b) j"
    have eq: "a @ p @ b = (a @ butlast p) @ (last p # b)"
      using assms(1) by (metis append_assoc append_butlast_last_id append_Cons append_Nil)
    have "j + length p \<le> length (a @ butlast p)" using that assms(1) by (cases p) auto
    with occ eq have "occurs_at p (a @ butlast p) j" by (metis occurs_at_append_prefix)
    with assms(2) show False by (blast dest: occurs_at_sublist)
  qed
  with at show ?thesis by (simp add: py_find_Some_iff)
qed

section \<open>Properties of split and join\<close>

lemma py_split_ne_found:
  "py_find sep s = Some i \<Longrightarrow> sep \<noteq> [] \<Longrightarrow>
   py_split_ne sep s = take i s # py_split_ne sep (drop (i + length sep) s)"
  by (simp add: py_split_ne.simps)

lemma py_split_ne_first:
  "p \<noteq> [] \<Longrightarrow> \<not> sublist p (a @ butlast p) \<Longrightarrow> py_split_ne p (a @ p @ b) = a # py_split_ne p b"
  by (simp add: py_split_ne_found py_find_first_occurrence)

lemma py_split_ne_not_found:
  "\<not> sublist sep s \<Longrightarrow> py_split_ne sep s = [s]"
  by (simp add: py_split_ne.simps py_find_None_iff [symmetric])

lemma py_split_ne_not_Nil [simp]: "py_split_ne sep s \<noteq> []"
  by (simp add: py_split_ne.simps split: option.split)

text \<open>Round trip: \<open>sep.join(s.split(sep)) == s\<close>.\<close>

lemma py_join_split: "sep \<noteq> [] \<Longrightarrow> py_join sep (py_split_ne sep s) = s"
proof (induction sep s rule: py_split_ne.induct)
  case (1 sep s)
  show ?case
  proof (cases "py_find sep s")
    case None
    then show ?thesis by (simp add: py_split_ne.simps)
  next
    case (Some i)
    let ?rest = "drop (i + length sep) s"
    have IH: "py_join sep (py_split_ne sep ?rest) = ?rest"
      using "1.IH" Some "1.prems" by blast
    obtain y ys where yys: "py_split_ne sep ?rest = y # ys"
      by (cases "py_split_ne sep ?rest") auto
    have "py_join sep (py_split_ne sep s) = take i s @ sep @ ?rest"
      using py_split_ne_found [OF Some "1.prems"] IH yys by simp
    also have "\<dots> = s" using py_find_Some_split [OF Some] by simp
    finally show ?thesis .
  qed
qed

text \<open>No piece of a split contains the separator.\<close>

lemma py_split_ne_pieces:
  "sep \<noteq> [] \<Longrightarrow> x \<in> set (py_split_ne sep s) \<Longrightarrow> \<not> sublist sep x"
proof (induction sep s rule: py_split_ne.induct)
  case (1 sep s)
  show ?case
  proof (cases "py_find sep s")
    case None
    with "1.prems" show ?thesis by (simp add: py_split_ne.simps py_find_None_iff)
  next
    case (Some i)
    with "1.prems" have "x = take i s \<or> x \<in> set (py_split_ne sep (drop (i + length sep) s))"
      by (simp add: py_split_ne_found)
    then show ?thesis
      using "1.IH" Some "1.prems"(1) py_find_Some_first [OF Some "1.prems"(1)] by blast
  qed
qed

lemma py_split_ne_hd:
  "sep \<noteq> [] \<Longrightarrow> py_find sep s = Some i \<Longrightarrow> hd (py_split_ne sep s) = take i s"
  by (simp add: py_split_ne_found)

lemma py_split_ne_hd_not_found:
  "\<not> sublist sep s \<Longrightarrow> hd (py_split_ne sep s) = s"
  by (simp add: py_split_ne_not_found)

lemma py_split_ne_length:
  "sep \<noteq> [] \<Longrightarrow> 2 \<le> length (py_split_ne sep s) \<longleftrightarrow> sublist sep s"
proof -
  assume ne: "sep \<noteq> []"
  show ?thesis
  proof (cases "py_find sep s")
    case None
    then show ?thesis by (simp add: py_split_ne_not_found py_find_None_iff [symmetric])
  next
    case (Some i)
    have "py_split_ne sep (drop (i + length sep) s) \<noteq> []" by simp
    then have "2 \<le> length (py_split_ne sep s)"
      using py_split_ne_found [OF Some ne] by (cases "py_split_ne sep (drop (i + length sep) s)") auto
    with Some show ?thesis using py_find_None_iff by (metis option.distinct(1))
  qed
qed

lemma py_join_Cons: "ys \<noteq> [] \<Longrightarrow> py_join sep (x # ys) = x @ sep @ py_join sep ys"
  by (cases ys) simp_all

lemma py_join_append:
  "xs \<noteq> [] \<Longrightarrow> ys \<noteq> [] \<Longrightarrow> py_join sep (xs @ ys) = py_join sep xs @ sep @ py_join sep ys"
proof (induction sep xs rule: py_join.induct)
  case (2 sep x)
  then show ?case by (cases ys) auto
qed simp_all

text \<open>Every item of a joined list occurs in the result.\<close>

lemma sublist_py_join: "x \<in> set xs \<Longrightarrow> sublist x (py_join sep xs)"
proof (induction sep xs rule: py_join.induct)
  case (3 sep a b xs)
  show ?case
  proof (cases "x = a")
    case True
    then show ?thesis by simp
  next
    case False
    with "3.prems" have "sublist x (py_join sep (b # xs))" using "3.IH" by simp
    moreover have "sublist (py_join sep (b # xs)) ((a @ sep) @ py_join sep (b # xs))"
      by (rule sublist_append_leftI)
    ultimately show ?thesis by (simp add: sublist_order.order.trans)
  qed
qed simp_all

section \<open>Properties of strip\<close>

lemma py_strip_trim: "py_strip s = rev (dropWhile py_isspace (rev (dropWhile py_isspace s)))"
  by (simp add: py_strip_def py_rstrip_def py_lstrip_def)

lemma py_strip_decomp:
  "\<exists>a b. s = a @ py_strip s @ b \<and> (\<forall>c\<in>set a. py_isspace c) \<and> (\<forall>c\<in>set b. py_isspace c)"
  unfolding py_strip_trim by (rule trim_both_decomp)

lemma py_strip_ends:
  "py_strip s \<noteq> [] \<Longrightarrow> \<not> py_isspace (hd (py_strip s)) \<and> \<not> py_isspace (last (py_strip s))"
  unfolding py_strip_trim by (rule trim_both_ends) simp_all

lemma py_strip_eqI:
  "\<forall>c\<in>set a. py_isspace c \<Longrightarrow> \<forall>c\<in>set b. py_isspace c \<Longrightarrow>
   m = [] \<or> \<not> py_isspace (hd m) \<and> \<not> py_isspace (last m) \<Longrightarrow> py_strip (a @ m @ b) = m"
  unfolding py_strip_trim by (rule trim_both_eqI)

lemma py_strip_idem [simp]: "py_strip (py_strip s) = py_strip s"
  using py_strip_eqI [of "[]" "[]" "py_strip s"] py_strip_ends [of s] by auto

lemma py_strip_id: "s \<noteq> [] \<Longrightarrow> \<not> py_isspace (hd s) \<Longrightarrow> \<not> py_isspace (last s) \<Longrightarrow> py_strip s = s"
  using py_strip_eqI [of "[]" "[]" s] by simp

text \<open>Surrounding white space does not change the result.\<close>

lemma py_strip_pad:
  assumes "\<forall>c\<in>set a. py_isspace c" and "\<forall>c\<in>set b. py_isspace c"
  shows "py_strip (a @ s @ b) = py_strip s"
proof -
  obtain a' b' where s: "s = a' @ py_strip s @ b'" and sa: "\<forall>c\<in>set a'. py_isspace c"
    and sb: "\<forall>c\<in>set b'. py_isspace c"
    using py_strip_decomp by blast
  have "py_strip ((a @ a') @ py_strip s @ (b' @ b)) = py_strip s"
    using assms sa sb py_strip_ends [of s] by (intro py_strip_eqI) auto
  then show ?thesis using s by (metis append_assoc)
qed

lemma py_strip_sublist [simp]: "sublist (py_strip s) s"
  using py_strip_decomp [of s] by (metis sublist_appendI)

lemma py_strip_Nil_iff: "py_strip s = [] \<longleftrightarrow> (\<forall>c\<in>set s. py_isspace c)"
proof
  assume "py_strip s = []"
  with py_strip_decomp [of s] show "\<forall>c\<in>set s. py_isspace c" by force
next
  assume "\<forall>c\<in>set s. py_isspace c"
  then show "py_strip s = []" using py_strip_eqI [of s "[]" "[]"] by simp
qed

end
