(* ===== verification/Extract.thy ===== *)
theory Extract
  imports PyStr
begin

text \<open>
  Code extraction, \<open>BankStatementParserAgent._extract_code\<close> (src/agent.py): the model's
  free-form answer is cut at the first \<^verbatim>\<open>```python\<close> fence and the next
  \<^verbatim>\<open>```\<close>, or taken whole when there is no fence; the result is stripped of white
  space, and \<open>None\<close> stands for an empty answer. The Python indexing \<open>[1]\<close> and
  \<open>[0]\<close> and both \<open>split\<close> calls are kept, each with the exception it may raise.
  Proved here: extraction never raises; on an answer with a fenced block it returns the
  block's inner text, stripped; without a fence it returns the stripped answer; the code it
  returns from a fenced answer never contains a fence marker.
\<close>

definition fence_python :: string where
  "fence_python = ''```python''"

definition fence :: string where
  "fence = ''```''"

definition extract_code :: "string \<Rightarrow> py_error + string option" where
  "extract_code text =
     (if py_in fence_python text then
        bind_sum (py_split text fence_python) (\<lambda>parts.
        bind_sum (py_index parts 1) (\<lambda>block.
        bind_sum (py_split block fence) (\<lambda>pieces.
        bind_sum (py_index pieces 0) (\<lambda>code. Inr (Some (py_strip code))))))
      else Inr (if text \<noteq> [] then Some (py_strip text) else None))"

section \<open>The two branches\<close>

lemma extract_code_fenced_hd:
  assumes "sublist fence_python text"
  shows "extract_code text =
           Inr (Some (py_strip (hd (py_split_ne fence (py_split_ne fence_python text ! 1)))))"
proof -
  have "2 \<le> length (py_split_ne fence_python text)"
    using assms by (simp add: py_split_ne_length fence_python_def)
  then show ?thesis
    using assms
    by (simp add: extract_code_def py_split_def fence_python_def fence_def hd_conv_nth)
qed

lemma extract_code_unfenced:
  "\<not> sublist fence_python text \<Longrightarrow>
   extract_code text = Inr (if text = [] then None else Some (py_strip text))"
  by (simp add: extract_code_def)

lemma fence_prefix_fence_python: "fence_python = fence @ ''python''"
  by (simp add: fence_def fence_python_def)

section \<open>Fenced answers\<close>

text \<open>
  A fence marker that starts one or two characters after the closing fence of the block
  (a run of four or five backticks) overlaps it; the lemmas below exclude that case with
  the hypothesis that the text after the closing fence does not begin with a backtick.
\<close>

lemma fence_late_occurrence:
  assumes "occurs_at fence (body @ fence @ post) (length body + k)" and "k = 1 \<or> k = 2"
  shows "prefix ''`'' post"
proof (cases post)
  case Nil
  with assms show ?thesis by (auto simp: occurs_at_def fence_def)
next
  case (Cons c cs)
  with assms have "c = CHR 0x60"
    by (auto simp: occurs_at_def fence_def)
  with Cons show ?thesis by simp
qed

lemma block_of_fenced:
  assumes nb: "\<not> sublist fence (body @ ''``'')" and np: "\<not> prefix ''`'' post"
  shows "hd (py_split_ne fence (hd (py_split_ne fence_python (body @ fence @ post)))) = body"
proof -
  let ?rest = "body @ fence @ post"
  have fne: "fence \<noteq> []" by (simp add: fence_def)
  have bl: "butlast fence = ''``''" by (simp add: fence_def)
  have first: "py_find fence ?rest = Some (length body)"
    using py_find_first_occurrence [OF fne] nb bl by simp
  have nbody: "\<not> sublist fence body"
    using nb by (meson sublist_append_rightI sublist_order.order_trans)
  show ?thesis
  proof (cases "py_find fence_python ?rest")
    case None
    then have "hd (py_split_ne fence_python ?rest) = ?rest"
      by (simp add: py_split_ne_hd_not_found py_find_None_iff [symmetric])
    then show ?thesis using py_split_ne_hd [OF fne first] by simp
  next
    case (Some j)
    then have "occurs_at fence_python ?rest j" by (simp add: py_find_Some_iff)
    then have occ: "occurs_at fence ?rest j"
      by (simp add: fence_prefix_fence_python occurs_at_append_pattern)
    have "\<not> j < length body" using first occ by (auto simp: py_find_Some_iff)
    moreover have "j \<noteq> length body + 1" "j \<noteq> length body + 2"
      using fence_late_occurrence [of body post 1] fence_late_occurrence [of body post 2] occ np
      by auto
    ultimately consider "j = length body" | "length body + 3 \<le> j" by linarith
    then have "hd (py_split_ne fence (take j ?rest)) = body"
    proof cases
      case 1
      then show ?thesis using nbody by (simp add: py_split_ne_hd_not_found)
    next
      case 2
      then obtain d where d: "j = length body + length fence + d"
        by (metis le_add_diff_inverse fence_def length_Cons list.size(3) numeral_3_eq_3)
      then have "take j ?rest = body @ fence @ take d post" by simp
      moreover have "py_find fence (body @ fence @ take d post) = Some (length body)"
        using py_find_first_occurrence [OF fne] nb bl by simp
      ultimately show ?thesis using py_split_ne_hd [OF fne] by simp
    qed
    moreover have "hd (py_split_ne fence_python ?rest) = take j ?rest"
      using Some by (simp add: py_split_ne_hd fence_python_def)
    ultimately show ?thesis by simp
  qed
qed

section \<open>Extraction theorems\<close>

text \<open>
  C13: Extraction of a fenced block (spec section 8, ``extraction correctness''): when the first
  \<^verbatim>\<open>```python\<close> fence of the answer opens the block and the first
  \<^verbatim>\<open>```\<close> after it closes the block, the extracted code is the block's inner
  text with surrounding white space removed.
\<close>

theorem extract_code_fenced_block:
  assumes "\<not> sublist ''```python'' (pre @ ''```pytho'')"
    and "\<not> sublist ''```'' (body @ ''``'')"
    and "\<not> prefix ''`'' post"
  shows "extract_code (pre @ ''```python'' @ body @ ''```'' @ post) = Inr (Some (py_strip body))"
proof -
  have fp: "fence_python \<noteq> []" "butlast fence_python = ''```pytho''"
    by (simp_all add: fence_python_def)
  let ?text = "pre @ fence_python @ body @ fence @ post"
  have "py_split_ne fence_python ?text = pre # py_split_ne fence_python (body @ fence @ post)"
    using py_split_ne_first [OF fp(1)] assms(1) fp(2) by (simp add: fence_python_def)
  then have "py_split_ne fence_python ?text ! 1 = hd (py_split_ne fence_python (body @ fence @ post))"
    by (simp add: hd_conv_nth)
  then have "extract_code ?text = Inr (Some (py_strip body))"
    using extract_code_fenced_hd [of ?text] block_of_fenced [of body post] assms(2,3)
    by (simp add: fence_def)
  then show ?thesis by (simp add: fence_def fence_python_def)
qed

theorem extract_code_fenced_block_witness:
  "\<not> sublist ''```python'' (''Here:\<newline>'' @ ''```pytho'')
   \<and> \<not> sublist ''```'' (''\<newline>def parse(p):\<newline>  pass\<newline>'' @ ''``'')
   \<and> \<not> prefix ''`'' ''\<newline>Done''
   \<and> extract_code (''Here:\<newline>```python\<newline>def parse(p):\<newline>  pass\<newline>```\<newline>Done'')
       = Inr (Some ''def parse(p):\<newline>  pass'')"
proof -
  have h1: "\<not> sublist ''```python'' (''Here:\<newline>'' @ ''```pytho'')" by (simp add: sublist_code)
  have h2: "\<not> sublist ''```'' (''\<newline>def parse(p):\<newline>  pass\<newline>'' @ ''``'')" by (simp add: sublist_code)
  have h3: "\<not> prefix ''`'' ''\<newline>Done''" by simp
  have "py_strip ''\<newline>def parse(p):\<newline>  pass\<newline>'' = ''def parse(p):\<newline>  pass''"
    by (simp add: py_strip_trim py_isspace_def)
  then show ?thesis
    using extract_code_fenced_block [OF h1 h2 h3] h1 h2 h3 by simp
qed


text \<open>
  C14: Extraction never raises: the indexing \<open>[1]\<close> after the split on the opening fence is
  guarded by the \<open>in\<close> test, and both separators are non-empty.
\<close>

theorem extract_code_never_raises: "\<exists>r. extract_code resp = Inr r"
  by (cases "sublist fence_python resp") (simp_all add: extract_code_fenced_hd extract_code_unfenced)

text \<open>
  C15: An answer cut off after the opening fence (no closing fence) yields the rest of the
  answer, stripped.
\<close>

theorem extract_code_unclosed_fence:
  assumes "\<not> sublist ''```python'' (pre @ ''```pytho'')" and "\<not> sublist ''```'' body"
  shows "extract_code (pre @ ''```python'' @ body) = Inr (Some (py_strip body))"
proof -
  have fp: "fence_python \<noteq> []" "butlast fence_python = ''```pytho''"
    by (simp_all add: fence_python_def)
  have "\<not> sublist fence_python body"
    using assms(2) fence_prefix_fence_python
    by (metis fence_def sublist_append_rightI sublist_order.order_trans)
  then have "hd (py_split_ne fence_python body) = body" by (rule py_split_ne_hd_not_found)
  moreover have "py_split_ne fence_python (pre @ fence_python @ body) = pre # py_split_ne fence_python body"
    using py_split_ne_first [OF fp(1)] assms(1) fp(2) by (simp add: fence_python_def)
  moreover have "hd (py_split_ne fence body) = body"
    using assms(2) by (simp add: fence_def py_split_ne_hd_not_found)
  ultimately have "extract_code (pre @ fence_python @ body) = Inr (Some (py_strip body))"
    using extract_code_fenced_hd [of "pre @ fence_python @ body"] by (simp add: hd_conv_nth)
  then show ?thesis by (simp add: fence_python_def)
qed

theorem extract_code_unclosed_fence_witness:
  "\<not> sublist ''```python'' (''Sure! '' @ ''```pytho'') \<and> \<not> sublist ''```'' ''\<newline>import re\<newline>''
   \<and> extract_code ''Sure! ```python\<newline>import re\<newline>'' = Inr (Some ''import re'')"
proof -
  have h1: "\<not> sublist ''```python'' (''Sure! '' @ ''```pytho'')" by (simp add: sublist_code)
  have h2: "\<not> sublist ''```'' ''\<newline>import re\<newline>''" by (simp add: sublist_code)
  have "py_strip ''\<newline>import re\<newline>'' = ''import re''" by (simp add: py_strip_trim py_isspace_def)
  then show ?thesis using extract_code_unclosed_fence [OF h1 h2] h1 h2 by simp
qed

text \<open>
  C16: From a fenced answer, the code written to the parser file never contains a fence
  marker.
\<close>

theorem extract_code_no_fence_marker:
  assumes "sublist ''```python'' resp" and "extract_code resp = Inr (Some c)"
  shows "\<not> sublist ''```'' c"
proof -
  let ?piece = "hd (py_split_ne fence (py_split_ne fence_python resp ! 1))"
  have c: "c = py_strip ?piece"
    using assms extract_code_fenced_hd [of resp] by (simp add: fence_python_def)
  have "?piece \<in> set (py_split_ne fence (py_split_ne fence_python resp ! 1))" by simp
  then have "\<not> sublist fence ?piece"
    by (rule py_split_ne_pieces [rotated]) (simp add: fence_def)
  then show ?thesis using c py_strip_sublist [of ?piece]
    by (metis fence_def sublist_order.order_trans)
qed

theorem extract_code_no_fence_marker_witness:
  "sublist ''```python'' ''a```python b```c'' \<and> extract_code ''a```python b```c'' = Inr (Some ''b'')
   \<and> \<not> sublist ''```'' ''b''"
proof -
  have h: "sublist ''```python'' ''a```python b```c''" by (simp add: sublist_code)
  have e: "extract_code ''a```python b```c'' = Inr (Some ''b'')"
    by (simp add: extract_code_def fence_python_def fence_def py_split_def py_split_ne.simps
        py_strip_trim py_isspace_def sublist_code)
  show ?thesis using extract_code_no_fence_marker [OF h e] h e by simp
qed

end
