(* ===== verification/Prompt.thy ===== *)
theory Prompt
  imports PyStr
begin

text \<open>
  Prompt construction, the f-string of \<open>_generate_code_node\<close> (src/agent.py): a fixed
  instruction text with two holes, the target bank and the feedback of the previous cycle.
  The feedback hole is \<open>state.get('test_results', 'This is the first attempt.')\<close>;
  \<open>run\<close> creates the state with the key \<open>test_results\<close> set to \<open>None\<close>, so the default
  is never used and the f-string renders \<open>str(None)\<close>, the text \<^verbatim>\<open>None\<close>.
  The text is kept line by line as the source has it (eight spaces of indentation,
  lines joined by newlines). Proved here: the prompt names the bank and carries the
  feedback verbatim between fixed text, so that two prompts for one bank are equal exactly
  when their feedback is; the first prompt of a run is taken up in the theory Runs.
\<close>

definition intro_line :: "string \<Rightarrow> string" where
  "intro_line bank = ''        You are an expert Python developer. Generate a parser for ''
     @ [CHR 0x27] @ bank @ [CHR 0x27] @ '' bank statements.''"

definition prompt_rules :: "string list" where
  "prompt_rules =
     [ ''        **CRITICAL INSTRUCTIONS:**'',
       ''        1.  The PDF data has exactly 5 columns. Your parser must extract and handle exactly 5 columns.'',
       ''        2.  The required output DataFrame columns are STRICTLY: `['Date', 'Description', 'Debit Amt', 'Credit Amt', 'Balance']`.'',
       ''        3.  **DO NOT HALLUCINATE OR ADD EXTRA COLUMNS.** Specifically, do not add a 'Chq./Ref.No.' column. This is the most common cause of failure.'',
       ''        4.  Use `pdfplumber` and `page.extract_tables()`.'',
       ''        5.  Create the DataFrame from a list of dictionaries to ensure column mapping is correct.'' ]"

definition feedback_label :: string where
  "feedback_label = ''        **Feedback from previous attempt:** ''"

definition prompt_head :: "string \<Rightarrow> string" where
  "prompt_head bank =
     py_join ''\<newline>'' ([[], intro_line bank, []] @ prompt_rules @ [[], feedback_label])"

definition prompt_tail :: string where
  "prompt_tail = py_join ''\<newline>''
     [ [],
       [],
       ''        Provide only the complete, runnable Python code.'',
       ''        '' ]"

definition build_prompt :: "string \<Rightarrow> string option \<Rightarrow> string" where
  "build_prompt bank test_results = prompt_head bank @ py_str_opt test_results @ prompt_tail"

section \<open>Properties of the prompt\<close>

lemma prompt_head_eq:
  "prompt_head bank = ''\<newline>'' @ intro_line bank @ ''\<newline>\<newline>''
     @ py_join ''\<newline>'' prompt_rules @ ''\<newline>\<newline>'' @ feedback_label"
proof -
  have r: "prompt_rules \<noteq> []" by (simp add: prompt_rules_def)
  have "py_join ''\<newline>'' ([[], intro_line bank, []] @ prompt_rules @ [[], feedback_label])
      = py_join ''\<newline>'' [[], intro_line bank, []] @ ''\<newline>''
        @ py_join ''\<newline>'' (prompt_rules @ [[], feedback_label])"
    using r by (intro py_join_append) simp_all
  also have "py_join ''\<newline>'' (prompt_rules @ [[], feedback_label])
      = py_join ''\<newline>'' prompt_rules @ ''\<newline>'' @ py_join ''\<newline>'' [[], feedback_label]"
    using r by (intro py_join_append) simp_all
  finally show ?thesis unfolding prompt_head_def by (simp only: py_join.simps append.simps append_assoc)
qed


lemma intro_line_names_bank: "sublist bank (intro_line bank)"
  unfolding intro_line_def by (metis append_assoc sublist_appendI)

lemma prompt_head_ends_label: "\<exists>x. prompt_head bank = x @ feedback_label"
  using prompt_head_eq [of bank] by (metis append_assoc)

lemma build_prompt_names_bank: "sublist bank (build_prompt bank fb)"
proof -
  have "sublist (intro_line bank) (prompt_head bank)"
    using prompt_head_eq [of bank] by (metis sublist_appendI append_assoc)
  moreover have "sublist (prompt_head bank) (build_prompt bank fb)"
    unfolding build_prompt_def by (rule sublist_append_rightI)
  ultimately show ?thesis
    using intro_line_names_bank by (meson sublist_order.order_trans)
qed

text \<open>
  C18: The feedback is carried verbatim: two prompts for the same bank are equal exactly
  when the rendered feedback texts are equal, so the model sees the whole feedback of the
  previous cycle and nothing else varies.
\<close>

lemma build_prompt_feedback_recoverable:
  "build_prompt bank f1 = build_prompt bank f2 \<longleftrightarrow> py_str_opt f1 = py_str_opt f2"
  by (simp add: build_prompt_def)

end
