(* ===== verification/Agent.thy ===== *)
theory Agent
  imports Extract Prompt
begin

text \<open>
  The agent of src/agent.py: the state \<open>AgentState\<close>, the graph nodes \<open>_plan_node\<close>,
  \<open>_generate_code_node\<close>, \<open>_run_tests_node\<close> and \<open>_self_fix_node\<close>, the routers
  \<open>_should_test\<close> and \<open>_should_continue_fixing\<close>, the graph of \<open>_build_graph\<close> and its
  execution by \<open>run\<close>. A configuration holds the node about to run, the agent state, the
  files of the working directory and the trace of calls to the outside world (model
  requests, file writes, test runs). The outside world is an environment of oracles: the
  \<open>n\<close>-th model request answers from the prompt, the \<open>n\<close>-th test run answers from the
  files on disk, the reference CSV is read from its path. A theorem quantified over all
  environments holds whatever the model and the tests answer.
  The graph runs under LangGraph's recursion limit (25 node executions by default):
  exceeding it raises \<open>GraphRecursionError\<close>.
\<close>

section \<open>State and environment\<close>

type_synonym message = "string \<times> string"

record agent_state =
  messages :: "message list"
  target_bank :: string
  parser_path :: path
  csv_path :: path
  current_code :: "string option"
  test_results :: "string option"
  attempt_count :: int
  max_attempts :: int
  task_complete :: bool

text \<open>
  \<open>self.model.generate_content(prompt).text\<close> returns the answer's text or raises;
  \<open>subprocess.run(...)\<close> returns exit code, captured stdout and stderr, or raises
  (\<open>TimeoutExpired\<close> after 60 seconds, \<open>OSError\<close>); the text is what \<open>str(e)\<close> gives.
  \<open>write_error p\<close> is the \<open>OSError\<close> that \<open>os.makedirs\<close> of the parent of \<open>p\<close> or
  \<open>open(p, 'w')\<close> raises (a permission, a file in place of the directory), \<open>None\<close> when both
  succeed; the permissions of the file system are taken as fixed during a run, and a failure
  leaves the file as it was.
\<close>

datatype gen_outcome = GenText string | GenRaise string

datatype test_outcome = Completed int string string | RunRaise string

type_synonym files = "path \<Rightarrow> string option"

record env =
  llm :: "nat \<Rightarrow> string \<Rightarrow> gen_outcome"
  pytest :: "nat \<Rightarrow> files \<Rightarrow> test_outcome"
  csv_columns :: "path \<Rightarrow> string list option"
  write_error :: "path \<Rightarrow> string option"

datatype event = LlmCall string | WriteFile path string | TestRun test_outcome

datatype node = Plan | Generate_code | Run_tests | Self_fix | END

record cfg =
  pc :: node
  st :: agent_state
  fs :: files
  tr :: "event list"

datatype agent_error = CsvReadError path | BranchKeyError string | GraphRecursionError

fun is_llm_call :: "event \<Rightarrow> bool" where
  "is_llm_call (LlmCall p) = True"
| "is_llm_call _ = False"

fun is_test_run :: "event \<Rightarrow> bool" where
  "is_test_run (TestRun r) = True"
| "is_test_run _ = False"

definition llm_calls :: "event list \<Rightarrow> nat" where
  "llm_calls es = length (filter is_llm_call es)"

definition test_runs :: "event list \<Rightarrow> nat" where
  "test_runs es = length (filter is_test_run es)"

section \<open>Client set-up\<close>

text \<open>
  \<open>__init__\<close>: the client is configured with the API key, and the model is created with a
  name and safety settings (the members of the enums \<open>HarmCategory\<close> and
  \<open>HarmBlockThreshold\<close> by name) and no generation configuration.
\<close>

record llm_client =
  client_api_key :: string
  model_name :: string
  safety_settings :: "(string \<times> string) list"
  generation_config :: "(string \<times> string) list option"

definition agent_init :: "string \<Rightarrow> llm_client" where
  "agent_init api_key =
     \<lparr>client_api_key = api_key, model_name = ''gemini-1.5-pro'',
      safety_settings =
        [(''HARM_CATEGORY_HATE_SPEECH'', ''BLOCK_NONE''), (''HARM_CATEGORY_HARASSMENT'', ''BLOCK_NONE''),
         (''HARM_CATEGORY_SEXUALLY_EXPLICIT'', ''BLOCK_NONE''),
         (''HARM_CATEGORY_DANGEROUS_CONTENT'', ''BLOCK_NONE'')],
      generation_config = None\<rparr>"

section \<open>Nodes\<close>

definition plan_node :: "agent_state \<Rightarrow> agent_state" where
  "plan_node s =
     s\<lparr>messages := messages s @ [(''user'', ''Plan a Python parser for '' @ target_bank s @ ''.'')]\<rparr>"

text \<open>
  \<open>pd.read_csv\<close> runs before the \<open>try\<close>: a missing reference file aborts the run. The
  columns it reads are not used. Inside the \<open>try\<close>, an exception of the model call or of
  the extraction or of the file write becomes feedback; code that is not empty is written to
  the parser file (after creating its directory).
\<close>

definition generate_code_node :: "env \<Rightarrow> cfg \<Rightarrow> agent_error + cfg" where
  "generate_code_node E c =
     (let s = st c in
      case csv_columns E (csv_path s) of
        None \<Rightarrow> Inl (CsvReadError (csv_path s))
      | Some csv_schema \<Rightarrow>
          (let prompt = build_prompt (target_bank s) (test_results s);
               c1 = c\<lparr>tr := tr c @ [LlmCall prompt]\<rparr>;
               raised = (\<lambda>e. c1\<lparr>st := s\<lparr>current_code := None,
                  test_results := Some (''An exception occurred during code generation: '' @ e)\<rparr>\<rparr>);
               no_code = c1\<lparr>st := s\<lparr>current_code := None,
                  test_results := Some ''Failed to generate valid Python code.''\<rparr>\<rparr>
           in Inr (case llm E (llm_calls (tr c)) prompt of
                GenRaise e \<Rightarrow> raised e
              | GenText answer \<Rightarrow>
                  (case extract_code answer of
                     Inl err \<Rightarrow> raised (py_error_str err)
                   | Inr code \<Rightarrow>
                       (case code of
                          Some cd \<Rightarrow>
                            if cd \<noteq> []
                            then (case write_error E (parser_path s) of
                                    Some e \<Rightarrow> raised e
                                  | None \<Rightarrow>
                                      c1\<lparr>st := s\<lparr>current_code := Some cd\<rparr>,
                                         fs := (fs c1)(parser_path s \<mapsto> cd),
                                         tr := tr c1 @ [WriteFile (parser_path s) cd]\<rparr>)
                            else no_code
                        | None \<Rightarrow> no_code)))))"

definition run_tests_node :: "env \<Rightarrow> cfg \<Rightarrow> cfg" where
  "run_tests_node E c =
     (let s = st c;
          r = pytest E (test_runs (tr c)) (fs c);
          c1 = c\<lparr>tr := tr c @ [TestRun r]\<rparr>
      in case r of
           Completed rc out err \<Rightarrow>
             if rc = 0
             then c1\<lparr>st := s\<lparr>test_results := Some ''All tests passed successfully.'',
                                task_complete := True\<rparr>\<rparr>
             else c1\<lparr>st := s\<lparr>test_results := Some (''Tests failed.\<newline>STDOUT:\<newline>'' @ out
                                  @ ''\<newline>STDERR:\<newline>'' @ err),
                                task_complete := False\<rparr>\<rparr>
         | RunRaise e \<Rightarrow>
             c1\<lparr>st := s\<lparr>test_results := Some (''An unexpected error occurred while running tests: '' @ e),
                          task_complete := False\<rparr>\<rparr>)"

definition self_fix_node :: "agent_state \<Rightarrow> agent_state" where
  "self_fix_node s = s\<lparr>attempt_count := attempt_count s + 1\<rparr>"

section \<open>Routers and graph\<close>

definition should_test :: "agent_state \<Rightarrow> string" where
  "should_test s = (if py_truthy (current_code s) then ''test'' else ''end'')"

definition should_continue_fixing :: "agent_state \<Rightarrow> string" where
  "should_continue_fixing s =
     (if task_complete s then ''end''
      else if attempt_count s < max_attempts s then ''fix'' else ''end'')"

text \<open>A conditional edge looks the router's answer up in its path map.\<close>

definition branch :: "(string \<rightharpoonup> node) \<Rightarrow> string \<Rightarrow> agent_error + node" where
  "branch m k = (case m k of None \<Rightarrow> Inl (BranchKeyError k) | Some n \<Rightarrow> Inr n)"

definition next_node :: "node \<Rightarrow> agent_state \<Rightarrow> agent_error + node" where
  "next_node n s =
     (case n of
        Plan \<Rightarrow> Inr Generate_code
      | Generate_code \<Rightarrow> branch [''test'' \<mapsto> Run_tests, ''end'' \<mapsto> END] (should_test s)
      | Run_tests \<Rightarrow> branch [''fix'' \<mapsto> Self_fix, ''end'' \<mapsto> END] (should_continue_fixing s)
      | Self_fix \<Rightarrow> Inr Generate_code
      | END \<Rightarrow> Inr END)"

definition exec_node :: "env \<Rightarrow> cfg \<Rightarrow> agent_error + cfg" where
  "exec_node E c =
     (case pc c of
        Plan \<Rightarrow> Inr (c\<lparr>st := plan_node (st c)\<rparr>)
      | Generate_code \<Rightarrow> generate_code_node E c
      | Run_tests \<Rightarrow> Inr (run_tests_node E c)
      | Self_fix \<Rightarrow> Inr (c\<lparr>st := self_fix_node (st c)\<rparr>)
      | END \<Rightarrow> Inr c)"

text \<open>One superstep: run the current node, then follow the edge out of it.\<close>

definition step :: "env \<Rightarrow> cfg \<Rightarrow> agent_error + cfg" where
  "step E c = bind_sum (exec_node E c) (\<lambda>c'. bind_sum (next_node (pc c) (st c')) (\<lambda>n. Inr (c'\<lparr>pc := n\<rparr>)))"

text \<open>
  \<open>run_graph k\<close> runs at most \<open>k\<close> supersteps and raises \<open>GraphRecursionError\<close> if the
  graph has not reached \<open>END\<close> by then, as LangGraph's \<open>invoke\<close> does with
  \<open>recursion_limit = k\<close>.
\<close>

fun run_graph :: "nat \<Rightarrow> env \<Rightarrow> cfg \<Rightarrow> agent_error + cfg" where
  "run_graph 0 E c = (if pc c = END then Inr c else Inl GraphRecursionError)"
| "run_graph (Suc k) E c =
     (if pc c = END then Inr c
      else case step E c of Inl e \<Rightarrow> Inl e | Inr c' \<Rightarrow> run_graph k E c')"

definition recursion_limit :: nat where
  "recursion_limit = 25"

section \<open>The entry point\<close>

definition initial_state :: "path \<Rightarrow> string \<Rightarrow> int \<Rightarrow> agent_state" where
  "initial_state cwd bank limit =
     \<lparr>messages = [], target_bank = bank,
      parser_path = cwd @ ''/custom_parsers/'' @ bank @ ''_parser.py'',
      csv_path = cwd @ ''/data/'' @ bank @ ''/'' @ bank @ ''_sample.csv'',
      current_code = None, test_results = None, attempt_count = 1,
      max_attempts = limit, task_complete = False\<rparr>"

definition initial_cfg :: "path \<Rightarrow> string \<Rightarrow> int \<Rightarrow> files \<Rightarrow> cfg" where
  "initial_cfg cwd bank limit files0 =
     \<lparr>pc = Plan, st = initial_state cwd bank limit, fs = files0, tr = []\<rparr>"

text \<open>What \<open>run\<close> prints at the end: the parser's path, or the attempts and the last feedback.\<close>

datatype report = Succeeded path | Failed int string

definition final_report :: "agent_state \<Rightarrow> report" where
  "final_report s =
     (if task_complete s then Succeeded (parser_path s)
      else Failed (attempt_count s) (py_str_opt (test_results s)))"

definition run :: "env \<Rightarrow> path \<Rightarrow> string \<Rightarrow> int \<Rightarrow> files \<Rightarrow> agent_error + report \<times> cfg" where
  "run E cwd bank limit files0 =
     bind_sum (run_graph recursion_limit E (initial_cfg cwd bank limit files0))
       (\<lambda>c. Inr (final_report (st c), c))"

text \<open>
  \<open>main\<close> after \<open>parse_args\<close>: the values of the required options \<open>--target\<close> and
  \<open>--api-key\<close>. The agent is built with the key, then \<open>run\<close> is called with its default
  \<open>max_attempts = 3\<close>; the result pairs the agent's client with the run's report.
\<close>

definition agent_main ::
  "env \<Rightarrow> path \<Rightarrow> string \<Rightarrow> string \<Rightarrow> files \<Rightarrow> agent_error + llm_client \<times> report \<times> cfg" where
  "agent_main E cwd target api_key files0 =
     (let agent = agent_init api_key
      in bind_sum (run E cwd target 3 files0) (\<lambda>(rep, c). Inr (agent, rep, c)))"

section \<open>Node lemmas\<close>

lemma next_node_Generate_code [node_simps]:
  "next_node Generate_code s = Inr (if py_truthy (current_code s) then Run_tests else END)"
  by (simp add: next_node_def branch_def should_test_def)

lemma next_node_Run_tests [node_simps]:
  "next_node Run_tests s =
     Inr (if task_complete s then END else if attempt_count s < max_attempts s then Self_fix else END)"
  by (simp add: next_node_def branch_def should_continue_fixing_def)

lemma next_node_never_raises: "\<exists>n'. next_node n s = Inr n'"
  by (cases n) (simp_all add: node_simps, simp_all add: next_node_def)

text \<open>What one execution of the generation node can do.\<close>

lemma generate_code_node_cases:
  assumes "generate_code_node E c = Inr c1"
  shows "pc c1 = pc c \<and> attempt_count (st c1) = attempt_count (st c)
    \<and> max_attempts (st c1) = max_attempts (st c) \<and> task_complete (st c1) = task_complete (st c)
    \<and> target_bank (st c1) = target_bank (st c) \<and> parser_path (st c1) = parser_path (st c)
    \<and> csv_path (st c1) = csv_path (st c)
    \<and> ((\<exists>p. tr c1 = tr c @ [LlmCall p] \<and> fs c1 = fs c \<and> \<not> py_truthy (current_code (st c1))
          \<and> test_results (st c1) \<noteq> None)
       \<or> (\<exists>p cd. cd \<noteq> [] \<and> tr c1 = tr c @ [LlmCall p, WriteFile (parser_path (st c)) cd]
          \<and> fs c1 = (fs c)(parser_path (st c) \<mapsto> cd) \<and> current_code (st c1) = Some cd
          \<and> test_results (st c1) = test_results (st c)))"
  using assms
  by (auto simp: generate_code_node_def Let_def py_truthy_def
      split: option.splits gen_outcome.splits sum.splits if_splits)

text \<open>A model answer with extractable, non-empty code: the code is written and recorded.\<close>

lemma generate_code_node_code:
  assumes "csv_columns E (csv_path (st c)) = Some cols"
    and "llm E (llm_calls (tr c)) (build_prompt (target_bank (st c)) (test_results (st c))) = GenText ans"
    and "extract_code ans = Inr (Some cd)" and "cd \<noteq> []"
    and "write_error E (parser_path (st c)) = None"
  shows "generate_code_node E c =
    Inr (c\<lparr>st := (st c)\<lparr>current_code := Some cd\<rparr>, fs := (fs c)(parser_path (st c) \<mapsto> cd),
           tr := tr c @ [LlmCall (build_prompt (target_bank (st c)) (test_results (st c))),
                         WriteFile (parser_path (st c)) cd]\<rparr>)"
  using assms by (simp add: generate_code_node_def Let_def)

lemma generate_code_node_csv:
  "generate_code_node E c = Inl e \<longleftrightarrow> csv_columns E (csv_path (st c)) = None \<and> e = CsvReadError (csv_path (st c))"
  by (auto simp: generate_code_node_def Let_def split: option.splits)


lemma step_Plan [node_simps]:
  "pc c = Plan \<Longrightarrow> step E c = Inr (c\<lparr>pc := Generate_code, st := plan_node (st c)\<rparr>)"
  by (simp add: step_def exec_node_def next_node_def)

lemma step_Self_fix [node_simps]:
  "pc c = Self_fix \<Longrightarrow> step E c = Inr (c\<lparr>pc := Generate_code, st := self_fix_node (st c)\<rparr>)"
  by (simp add: step_def exec_node_def next_node_def)

lemma step_Run_tests [node_simps]:
  "pc c = Run_tests \<Longrightarrow> step E c =
     Inr ((run_tests_node E c)\<lparr>pc := (if task_complete (st (run_tests_node E c)) then END
        else if attempt_count (st (run_tests_node E c)) < max_attempts (st (run_tests_node E c))
        then Self_fix else END)\<rparr>)"
  by (simp add: step_def exec_node_def node_simps)

lemma step_Generate_code [node_simps]:
  "pc c = Generate_code \<Longrightarrow> step E c =
     bind_sum (generate_code_node E c)
       (\<lambda>c1. Inr (c1\<lparr>pc := (if py_truthy (current_code (st c1)) then Run_tests else END)\<rparr>))"
  by (simp add: step_def exec_node_def node_simps)

lemma run_tests_node_simps [node_simps]:
  "pc (run_tests_node E c) = pc c"
  "fs (run_tests_node E c) = fs c"
  "tr (run_tests_node E c) = tr c @ [TestRun (pytest E (test_runs (tr c)) (fs c))]"
  "attempt_count (st (run_tests_node E c)) = attempt_count (st c)"
  "max_attempts (st (run_tests_node E c)) = max_attempts (st c)"
  "target_bank (st (run_tests_node E c)) = target_bank (st c)"
  "parser_path (st (run_tests_node E c)) = parser_path (st c)"
  "csv_path (st (run_tests_node E c)) = csv_path (st c)"
  "current_code (st (run_tests_node E c)) = current_code (st c)"
  "test_results (st (run_tests_node E c)) \<noteq> None"
  "task_complete (st (run_tests_node E c)) \<longleftrightarrow>
     (\<exists>out err. pytest E (test_runs (tr c)) (fs c) = Completed 0 out err)"
  by (simp_all add: run_tests_node_def Let_def split: test_outcome.split)

lemma plan_node_simps [node_simps]:
  "attempt_count (plan_node s) = attempt_count s" "max_attempts (plan_node s) = max_attempts s"
  "task_complete (plan_node s) = task_complete s" "current_code (plan_node s) = current_code s"
  "test_results (plan_node s) = test_results s" "target_bank (plan_node s) = target_bank s"
  "parser_path (plan_node s) = parser_path s" "csv_path (plan_node s) = csv_path s"
  by (simp_all add: plan_node_def)

lemma self_fix_node_simps [node_simps]:
  "attempt_count (self_fix_node s) = attempt_count s + 1" "max_attempts (self_fix_node s) = max_attempts s"
  "task_complete (self_fix_node s) = task_complete s" "current_code (self_fix_node s) = current_code s"
  "test_results (self_fix_node s) = test_results s" "target_bank (self_fix_node s) = target_bank s"
  "parser_path (self_fix_node s) = parser_path s" "csv_path (self_fix_node s) = csv_path s"
  by (simp_all add: self_fix_node_def)

section \<open>Properties of the generation node\<close>

text \<open>
  C19: The generation node does not use the CSV it reads: given the same model and the same
  outcome of writing files, two environments whose sample CSVs both exist, with any columns,
  give the same result.
\<close>

theorem generate_code_node_ignores_csv:
  assumes "csv_columns E1 (csv_path (st c)) = Some cols1"
    and "csv_columns E2 (csv_path (st c)) = Some cols2"
    and "llm E1 = llm E2" and "write_error E1 = write_error E2"
  shows "generate_code_node E1 c = generate_code_node E2 c"
  using assms
  by (auto simp: generate_code_node_def Let_def split: option.split gen_outcome.split sum.split)

theorem generate_code_node_ignores_csv_witness:
  "csv_columns \<lparr>llm = (\<lambda>n p. GenText ''x''), pytest = (\<lambda>n f. Completed 0 [] []),
       csv_columns = (\<lambda>p. Some [''Date'', ''Balance'']), write_error = (\<lambda>p. None)\<rparr> (csv_path (initial_state ''/w'' ''icici'' 3))
     = Some [''Date'', ''Balance'']
   \<and> csv_columns \<lparr>llm = (\<lambda>n p. GenText ''x''), pytest = (\<lambda>n f. Completed 1 [] []),
       csv_columns = (\<lambda>p. Some [''Chq./Ref.No.'']), write_error = (\<lambda>p. None)\<rparr> (csv_path (initial_state ''/w'' ''icici'' 3))
     = Some [''Chq./Ref.No.'']
   \<and> generate_code_node \<lparr>llm = (\<lambda>n p. GenText ''x''), pytest = (\<lambda>n f. Completed 0 [] []),
       csv_columns = (\<lambda>p. Some [''Date'', ''Balance'']), write_error = (\<lambda>p. None)\<rparr> (initial_cfg ''/w'' ''icici'' 3 Map.empty)
     = generate_code_node \<lparr>llm = (\<lambda>n p. GenText ''x''), pytest = (\<lambda>n f. Completed 1 [] []),
       csv_columns = (\<lambda>p. Some [''Chq./Ref.No.'']), write_error = (\<lambda>p. None)\<rparr> (initial_cfg ''/w'' ''icici'' 3 Map.empty)"
  using generate_code_node_ignores_csv
    [of "\<lparr>llm = (\<lambda>n p. GenText ''x''), pytest = (\<lambda>n f. Completed 0 [] []),
       csv_columns = (\<lambda>p. Some [''Date'', ''Balance'']), write_error = (\<lambda>p. None)\<rparr>" "initial_cfg ''/w'' ''icici'' 3 Map.empty"
       "[''Date'', ''Balance'']"
       "\<lparr>llm = (\<lambda>n p. GenText ''x''), pytest = (\<lambda>n f. Completed 1 [] []),
       csv_columns = (\<lambda>p. Some [''Chq./Ref.No.'']), write_error = (\<lambda>p. None)\<rparr>" "[''Chq./Ref.No.'']"]
  by (simp add: initial_cfg_def)

end
