(* ===== verification/AgentRun.thy ===== *)
theory AgentRun
  imports Agent
begin

text \<open>
  Runs of the agent's graph. \<open>cstep\<close> is one superstep of \<open>run_graph\<close> from a node
  other than \<open>END\<close>; \<open>reach\<close> its reflexive-transitive closure from a start
  configuration. The invariants, each proved to be kept by every superstep and then by rule
  induction on \<open>reach\<close>: the attempt counter stays in bounds; the trace of outside calls
  follows the protocol (model request, write, test run)*, a run ending after a test run or
  after a model request that yielded no code; the attempt counter counts the model
  requests; the parser file on disk holds the current code; completion means the last test
  run exited with 0 on the files as they are; the bank, paths and limit never change.
  \<open>run_graph\<close> ends only in \<open>END\<close> configurations reachable from its start.
\<close>

section \<open>Supersteps and reachable configurations\<close>

inductive cstep :: "env \<Rightarrow> cfg \<Rightarrow> cfg \<Rightarrow> bool" for E :: env where
  superstep: "pc c \<noteq> END \<Longrightarrow> step E c = Inr c' \<Longrightarrow> cstep E c c'"

inductive reach :: "env \<Rightarrow> cfg \<Rightarrow> cfg \<Rightarrow> bool" for E :: env and c0 :: cfg where
  start: "reach E c0 c0"
| extend: "reach E c0 c \<Longrightarrow> cstep E c c' \<Longrightarrow> reach E c0 c'"

inductive_cases cstepE: "cstep E c c'"

lemma cstep_cases [consumes 1, case_names plan generate_code run_tests self_fix]:
  assumes "cstep E c c'"
  obtains (plan) "pc c = Plan" "c' = c\<lparr>pc := Generate_code, st := plan_node (st c)\<rparr>"
  | (generate_code) c1 where "pc c = Generate_code" "generate_code_node E c = Inr c1"
      "c' = c1\<lparr>pc := (if py_truthy (current_code (st c1)) then Run_tests else END)\<rparr>"
  | (run_tests) "pc c = Run_tests"
      "c' = (run_tests_node E c)\<lparr>pc := (if task_complete (st (run_tests_node E c)) then END
         else if attempt_count (st c) < max_attempts (st c) then Self_fix else END)\<rparr>"
  | (self_fix) "pc c = Self_fix" "c' = c\<lparr>pc := Generate_code, st := self_fix_node (st c)\<rparr>"
proof -
  from assms have "pc c \<noteq> END" and "step E c = Inr c'" by (auto elim: cstepE)
  then show ?thesis using that by (cases "pc c") (auto simp: node_simps)
qed


section \<open>Invariants\<close>

definition attempts_ok :: "cfg \<Rightarrow> bool" where
  "attempts_ok c \<longleftrightarrow>
     1 \<le> attempt_count (st c) \<and> attempt_count (st c) \<le> max 1 (max_attempts (st c))
     \<and> (pc c = Self_fix \<longrightarrow> attempt_count (st c) < max_attempts (st c))"

lemma cstep_attempts_ok: "cstep E c c' \<Longrightarrow> attempts_ok c \<Longrightarrow> attempts_ok c'"
proof (induction rule: cstep_cases)
  case (generate_code c1)
  then show ?case
    using generate_code_node_cases [OF generate_code.hyps(2)] by (auto simp: attempts_ok_def)
qed (auto simp: attempts_ok_def node_simps split: if_splits)

datatype tstate = Q0 | Q1 | Q2

fun trace_dfa :: "tstate \<Rightarrow> event list \<Rightarrow> tstate option" where
  "trace_dfa q [] = Some q"
| "trace_dfa Q0 (LlmCall p # es) = trace_dfa Q1 es"
| "trace_dfa Q1 (WriteFile f cd # es) = trace_dfa Q2 es"
| "trace_dfa Q2 (TestRun r # es) = trace_dfa Q0 es"
| "trace_dfa _ _ = None"

lemma trace_dfa_append:
  "trace_dfa q (xs @ ys) = (case trace_dfa q xs of None \<Rightarrow> None | Some q' \<Rightarrow> trace_dfa q' ys)"
  by (induction q xs rule: trace_dfa.induct) auto

definition protocol_at :: "node \<Rightarrow> event list \<Rightarrow> bool" where
  "protocol_at n es =
     (case n of
        Plan \<Rightarrow> es = []
      | Generate_code \<Rightarrow> trace_dfa Q0 es = Some Q0
      | Run_tests \<Rightarrow> trace_dfa Q0 es = Some Q2
      | Self_fix \<Rightarrow> trace_dfa Q0 es = Some Q0 \<and> es \<noteq> []
      | END \<Rightarrow> es \<noteq> [] \<and> (trace_dfa Q0 es = Some Q0 \<or> trace_dfa Q0 es = Some Q1))"

lemma cstep_protocol: "cstep E c c' \<Longrightarrow> protocol_at (pc c) (tr c) \<Longrightarrow> protocol_at (pc c') (tr c')"
proof (induction rule: cstep_cases)
  case (generate_code c1)
  then show ?case
    using generate_code_node_cases [OF generate_code.hyps(2)]
    by (auto simp: protocol_at_def trace_dfa_append py_truthy_def)
qed (auto simp: protocol_at_def trace_dfa_append node_simps)

definition calls_ok :: "cfg \<Rightarrow> bool" where
  "calls_ok c \<longleftrightarrow>
     int (llm_calls (tr c)) + (if pc c = Plan \<or> pc c = Generate_code then 1 else 0)
       = attempt_count (st c)"

lemma cstep_calls: "cstep E c c' \<Longrightarrow> calls_ok c \<Longrightarrow> calls_ok c'"
proof (induction rule: cstep_cases)
  case (generate_code c1)
  then show ?case
    using generate_code_node_cases [OF generate_code.hyps(2)]
    by (auto simp: calls_ok_def llm_calls_def py_truthy_def)
qed (auto simp: calls_ok_def llm_calls_def node_simps)

definition artifact_ok :: "cfg \<Rightarrow> bool" where
  "artifact_ok c \<longleftrightarrow>
     (py_truthy (current_code (st c)) \<longrightarrow> fs c (parser_path (st c)) = current_code (st c))"

lemma cstep_artifact: "cstep E c c' \<Longrightarrow> artifact_ok c \<Longrightarrow> artifact_ok c'"
proof (induction rule: cstep_cases)
  case (generate_code c1)
  then show ?case
    using generate_code_node_cases [OF generate_code.hyps(2)]
    by (auto simp: artifact_ok_def py_truthy_def)
qed (auto simp: artifact_ok_def node_simps)

definition success_ok :: "env \<Rightarrow> cfg \<Rightarrow> bool" where
  "success_ok E c \<longleftrightarrow>
     (task_complete (st c) \<longrightarrow> pc c = END \<and>
        (\<exists>pre out err. tr c = pre @ [TestRun (Completed 0 out err)]
           \<and> pytest E (test_runs pre) (fs c) = Completed 0 out err))"

lemma cstep_success: "cstep E c c' \<Longrightarrow> success_ok E c \<Longrightarrow> success_ok E c'"
proof (induction rule: cstep_cases)
  case (generate_code c1)
  then show ?case
    using generate_code_node_cases [OF generate_code.hyps(2)]
    by (auto simp: success_ok_def py_truthy_def)
qed (auto simp: success_ok_def node_simps split: if_splits)


definition same_setup :: "cfg \<Rightarrow> cfg \<Rightarrow> bool" where
  "same_setup c0 c \<longleftrightarrow>
     target_bank (st c) = target_bank (st c0) \<and> parser_path (st c) = parser_path (st c0)
     \<and> csv_path (st c) = csv_path (st c0) \<and> max_attempts (st c) = max_attempts (st c0)"

lemma cstep_same_setup: "cstep E c c' \<Longrightarrow> same_setup c0 c \<Longrightarrow> same_setup c0 c'"
proof (induction rule: cstep_cases)
  case (generate_code c1)
  then show ?case
    using generate_code_node_cases [OF generate_code.hyps(2)] by (auto simp: same_setup_def)
qed (auto simp: same_setup_def node_simps)

definition agent_inv :: "env \<Rightarrow> cfg \<Rightarrow> cfg \<Rightarrow> bool" where
  "agent_inv E c0 c \<longleftrightarrow>
     attempts_ok c \<and> protocol_at (pc c) (tr c) \<and> calls_ok c \<and> artifact_ok c
     \<and> success_ok E c \<and> same_setup c0 c"

lemma cstep_agent_inv: "cstep E c c' \<Longrightarrow> agent_inv E c0 c \<Longrightarrow> agent_inv E c0 c'"
  unfolding agent_inv_def
  using cstep_attempts_ok cstep_protocol cstep_calls cstep_artifact cstep_success
    cstep_same_setup by blast

lemma initial_agent_inv: "agent_inv E (initial_cfg cwd bank limit f0) (initial_cfg cwd bank limit f0)"
  by (simp add: agent_inv_def initial_cfg_def initial_state_def attempts_ok_def protocol_at_def
      calls_ok_def llm_calls_def artifact_ok_def py_truthy_def success_ok_def same_setup_def)

lemma reach_agent_inv:
  "reach E c0 c \<Longrightarrow> agent_inv E c0 c0 \<Longrightarrow> agent_inv E c0 c"
  by (induction rule: reach.induct) (auto intro: cstep_agent_inv)

lemma reach_prepend: "reach E c1 c' \<Longrightarrow> cstep E c c1 \<Longrightarrow> reach E c c'"
  by (induction rule: reach.induct) (auto intro: reach.intros)

lemma run_graph_reach: "run_graph k E c = Inr c' \<Longrightarrow> reach E c c' \<and> pc c' = END"
proof (induction k arbitrary: c)
  case 0
  then show ?case by (simp add: reach.start split: if_splits)
next
  case (Suc k)
  show ?case
  proof (cases "pc c = END")
    case True
    with Suc.prems show ?thesis by (simp add: reach.start)
  next
    case False
    with Suc.prems obtain c1 where s: "step E c = Inr c1" and r: "run_graph k E c1 = Inr c'"
      by (auto split: sum.splits)
    from False s have "cstep E c c1" by (rule cstep.superstep)
    with Suc.IH [OF r] show ?thesis by (blast intro: reach_prepend)
  qed
qed

lemma run_final:
  assumes "run E cwd bank limit f0 = Inr (rep, c)"
  shows "agent_inv E (initial_cfg cwd bank limit f0) c \<and> pc c = END \<and> rep = final_report (st c)"
proof -
  from assms obtain c' where g: "run_graph recursion_limit E (initial_cfg cwd bank limit f0) = Inr c'"
    and "rep = final_report (st c')" and "c = c'"
    by (auto simp: run_def)
  with run_graph_reach [OF g] reach_agent_inv initial_agent_inv show ?thesis by blast
qed

section \<open>Properties of single steps and of whole runs\<close>

lemma generate_code_node_defined:
  "csv_columns E (csv_path (st c)) \<noteq> None \<Longrightarrow> \<exists>c1. generate_code_node E c = Inr c1"
  by (cases "generate_code_node E c") (auto simp: generate_code_node_csv)

lemma step_defined:
  "pc c \<noteq> END \<Longrightarrow> csv_columns E (csv_path (st c)) \<noteq> None \<Longrightarrow> \<exists>c'. step E c = Inr c'"
  using generate_code_node_defined [of E c] by (cases "pc c") (auto simp: node_simps)

definition scripted :: "(nat \<Rightarrow> gen_outcome) \<Rightarrow> (nat \<Rightarrow> test_outcome) \<Rightarrow> env" where
  "scripted g t = \<lparr>llm = (\<lambda>n p. g n), pytest = (\<lambda>n f. t n), csv_columns = (\<lambda>p. Some [''Date'']), write_error = (\<lambda>p. None)\<rparr>"

definition fenced_answer :: gen_outcome where
  "fenced_answer = GenText ''```python\<newline>def parse(pdf_path): pass\<newline>```''"

text \<open>
  C5: Success freezes the run: in every configuration reachable from the start, a
  completed task means the graph is at END, so no further generation or test run follows.
\<close>

theorem success_freezes:
  assumes "reach E (initial_cfg cwd bank limit f0) c" and "task_complete (st c)"
  shows "pc c = END \<and> (\<nexists>c'. cstep E c c')"
  using reach_agent_inv [OF assms(1) initial_agent_inv] assms(2)
  by (auto simp: agent_inv_def success_ok_def elim: cstepE)

theorem success_freezes_witness:
  "\<exists>c. reach (scripted (\<lambda>n. fenced_answer) (\<lambda>n. Completed 0 ''ok'' []))
          (initial_cfg ''/w'' ''icici'' 3 Map.empty) c
     \<and> task_complete (st c) \<and> pc c = END
     \<and> (\<nexists>c'. cstep (scripted (\<lambda>n. fenced_answer) (\<lambda>n. Completed 0 ''ok'' [])) c c')"
proof -
  let ?E = "scripted (\<lambda>n. fenced_answer) (\<lambda>n. Completed 0 ''ok'' [])"
  have "case run_graph 25 ?E (initial_cfg ''/w'' ''icici'' 3 Map.empty) of
          Inr c \<Rightarrow> task_complete (st c) | Inl e \<Rightarrow> False"
    by code_simp
  then obtain c where r: "run_graph 25 ?E (initial_cfg ''/w'' ''icici'' 3 Map.empty) = Inr c"
    and t: "task_complete (st c)" by (auto split: sum.splits)
  have "reach ?E (initial_cfg ''/w'' ''icici'' 3 Map.empty) c" using run_graph_reach [OF r] by simp
  with t success_freezes [of ?E] show ?thesis by blast
qed

text \<open>
  C7: The attempt counter changes only in the correction step, by exactly one.
\<close>

theorem cstep_attempt_monotone:
  "cstep E c c' \<Longrightarrow>
   attempt_count (st c') = attempt_count (st c) + (if pc c = Self_fix then 1 else 0)"
proof (induction rule: cstep_cases)
  case (generate_code c1)
  then show ?case using generate_code_node_cases [OF generate_code.hyps(2)] by simp
qed (simp_all add: node_simps)

theorem cstep_attempt_monotone_witness:
  "cstep (scripted (\<lambda>n. fenced_answer) (\<lambda>n. Completed 0 ''ok'' []))
      (\<lparr>pc = Self_fix, st = initial_state ''/w'' ''icici'' 3, fs = Map.empty, tr = []\<rparr>)
      (\<lparr>pc = Generate_code, st = self_fix_node (initial_state ''/w'' ''icici'' 3), fs = Map.empty, tr = []\<rparr>)
   \<and> attempt_count (self_fix_node (initial_state ''/w'' ''icici'' 3)) = 2"
proof -
  let ?c = "\<lparr>pc = Self_fix, st = initial_state ''/w'' ''icici'' 3, fs = Map.empty, tr = []\<rparr>"
  let ?E = "scripted (\<lambda>n. fenced_answer) (\<lambda>n. Completed 0 ''ok'' [])"
  have s: "cstep ?E ?c (\<lparr>pc = Generate_code, st = self_fix_node (initial_state ''/w'' ''icici'' 3), fs = Map.empty, tr = []\<rparr>)"
    by (rule cstep.superstep) (simp_all add: node_simps)
  show ?thesis using cstep_attempt_monotone [OF s] s by (simp add: initial_state_def)
qed

text \<open>
  C9: No-code short-circuit: a generation step that leaves no code ends the run without
  writing a file; no test run follows it.
\<close>

theorem cstep_no_code_ends:
  assumes "cstep E c c'" and "pc c = Generate_code" and "\<not> py_truthy (current_code (st c'))"
  shows "pc c' = END \<and> fs c' = fs c \<and> (\<exists>p. tr c' = tr c @ [LlmCall p])"
  using assms(1)
proof (cases rule: cstep_cases)
  case (generate_code c1)
  then show ?thesis
    using generate_code_node_cases [OF generate_code(2)] assms(3) by (auto simp: py_truthy_def)
qed (use assms(2) in simp_all)

theorem cstep_no_code_ends_witness:
  "cstep (scripted (\<lambda>n. GenText []) (\<lambda>n. Completed 0 ''ok'' []))
      \<lparr>pc = Generate_code, st = initial_state ''/w'' ''icici'' 3, fs = Map.empty, tr = []\<rparr>
      \<lparr>pc = END, st = (initial_state ''/w'' ''icici'' 3)\<lparr>test_results := Some ''Failed to generate valid Python code.''\<rparr>,
       fs = Map.empty, tr = [LlmCall (build_prompt ''icici'' None)]\<rparr>
   \<and> \<not> py_truthy (current_code ((initial_state ''/w'' ''icici'' 3)\<lparr>test_results := Some ''Failed to generate valid Python code.''\<rparr>))"
proof -
  let ?E = "scripted (\<lambda>n. GenText []) (\<lambda>n. Completed 0 ''ok'' [])"
  let ?c = "\<lparr>pc = Generate_code, st = initial_state ''/w'' ''icici'' 3, fs = Map.empty, tr = []\<rparr>"
  let ?s = "(initial_state ''/w'' ''icici'' 3)\<lparr>test_results := Some ''Failed to generate valid Python code.''\<rparr>"
  have s: "cstep ?E ?c \<lparr>pc = END, st = ?s, fs = Map.empty, tr = [LlmCall (build_prompt ''icici'' None)]\<rparr>"
    by (rule cstep.superstep)
      (simp_all add: node_simps generate_code_node_def scripted_def initial_state_def
        extract_code_def py_truthy_def fence_python_def)
  have n: "\<not> py_truthy (current_code ?s)" by (simp add: initial_state_def py_truthy_def)
  show ?thesis using cstep_no_code_ends [OF s] s n by simp
qed

text \<open>
  C10: The tests always run against the code of the same cycle: entering the test node,
  the graph has just sent one model request and written exactly the current code, which
  is not empty, to the parser file.
\<close>

theorem cstep_tests_see_current_code:
  assumes "cstep E c c'" and "pc c' = Run_tests"
  shows "\<exists>cd p. current_code (st c') = Some cd \<and> cd \<noteq> []
    \<and> fs c' (parser_path (st c')) = Some cd
    \<and> tr c' = tr c @ [LlmCall p, WriteFile (parser_path (st c')) cd]"
  using assms(1)
proof (cases rule: cstep_cases)
  case (generate_code c1)
  then show ?thesis
    using generate_code_node_cases [OF generate_code(2)] assms(2)
    by (auto simp: py_truthy_def split: if_splits)
qed (use assms(2) in \<open>simp_all add: node_simps split: if_splits\<close>)

theorem cstep_tests_see_current_code_witness:
  "\<exists>c'. cstep (scripted (\<lambda>n. fenced_answer) (\<lambda>n. Completed 0 ''ok'' []))
          \<lparr>pc = Generate_code, st = initial_state ''/w'' ''icici'' 3, fs = Map.empty, tr = []\<rparr> c'
     \<and> pc c' = Run_tests
     \<and> (\<exists>cd p. current_code (st c') = Some cd \<and> cd \<noteq> []
        \<and> fs c' (parser_path (st c')) = Some cd
        \<and> tr c' = [] @ [LlmCall p, WriteFile (parser_path (st c')) cd])"
proof -
  let ?E = "scripted (\<lambda>n. fenced_answer) (\<lambda>n. Completed 0 ''ok'' [])"
  let ?c = "\<lparr>pc = Generate_code, st = initial_state ''/w'' ''icici'' 3, fs = Map.empty, tr = []\<rparr>"
  have "case step ?E ?c of Inr c' \<Rightarrow> pc c' = Run_tests | Inl e \<Rightarrow> False"
    by code_simp
  then obtain c' where s: "step ?E ?c = Inr c'" and p: "pc c' = Run_tests"
    by (auto split: sum.splits)
  have cs: "cstep ?E ?c c'" by (rule cstep.superstep) (simp_all add: s)
  show ?thesis using cstep_tests_see_current_code [OF cs p] cs p by auto
qed

text \<open>
  C4: A reported success is a passed test: when \<open>run\<close> reports the parser path, that
  path is the parser file of the target, the last event of the run is a test run with
  exit code 0, and it is the outcome of pytest on the files as the run left them.
\<close>

theorem run_success_means_tests_passed:
  assumes "run E cwd bank limit f0 = Inr (Succeeded p, c)"
  shows "p = cwd @ ''/custom_parsers/'' @ bank @ ''_parser.py''
    \<and> (\<exists>pre out err. tr c = pre @ [TestRun (Completed 0 out err)]
         \<and> pytest E (test_runs pre) (fs c) = Completed 0 out err)"
proof -
  from run_final [OF assms] have inv: "agent_inv E (initial_cfg cwd bank limit f0) c"
    and rep: "Succeeded p = final_report (st c)" by auto
  from rep have "task_complete (st c)" and "p = parser_path (st c)"
    by (auto simp: final_report_def split: if_splits)
  with inv show ?thesis
    by (auto simp: agent_inv_def success_ok_def same_setup_def initial_cfg_def initial_state_def)
qed

theorem run_success_means_tests_passed_witness:
  "\<exists>p c. run (scripted (\<lambda>n. fenced_answer) (\<lambda>n. Completed 0 ''ok'' [])) ''/w'' ''icici'' 3 Map.empty
      = Inr (Succeeded p, c)
    \<and> p = ''/w'' @ ''/custom_parsers/'' @ ''icici'' @ ''_parser.py''
    \<and> (\<exists>pre out err. tr c = pre @ [TestRun (Completed 0 out err)]
         \<and> pytest (scripted (\<lambda>n. fenced_answer) (\<lambda>n. Completed 0 ''ok'' [])) (test_runs pre) (fs c)
           = Completed 0 out err)"
proof -
  let ?E = "scripted (\<lambda>n. fenced_answer) (\<lambda>n. Completed 0 ''ok'' [])"
  have "case run ?E ''/w'' ''icici'' 3 Map.empty of Inr (Succeeded p, c) \<Rightarrow> True | _ \<Rightarrow> False"
    by code_simp
  then obtain p c where r: "run ?E ''/w'' ''icici'' 3 Map.empty = Inr (Succeeded p, c)"
    by (auto split: sum.splits prod.splits report.splits)
  show ?thesis using run_success_means_tests_passed [OF r] r by blast
qed

text \<open>
  C6: The attempt counter of a finished run lies between 1 and the larger of 1 and
  \<open>max_attempts\<close>, and equals the number of model requests the run made.
\<close>

theorem run_attempts_counted:
  assumes "run E cwd bank limit f0 = Inr (rep, c)"
  shows "1 \<le> attempt_count (st c) \<and> attempt_count (st c) \<le> max 1 limit
    \<and> int (llm_calls (tr c)) = attempt_count (st c)"
proof -
  from run_final [OF assms] have inv: "agent_inv E (initial_cfg cwd bank limit f0) c"
    and "pc c = END" by auto
  then show ?thesis
    by (auto simp: agent_inv_def attempts_ok_def calls_ok_def same_setup_def
        initial_cfg_def initial_state_def)
qed

theorem run_attempts_counted_witness:
  "\<exists>rep c. run (scripted (\<lambda>n. fenced_answer) (\<lambda>n. Completed 1 ''F'' [])) ''/w'' ''icici'' 2 Map.empty
      = Inr (rep, c)
    \<and> 1 \<le> attempt_count (st c) \<and> attempt_count (st c) \<le> max 1 2
    \<and> int (llm_calls (tr c)) = attempt_count (st c)"
proof -
  let ?E = "scripted (\<lambda>n. fenced_answer) (\<lambda>n. Completed 1 ''F'' [])"
  have "case run ?E ''/w'' ''icici'' 2 Map.empty of Inr (rep, c) \<Rightarrow> True | _ \<Rightarrow> False"
    by code_simp
  then obtain rep c where r: "run ?E ''/w'' ''icici'' 2 Map.empty = Inr (rep, c)"
    by (auto split: sum.splits prod.splits)
  show ?thesis using run_attempts_counted [OF r] r by blast
qed

text \<open>
  C8: The trace of a finished run follows the protocol of the graph: it is not empty, and
  it is a sequence of cycles, each a model request, then optionally the write of the
  parser file and a test run (the automaton \<open>trace_dfa\<close> accepts it).
\<close>

theorem run_trace_protocol:
  assumes "run E cwd bank limit f0 = Inr (rep, c)"
  shows "tr c \<noteq> [] \<and> (trace_dfa Q0 (tr c) = Some Q0 \<or> trace_dfa Q0 (tr c) = Some Q1)"
  using run_final [OF assms] by (auto simp: agent_inv_def protocol_at_def)

theorem run_trace_protocol_witness:
  "\<exists>rep c. run (scripted (\<lambda>n. if n = 0 then GenText [] else fenced_answer) (\<lambda>n. Completed 0 ''ok'' []))
      ''/w'' ''icici'' 3 Map.empty = Inr (rep, c)
    \<and> tr c \<noteq> [] \<and> (trace_dfa Q0 (tr c) = Some Q0 \<or> trace_dfa Q0 (tr c) = Some Q1)"
proof -
  let ?E = "scripted (\<lambda>n. if n = 0 then GenText [] else fenced_answer) (\<lambda>n. Completed 0 ''ok'' [])"
  have "case run ?E ''/w'' ''icici'' 3 Map.empty of Inr (rep, c) \<Rightarrow> True | _ \<Rightarrow> False"
    by code_simp
  then obtain rep c where r: "run ?E ''/w'' ''icici'' 3 Map.empty = Inr (rep, c)"
    by (auto split: sum.splits prod.splits)
  show ?thesis using run_trace_protocol [OF r] r by blast
qed

text \<open>
  C11: A missing sample CSV aborts the run: \<open>pd.read_csv\<close> is called before the
  \<open>try\<close> block of the generation node, so its error leaves the graph and \<open>run\<close>, with
  no model request made.
\<close>

theorem run_missing_csv:
  assumes "csv_columns E (cwd @ ''/data/'' @ bank @ ''/'' @ bank @ ''_sample.csv'') = None"
  shows "run E cwd bank limit f0 = Inl (CsvReadError (cwd @ ''/data/'' @ bank @ ''/'' @ bank @ ''_sample.csv''))"
  using assms
  by (simp add: run_def recursion_limit_def numeral_eq_Suc initial_cfg_def node_simps
      generate_code_node_def initial_state_def plan_node_def)

theorem run_missing_csv_witness:
  "csv_columns \<lparr>llm = (\<lambda>n p. fenced_answer), pytest = (\<lambda>n f. Completed 0 [] []), csv_columns = (\<lambda>p. None), write_error = (\<lambda>p. None)\<rparr>
      (''/w'' @ ''/data/'' @ ''hdfc'' @ ''/'' @ ''hdfc'' @ ''_sample.csv'') = None
   \<and> run \<lparr>llm = (\<lambda>n p. fenced_answer), pytest = (\<lambda>n f. Completed 0 [] []), csv_columns = (\<lambda>p. None), write_error = (\<lambda>p. None)\<rparr>
      ''/w'' ''hdfc'' 3 Map.empty = Inl (CsvReadError (''/w'' @ ''/data/'' @ ''hdfc'' @ ''/'' @ ''hdfc'' @ ''_sample.csv''))"
  using run_missing_csv [of "\<lparr>llm = (\<lambda>n p. fenced_answer), pytest = (\<lambda>n f. Completed 0 [] []), csv_columns = (\<lambda>p. None), write_error = (\<lambda>p. None)\<rparr>"
      "''/w''" "''hdfc''" 3 Map.empty]
  by simp

end
