(* ===== verification/ControlSpec.thy ===== *)
theory ControlSpec
  imports Main
begin

text \<open>
  The abstract controller that spec.md (section 4.5) promises: phases Planning,
  Generating, Testing, Fixing and Terminated over the attempt counter, the attempt limit
  and the completion flag. Which of the two transitions out of Generating is taken (code
  extracted or not) and whether verification succeeded are choices of the environment,
  so the machine is a relation. Proved here: an invariant of the reachable states (the
  attempt stays between 1 and the larger of 1 and the limit, Fixing is entered only below
  the limit, completion only in Terminated), a measure that every step decreases, hence a
  bound on the length of every run, and that Terminated is the only state without a step.
  This theory is the specification; Spec2Isabelle proves that the agent's graph refines it.
\<close>

datatype phase = Planning | Generating | Testing | Fixing | Terminated

record ctl =
  phase :: phase
  attempt :: int
  attempt_limit :: int
  completed :: bool

inductive ctl_step :: "ctl \<Rightarrow> ctl \<Rightarrow> bool" where
  plan: "phase a = Planning \<Longrightarrow> ctl_step a (a\<lparr>phase := Generating\<rparr>)"
| code_extracted: "phase a = Generating \<Longrightarrow> ctl_step a (a\<lparr>phase := Testing\<rparr>)"
| no_code: "phase a = Generating \<Longrightarrow> ctl_step a (a\<lparr>phase := Terminated\<rparr>)"
| verified: "phase a = Testing \<Longrightarrow> ctl_step a (a\<lparr>phase := Terminated, completed := True\<rparr>)"
| exhausted: "phase a = Testing \<Longrightarrow> attempt_limit a \<le> attempt a \<Longrightarrow>
    ctl_step a (a\<lparr>phase := Terminated, completed := False\<rparr>)"
| retry: "phase a = Testing \<Longrightarrow> attempt a < attempt_limit a \<Longrightarrow>
    ctl_step a (a\<lparr>phase := Fixing, completed := False\<rparr>)"
| correct: "phase a = Fixing \<Longrightarrow> ctl_step a (a\<lparr>phase := Generating, attempt := attempt a + 1\<rparr>)"

inductive_cases ctl_step_from: "ctl_step a b"

definition ctl_init :: "int \<Rightarrow> ctl" where
  "ctl_init l = \<lparr>phase = Planning, attempt = 1, attempt_limit = l, completed = False\<rparr>"

inductive ctl_reach :: "ctl \<Rightarrow> ctl \<Rightarrow> bool" for a0 :: ctl where
  refl: "ctl_reach a0 a0"
| extend: "ctl_reach a0 a \<Longrightarrow> ctl_step a b \<Longrightarrow> ctl_reach a0 b"

definition ctl_inv :: "ctl \<Rightarrow> bool" where
  "ctl_inv a \<longleftrightarrow>
     1 \<le> attempt a \<and> attempt a \<le> max 1 (attempt_limit a)
     \<and> (phase a = Fixing \<longrightarrow> attempt a < attempt_limit a)
     \<and> (completed a \<longrightarrow> phase a = Terminated)"

lemma ctl_step_inv: "ctl_step a b \<Longrightarrow> ctl_inv a \<Longrightarrow> ctl_inv b"
  by (induction rule: ctl_step.induct) (auto simp: ctl_inv_def)

lemma ctl_reach_inv: "ctl_reach (ctl_init l) a \<Longrightarrow> ctl_inv a"
proof (induction rule: ctl_reach.induct)
  case refl
  show ?case by (simp add: ctl_inv_def ctl_init_def)
next
  case (extend a b)
  then show ?case by (blast intro: ctl_step_inv)
qed

text \<open>
  The measure: three steps per attempt still available, plus the distance of the phase
  to Terminated within the cycle.
\<close>

fun phase_rank :: "phase \<Rightarrow> nat" where
  "phase_rank Terminated = 0"
| "phase_rank Fixing = 1"
| "phase_rank Testing = 2"
| "phase_rank Generating = 3"
| "phase_rank Planning = 4"

definition ctl_measure :: "ctl \<Rightarrow> nat" where
  "ctl_measure a = 3 * nat (attempt_limit a - attempt a) + phase_rank (phase a)"

lemma ctl_step_measure: "ctl_step a b \<Longrightarrow> ctl_inv a \<Longrightarrow> ctl_measure b < ctl_measure a"
proof (induction rule: ctl_step.induct)
  case (correct a)
  then have "attempt a < attempt_limit a" by (simp add: ctl_inv_def)
  with correct show ?case by (simp add: ctl_measure_def nat_diff_distrib')
qed (simp_all add: ctl_measure_def)

lemma ctl_measure_init: "ctl_measure (ctl_init l) = 3 * nat (l - 1) + 4"
  by (simp add: ctl_measure_def ctl_init_def)

text \<open>Terminated is the only phase without a step.\<close>

lemma ctl_stuck_iff: "(\<nexists>b. ctl_step a b) \<longleftrightarrow> phase a = Terminated"
proof
  assume "\<nexists>b. ctl_step a b"
  then show "phase a = Terminated"
    by (cases "phase a") (auto intro: ctl_step.intros)
next
  assume "phase a = Terminated"
  then show "\<nexists>b. ctl_step a b" by (auto elim: ctl_step_from)
qed

end
