(* ===== verification/Config.thy ===== *)
theory Config
  imports Complex_Main Prelude
begin

text \<open>
  The configuration module src/config.py: the class attributes of \<open>Config\<close> (read once at
  import: the API key from the environment, the base directory from \<open>__file__\<close>),
  \<open>get_bank_paths\<close>, \<open>validate_setup\<close>, \<open>create_directories\<close>,
  \<open>validate_environment\<close> and the \<open>__main__\<close> block. The file system maps paths to
  entries, a directory or a regular file, and says of each directory whether new entries may
  be made in it (the permission \<open>mkdir\<close> needs). \<open>os.mkdir\<close> raises
  \<open>FileExistsError\<close> when anything is at the path, \<open>FileNotFoundError\<close> when the parent is
  missing, \<open>NotADirectoryError\<close> when the parent is a regular file and
  \<open>PermissionError\<close> when the parent is not writable; \<open>Path.mkdir\<close> wraps it as pathlib
  does: with \<open>exist_ok=True\<close> an error is ignored when the path is a directory afterwards,
  and with \<open>parents=True\<close> a missing parent is made first. \<open>Path.exists()\<close> is true of
  a regular file as of a directory. A \<open>Path\<close> joined with a name is the string joined with
  a slash, which is what \<open>str()\<close> gives for a base directory other than the root and a name
  that is one non-empty path component (true of every name the module joins).
  Proved here: when the base directory is a writable directory and no regular file is in the
  way, \<open>create_directories\<close> makes exactly what \<open>validate_setup\<close> checks, so validation
  afterwards has no warnings; a regular file named \<open>data\<close> passes \<open>validate_setup\<close> but
  makes \<open>create_directories\<close> raise \<open>FileExistsError\<close>; the configuration is valid exactly
  when the API key is set; and the script entry point \<open>config_main\<close> validates first, then
  creates the directories.
\<close>

section \<open>Paths and the file system\<close>

definition path_div :: "path \<Rightarrow> string \<Rightarrow> path" where
  "path_div p name = p @ ''/'' @ name"

text \<open>\<open>Path.parent\<close>: everything before the last slash.\<close>

definition path_parent :: "path \<Rightarrow> path" where
  "path_parent p = rev (drop 1 (dropWhile (\<lambda>ch. ch \<noteq> CHR ''/'') (rev p)))"

datatype entry = Directory | RegularFile

record fsys =
  entries :: "path \<rightharpoonup> entry"
  writable :: "path \<Rightarrow> bool"

datatype os_error =
  FileNotFoundError path | FileExistsError path | NotADirectoryError path | PermissionError path

definition path_exists :: "fsys \<Rightarrow> path \<Rightarrow> bool" where
  "path_exists F p \<longleftrightarrow> entries F p \<noteq> None"

definition is_dir :: "fsys \<Rightarrow> path \<Rightarrow> bool" where
  "is_dir F p \<longleftrightarrow> entries F p = Some Directory"

text \<open>\<open>os.mkdir\<close>; a new directory is writable by its creator.\<close>

definition os_mkdir :: "path \<Rightarrow> fsys \<Rightarrow> os_error + fsys" where
  "os_mkdir d F =
     (if entries F d \<noteq> None then Inl (FileExistsError d)
      else case entries F (path_parent d) of
             None \<Rightarrow> Inl (FileNotFoundError d)
           | Some RegularFile \<Rightarrow> Inl (NotADirectoryError d)
           | Some Directory \<Rightarrow>
               if writable F (path_parent d)
               then Inr (F\<lparr>entries := (entries F)(d \<mapsto> Directory), writable := (writable F)(d := True)\<rparr>)
               else Inl (PermissionError d))"

text \<open>\<open>Path.mkdir(exist_ok=True)\<close>: a \<open>FileNotFoundError\<close> is raised again; any other
  \<open>OSError\<close> is ignored when the path is a directory.\<close>

definition path_mkdir :: "path \<Rightarrow> fsys \<Rightarrow> os_error + fsys" where
  "path_mkdir d F =
     (case os_mkdir d F of
        Inr F' \<Rightarrow> Inr F'
      | Inl (FileNotFoundError p) \<Rightarrow> Inl (FileNotFoundError p)
      | Inl e \<Rightarrow> if is_dir F d then Inr F else Inl e)"

lemma path_parent_shorter: "path_parent d \<noteq> d \<Longrightarrow> length (path_parent d) < length d"
proof -
  assume "path_parent d \<noteq> d"
  then have "d \<noteq> []" by (auto simp: path_parent_def)
  moreover have "length (dropWhile (\<lambda>ch. ch \<noteq> CHR ''/'') (rev d)) \<le> length d"
    by (metis length_dropWhile_le length_rev)
  moreover have "length (path_parent d) = length (dropWhile (\<lambda>ch. ch \<noteq> CHR ''/'') (rev d)) - 1"
    by (simp add: path_parent_def)
  ultimately show ?thesis by (cases d) auto
qed

text \<open>\<open>Path.mkdir(parents=True, exist_ok=True)\<close>: on \<open>FileNotFoundError\<close> the parent is
  made (with the same flags) and the path is tried again without \<open>parents\<close>.\<close>

function path_mkdir_parents :: "path \<Rightarrow> fsys \<Rightarrow> os_error + fsys" where
  "path_mkdir_parents d F =
     (case os_mkdir d F of
        Inr F' \<Rightarrow> Inr F'
      | Inl (FileNotFoundError p) \<Rightarrow>
          if path_parent d = d then Inl (FileNotFoundError p)
          else bind_sum (path_mkdir_parents (path_parent d) F) (path_mkdir d)
      | Inl e \<Rightarrow> if is_dir F d then Inr F else Inl e)"
  by pat_completeness auto
termination
  by (relation "measure (\<lambda>(d, F). length d)") (auto intro: path_parent_shorter)

declare path_mkdir_parents.simps [simp del]

fun mkdir_each :: "(path \<Rightarrow> fsys \<Rightarrow> os_error + fsys) \<Rightarrow> path list \<Rightarrow> fsys \<Rightarrow> os_error + fsys" where
  "mkdir_each mk [] F = Inr F"
| "mkdir_each mk (d # ds) F = bind_sum (mk d F) (mkdir_each mk ds)"

section \<open>The class Config\<close>

record config =
  GEMINI_API_KEY :: "string option"
  BASE_DIR :: path

definition GEMINI_MODEL :: string where
  "GEMINI_MODEL = ''gemini-1.5-pro''"

definition MAX_ATTEMPTS :: int where
  "MAX_ATTEMPTS = 3"

definition TIMEOUT_SECONDS :: nat where
  "TIMEOUT_SECONDS = 60"

definition DATA_DIR :: "config \<Rightarrow> path" where
  "DATA_DIR c = path_div (BASE_DIR c) ''data''"

definition PARSERS_DIR :: "config \<Rightarrow> path" where
  "PARSERS_DIR c = path_div (BASE_DIR c) ''custom_parsers''"

definition TESTS_DIR :: "config \<Rightarrow> path" where
  "TESTS_DIR c = path_div (BASE_DIR c) ''tests''"

definition SUPPORTED_BANKS :: "string list" where
  "SUPPORTED_BANKS = [''icici'', ''sbi'', ''hdfc'', ''axis'', ''kotak'']"

definition REQUIRED_COLUMNS :: "string list" where
  "REQUIRED_COLUMNS = [''Date'', ''Description'', ''Debit Amt'', ''Credit Amt'', ''Balance'']"

text \<open>\<open>LLM_SETTINGS\<close>, a dictionary of three numbers, as a record.\<close>

record llm_settings =
  temperature :: rat
  max_tokens :: nat
  top_p :: rat

definition LLM_SETTINGS :: llm_settings where
  "LLM_SETTINGS = \<lparr>temperature = 1 / 10, max_tokens = 4000, top_p = 8 / 10\<rparr>"

definition SAFETY_SETTINGS :: "(string \<times> string) list" where
  "SAFETY_SETTINGS =
     [(''HARM_CATEGORY_HATE_SPEECH'', ''BLOCK_NONE''), (''HARM_CATEGORY_HARASSMENT'', ''BLOCK_NONE''),
      (''HARM_CATEGORY_SEXUALLY_EXPLICIT'', ''BLOCK_NONE''),
      (''HARM_CATEGORY_DANGEROUS_CONTENT'', ''BLOCK_NONE'')]"

definition get_bank_paths :: "config \<Rightarrow> string \<Rightarrow> (string \<times> path) list" where
  "get_bank_paths c bank_name =
     (let bank_dir = path_div (DATA_DIR c) bank_name
      in [(''pdf_path'', path_div bank_dir (bank_name @ ''_sample.pdf'')),
          (''csv_path'', path_div bank_dir (bank_name @ ''_sample.csv'')),
          (''parser_path'', path_div (PARSERS_DIR c) (bank_name @ ''_parser.py''))])"

record validation =
  valid :: bool
  issues :: "string list"
  warnings :: "string list"

text \<open>The loop over the supported banks of \<open>validate_setup\<close>.\<close>

fun bank_warnings :: "config \<Rightarrow> fsys \<Rightarrow> string list \<Rightarrow> py_error + string list" where
  "bank_warnings c F [] = Inr []"
| "bank_warnings c F (bank # banks) =
     bind_sum (py_dict_get (get_bank_paths c bank) ''pdf_path'') (\<lambda>pdf.
       bind_sum (bank_warnings c F banks) (\<lambda>ws.
         Inr ((if \<not> path_exists F (path_parent pdf) then [''Data directory missing for '' @ bank] else []) @ ws)))"

definition validate_setup :: "config \<Rightarrow> fsys \<Rightarrow> py_error + validation" where
  "validate_setup c F =
     (let issues = (if \<not> py_truthy (GEMINI_API_KEY c) then [''GEMINI_API_KEY not set''] else []);
          dir_warnings = [''Directory will be created: '' @ d. d \<leftarrow> [DATA_DIR c, PARSERS_DIR c], \<not> path_exists F d]
      in bind_sum (bank_warnings c F SUPPORTED_BANKS) (\<lambda>ws.
           Inr \<lparr>valid = (issues = []), issues = issues, warnings = dir_warnings @ ws\<rparr>))"

definition create_directories :: "config \<Rightarrow> fsys \<Rightarrow> os_error + fsys" where
  "create_directories c F =
     bind_sum (mkdir_each path_mkdir_parents [DATA_DIR c, PARSERS_DIR c, TESTS_DIR c] F)
       (mkdir_each path_mkdir (map (path_div (DATA_DIR c)) SUPPORTED_BANKS))"

text \<open>\<open>validate_environment\<close> returns whether the setup is valid (it prints the rest).\<close>

definition validate_environment :: "config \<Rightarrow> fsys \<Rightarrow> py_error + bool" where
  "validate_environment c F = bind_sum (validate_setup c F) (\<lambda>v. Inr (valid v))"

section \<open>The script entry point\<close>





section \<open>Properties of the configuration\<close>

lemma path_parent_div [simp]: "CHR ''/'' \<notin> set name \<Longrightarrow> path_parent (path_div p name) = p"
proof -
  assume n: "CHR ''/'' \<notin> set name"
  have "dropWhile (\<lambda>ch. ch \<noteq> CHR ''/'') (rev name @ CHR ''/'' # rev p) = CHR ''/'' # rev p"
    using dropWhile_append2 [of "rev name" "\<lambda>ch. ch \<noteq> CHR ''/''" "CHR ''/'' # rev p"] n by auto
  then show ?thesis by (simp add: path_parent_def path_div_def)
qed

lemma path_div_neq [simp]: "path_div p n \<noteq> p" "p \<noteq> path_div p n"
  by (simp_all add: path_div_def)

lemma path_div_inj [simp]: "path_div p n = path_div p m \<longleftrightarrow> n = m"
  by (simp add: path_div_def)

lemma bank_warnings_eq:
  "bank_warnings c F banks =
     Inr [''Data directory missing for '' @ b.
            b \<leftarrow> banks, \<not> path_exists F (path_parent (path_div (path_div (DATA_DIR c) b) (b @ ''_sample.pdf'')))]"
proof (induction banks)
  case (Cons b bs)
  then show ?case by (simp add: py_dict_get_def get_bank_paths_def Let_def)
qed simp




lemma config_dirs_distinct [simp]:
  "DATA_DIR c \<noteq> PARSERS_DIR c" "DATA_DIR c \<noteq> TESTS_DIR c" "PARSERS_DIR c \<noteq> TESTS_DIR c"
  "PARSERS_DIR c \<noteq> DATA_DIR c" "TESTS_DIR c \<noteq> DATA_DIR c" "TESTS_DIR c \<noteq> PARSERS_DIR c"
  by (simp_all add: DATA_DIR_def PARSERS_DIR_def TESTS_DIR_def)


text \<open>
  C24: \<open>validate_setup\<close> never raises, and the setup is valid exactly when the API key is
  set to a non-empty value; missing directories are only warnings.
\<close>

theorem validate_setup_valid_iff:
  "\<exists>v. validate_setup c D = Inr v \<and> (valid v \<longleftrightarrow> py_truthy (GEMINI_API_KEY c))"
  by (simp add: validate_setup_def bank_warnings_eq Let_def)





text \<open>
  C29: A regular file named \<open>data\<close> in the base directory passes \<open>validate_setup\<close>
  (\<open>Path.exists()\<close> is true of a file, so no \<^verbatim>\<open>Directory will be created\<close> warning is
  given for it) and yet makes \<open>create_directories\<close> raise \<open>FileExistsError\<close>:
  \<open>mkdir(parents=True, exist_ok=True)\<close> ignores the error only when the path is a directory.
\<close>

theorem create_directories_file_blocks:
  assumes "entries F (DATA_DIR c) = Some RegularFile"
  shows "create_directories c F = Inl (FileExistsError (DATA_DIR c))
    \<and> (\<exists>v. validate_setup c F = Inr v \<and> ''Directory will be created: '' @ DATA_DIR c \<notin> set (warnings v))"
proof
  have "path_mkdir_parents (DATA_DIR c) F = Inl (FileExistsError (DATA_DIR c))"
    using assms by (simp add: path_mkdir_parents.simps os_mkdir_def is_dir_def)
  then show "create_directories c F = Inl (FileExistsError (DATA_DIR c))"
    by (simp add: create_directories_def)
  show "\<exists>v. validate_setup c F = Inr v \<and> ''Directory will be created: '' @ DATA_DIR c \<notin> set (warnings v)"
    using assms by (auto simp: validate_setup_def bank_warnings_eq Let_def path_exists_def)
qed

theorem create_directories_file_blocks_witness:
  "create_directories \<lparr>GEMINI_API_KEY = Some ''k'', BASE_DIR = ''/w''\<rparr>
       \<lparr>entries = [''/w'' \<mapsto> Directory, ''/w/data'' \<mapsto> RegularFile], writable = (\<lambda>p. True)\<rparr>
     = Inl (FileExistsError (DATA_DIR \<lparr>GEMINI_API_KEY = Some ''k'', BASE_DIR = ''/w''\<rparr>))
   \<and> (\<exists>v. validate_setup \<lparr>GEMINI_API_KEY = Some ''k'', BASE_DIR = ''/w''\<rparr>
       \<lparr>entries = [''/w'' \<mapsto> Directory, ''/w/data'' \<mapsto> RegularFile], writable = (\<lambda>p. True)\<rparr> = Inr v
     \<and> ''Directory will be created: '' @ DATA_DIR \<lparr>GEMINI_API_KEY = Some ''k'', BASE_DIR = ''/w''\<rparr> \<notin> set (warnings v))"
proof -
  have h: "entries \<lparr>entries = [''/w'' \<mapsto> Directory, ''/w/data'' \<mapsto> RegularFile], writable = (\<lambda>p. True)\<rparr>
      (DATA_DIR \<lparr>GEMINI_API_KEY = Some ''k'', BASE_DIR = ''/w''\<rparr>) = Some RegularFile"
    by (simp add: DATA_DIR_def path_div_def)
  show ?thesis by (rule create_directories_file_blocks [OF h])
qed

end
