(* ===== verification/PyFloat.thy ===== *)
theory PyFloat
  imports Complex_Main "HOL-Library.Log_Nat" PyStr
begin

text \<open>
  The Python builtin \<open>float(s)\<close> on a string, as the ICICI parser calls it: white space
  around the literal is stripped, an optional sign is followed by \<^verbatim>\<open>inf\<close>,
  \<^verbatim>\<open>infinity\<close> or \<^verbatim>\<open>nan\<close> (in any case) or by a decimal literal of Python's grammar
  (digit groups joined by single underscores, an optional point, an optional exponent);
  anything else raises \<open>ValueError\<close>. The exact rational number a finite literal denotes
  is rounded as CPython does it (correctly rounded, \<open>_Py_dg_strtod\<close>): to the nearest IEEE
  754 binary64 value, ties to even, with subnormals below \<open>2^-1022\<close> and overflow to an
  infinity once the rounded magnitude reaches \<open>2^1024\<close>. A float is kept as its value, so
  \<open>-0.0\<close> and \<open>0.0\<close> are one value (they compare equal in Python and in pandas).
  \<open>str(n)\<close> for a natural number is \<open>show_nat\<close>.
  Proved here: the digits of \<open>show_nat n\<close> read back as \<open>n\<close>; the rounding error is at
  most half a unit in the last place; magnitudes from \<open>2^1024\<close> overflow; amounts in paise
  below \<open>10^15\<close> round to pairwise distinct floats.
\<close>

datatype pyfloat = Fin rat | PosInf | NegInf | NaN

section \<open>Rounding to binary64\<close>

text \<open>\<open>ilog2 q\<close> is \<open>\<lfloor>log2 q\<rfloor>\<close> for \<open>q > 0\<close>, from the bit lengths of numerator and denominator.\<close>

definition ilog2 :: "rat \<Rightarrow> int" where
  "ilog2 q = (let (a, b) = quotient_of q; k = int (floorlog 2 (nat a)) - int (floorlog 2 (nat b))
              in if q < 2 powi k then k - 1 else k)"

definition round_half_even :: "rat \<Rightarrow> int" where
  "round_half_even x =
     (let f = \<lfloor>x\<rfloor>; d = x - of_int f
      in if d < 1 / 2 then f else if 1 / 2 < d then f + 1 else if even f then f else f + 1)"

text \<open>The weight of the last of the 53 significand bits of a binary64 number of magnitude \<open>a\<close>
  (fixed at \<open>2^-1074\<close> in the subnormal range).\<close>

definition binary64_quantum :: "rat \<Rightarrow> int" where
  "binary64_quantum a = max (ilog2 a) (- 1022) - 52"

definition to_binary64 :: "rat \<Rightarrow> pyfloat" where
  "to_binary64 q =
     (if q = 0 then Fin 0
      else let a = \<bar>q\<bar>; e = binary64_quantum a;
               v = of_int (round_half_even (a / 2 powi e)) * 2 powi e
           in if 2 ^ 1024 \<le> v then (if q < 0 then NegInf else PosInf) else Fin (sgn q * v))"

section \<open>The builtin\<close>

definition is_dec_digit :: "char \<Rightarrow> bool" where
  "is_dec_digit c \<longleftrightarrow> (48 :: nat) \<le> of_char c \<and> of_char c \<le> (57 :: nat)"

definition digit_value :: "char \<Rightarrow> nat" where
  "digit_value c = of_char c - 48"

definition digits_nat :: "string \<Rightarrow> nat" where
  "digits_nat ds = foldl (\<lambda>n c. 10 * n + digit_value c) 0 ds"

text \<open>\<open>digitpart\<close> of the grammar: digits, with single underscores between two digits.\<close>

definition digitpart :: "string \<Rightarrow> bool" where
  "digitpart s \<longleftrightarrow> s \<noteq> [] \<and> is_dec_digit (hd s) \<and> is_dec_digit (last s)
     \<and> list_all (\<lambda>c. is_dec_digit c \<or> c = CHR ''_'') s \<and> \<not> sublist ''__'' s"

definition ascii_lower :: "char \<Rightarrow> char" where
  "ascii_lower c = (if (65 :: nat) \<le> of_char c \<and> of_char c \<le> (90 :: nat) then char_of (of_char c + (32 :: nat)) else c)"

text \<open>The text before the first character with property \<open>P\<close>, and the text after it if there is one.\<close>

fun split_first :: "(char \<Rightarrow> bool) \<Rightarrow> string \<Rightarrow> string \<times> string option" where
  "split_first P [] = ([], None)"
| "split_first P (c # cs) =
     (if P c then ([], Some cs) else (case split_first P cs of (a, b) \<Rightarrow> (c # a, b)))"

definition digits_of :: "string \<Rightarrow> string" where
  "digits_of s = filter is_dec_digit s"

definition float_mantissa :: "string \<Rightarrow> rat option" where
  "float_mantissa m =
     (case split_first (\<lambda>c. c = CHR ''.'') m of
        (ip, None) \<Rightarrow> if digitpart ip then Some (of_nat (digits_nat (digits_of ip))) else None
      | (ip, Some fp) \<Rightarrow>
          if (ip = [] \<or> digitpart ip) \<and> (fp = [] \<or> digitpart fp) \<and> (ip \<noteq> [] \<or> fp \<noteq> [])
          then Some (of_nat (digits_nat (digits_of (ip @ fp))) / 10 ^ length (digits_of fp))
          else None)"

definition float_exponent :: "string \<Rightarrow> int option" where
  "float_exponent e =
     (case e of
        [] \<Rightarrow> None
      | c # r \<Rightarrow>
          if c = CHR ''+'' then (if digitpart r then Some (int (digits_nat (digits_of r))) else None)
          else if c = CHR ''-'' then (if digitpart r then Some (- int (digits_nat (digits_of r))) else None)
          else if digitpart e then Some (int (digits_nat (digits_of e))) else None)"

definition float_number :: "string \<Rightarrow> rat option" where
  "float_number s =
     (case split_first (\<lambda>c. c = CHR ''e'' \<or> c = CHR ''E'') s of
        (m, None) \<Rightarrow> float_mantissa m
      | (m, Some e) \<Rightarrow>
          (case (float_mantissa m, float_exponent e) of
             (Some q, Some x) \<Rightarrow> Some (q * (if 0 \<le> x then 10 ^ nat x else 1 / 10 ^ nat (- x)))
           | _ \<Rightarrow> None))"

definition py_float :: "string \<Rightarrow> py_error + pyfloat" where
  "py_float s =
     (let t = py_strip s;
          (neg, body) = (case t of
                           [] \<Rightarrow> (False, [])
                         | c # r \<Rightarrow> if c = CHR ''-'' then (True, r)
                                   else if c = CHR ''+'' then (False, r) else (False, t));
          low = map ascii_lower body
      in if low = ''inf'' \<or> low = ''infinity'' then Inr (if neg then NegInf else PosInf)
         else if low = ''nan'' then Inr NaN
         else case float_number body of
                None \<Rightarrow> Inl (ValueError (''could not convert string to float: '' @ [CHR 0x27] @ s @ [CHR 0x27]))
              | Some q \<Rightarrow> Inr (to_binary64 (if neg then - q else q)))"

section \<open>Decimal digits of natural numbers\<close>

definition digit_char :: "nat \<Rightarrow> char" where
  "digit_char d = char_of (48 + d)"

fun show_nat :: "nat \<Rightarrow> string" where
  "show_nat n = (if n < 10 then [digit_char n] else show_nat (n div 10) @ [digit_char (n mod 10)])"

declare show_nat.simps [simp del]

section \<open>Properties of the rounding\<close>

lemma floorlog2_bounds:
  assumes "0 < n"
  shows "(2::rat) powi (int (floorlog 2 n) - 1) \<le> of_nat n \<and> of_nat n < (2::rat) powi int (floorlog 2 n)"
proof -
  have "floorlog 2 n \<noteq> 0" using assms by (simp add: floorlog_eq_zero_iff)
  then have f: "0 < floorlog 2 n" by simp
  have "2 ^ (floorlog 2 n - 1) \<le> n" "n < 2 ^ floorlog 2 n" using floorlog_bounds [OF assms] by simp_all
  then have "(of_nat (2 ^ (floorlog 2 n - 1)) :: rat) \<le> of_nat n" "of_nat n < (of_nat (2 ^ floorlog 2 n) :: rat)"
    by (simp_all only: of_nat_le_iff of_nat_less_iff)
  then have "(2::rat) ^ (floorlog 2 n - 1) \<le> of_nat n \<and> of_nat n < (2::rat) ^ floorlog 2 n"
    by simp
  moreover have e: "int (floorlog 2 n) - 1 = int (floorlog 2 n - 1)" using f by simp
  ultimately show ?thesis unfolding e power_int_of_nat by blast
qed

lemma ilog2_bounds:
  assumes "0 < q"
  shows "2 powi ilog2 q \<le> q \<and> q < 2 powi (ilog2 q + 1)"
proof -
  obtain a b where ab: "quotient_of q = (a, b)" by (cases "quotient_of q")
  have q: "q = of_int a / of_int b" and b: "0 < b" using ab quotient_of_denom_pos quotient_of_div by blast+
  have a: "0 < a" using assms q b by (simp add: zero_less_divide_iff)
  define fa where "fa = int (floorlog 2 (nat a))"
  define fb where "fb = int (floorlog 2 (nat b))"
  have ba: "2 powi (fa - 1) \<le> (of_int a :: rat) \<and> of_int a < (2::rat) powi fa"
    using floorlog2_bounds [of "nat a"] a by (simp add: fa_def)
  have bb: "2 powi (fb - 1) \<le> (of_int b :: rat) \<and> of_int b < (2::rat) powi fb"
    using floorlog2_bounds [of "nat b"] b by (simp add: fb_def)
  have pb: "(0::rat) < of_int b" using b by simp
  have lo: "2 powi (fa - fb - 1) < q"
  proof -
    have "(2::rat) powi (fa - fb - 1) * 2 powi fb = 2 powi (fa - 1)" by (simp add: power_int_add [symmetric])
    also have "\<dots> \<le> of_int a" using ba by simp
    finally have "(2::rat) powi (fa - fb - 1) * 2 powi fb \<le> of_int a" .
    moreover have "(2::rat) powi (fa - fb - 1) * of_int b < 2 powi (fa - fb - 1) * 2 powi fb"
      using bb by simp
    ultimately have "(2::rat) powi (fa - fb - 1) * of_int b < of_int a" by linarith
    then show ?thesis using pb q by (simp add: pos_less_divide_eq)
  qed
  have hi: "q < 2 powi (fa - fb + 1)"
  proof -
    have "(of_int a :: rat) < 2 powi fa" using ba by simp
    also have "(2::rat) powi fa = 2 powi (fa - fb + 1) * 2 powi (fb - 1)" by (simp add: power_int_add [symmetric])
    also have "\<dots> \<le> 2 powi (fa - fb + 1) * of_int b" using bb by simp
    finally show ?thesis using pb q by (simp add: pos_divide_less_eq)
  qed
  show ?thesis
  proof (cases "q < 2 powi (fa - fb)")
    case True
    then have "ilog2 q = fa - fb - 1" by (simp add: ilog2_def ab fa_def fb_def)
    then show ?thesis using True lo by simp
  next
    case False
    then have "ilog2 q = fa - fb" by (simp add: ilog2_def ab fa_def fb_def)
    then show ?thesis using False hi by simp
  qed
qed

lemma ilog2_le:
  assumes "0 < q" "q < 2 powi (n + 1)"
  shows "ilog2 q \<le> n"
proof (rule ccontr)
  assume "\<not> ilog2 q \<le> n"
  then have "(2::rat) powi (n + 1) \<le> 2 powi ilog2 q" by (intro power_int_increasing) auto
  then show False using ilog2_bounds [OF assms(1)] assms(2) by simp
qed

lemma ilog2_ge:
  assumes "2 powi n \<le> q"
  shows "n \<le> ilog2 q"
proof (rule ccontr)
  have q: "0 < q" using assms by (rule order.strict_trans2 [rotated]) simp
  assume "\<not> n \<le> ilog2 q"
  then have "(2::rat) powi (ilog2 q + 1) \<le> 2 powi n" by (intro power_int_increasing) auto
  then show False using ilog2_bounds [OF q] assms by simp
qed

lemma round_half_even_err: "\<bar>of_int (round_half_even x) - x\<bar> \<le> 1 / 2"
proof -
  have "of_int \<lfloor>x\<rfloor> \<le> x" "x < of_int \<lfloor>x\<rfloor> + 1" by linarith+
  then show ?thesis by (auto simp: round_half_even_def Let_def)
qed

lemma round_half_even_ge_floor: "\<lfloor>x\<rfloor> \<le> round_half_even x"
  by (simp add: round_half_even_def Let_def)

lemma to_binary64_nonzero:
  assumes "q \<noteq> 0"
  defines "e \<equiv> binary64_quantum \<bar>q\<bar>"
  defines "v \<equiv> of_int (round_half_even (\<bar>q\<bar> / 2 powi e)) * 2 powi e"
  shows "to_binary64 q = (if 2 ^ 1024 \<le> v then (if q < 0 then NegInf else PosInf) else Fin (sgn q * v))"
    and "\<bar>v - \<bar>q\<bar>\<bar> \<le> 2 powi e / 2"
proof -
  show "to_binary64 q = (if 2 ^ 1024 \<le> v then (if q < 0 then NegInf else PosInf) else Fin (sgn q * v))"
    using assms(1) by (simp add: to_binary64_def e_def v_def Let_def)
  have p: "(0::rat) < 2 powi e" by simp
  have "v - \<bar>q\<bar> = 2 powi e * (of_int (round_half_even (\<bar>q\<bar> / 2 powi e)) - \<bar>q\<bar> / 2 powi e)"
    using p by (simp add: v_def field_simps)
  then have "\<bar>v - \<bar>q\<bar>\<bar> = 2 powi e * \<bar>of_int (round_half_even (\<bar>q\<bar> / 2 powi e)) - \<bar>q\<bar> / 2 powi e\<bar>"
    using p by (simp add: abs_mult)
  also have "\<dots> \<le> 2 powi e * (1 / 2)"
    using p round_half_even_err by (intro mult_left_mono) simp_all
  finally show "\<bar>v - \<bar>q\<bar>\<bar> \<le> 2 powi e / 2" by simp
qed

lemma binary64_quantum_le:
  assumes "0 < a" "a < 2 powi (n + 1)" "- 1022 \<le> n"
  shows "binary64_quantum a \<le> n - 52"
  using ilog2_le [OF assms(1,2)] assms(3) by (simp add: binary64_quantum_def)

lemma to_binary64_near:
  assumes "\<bar>q\<bar> < 2 powi (n + 1)" "- 1022 \<le> n" "n \<le> 1022"
  shows "\<exists>v. to_binary64 q = Fin v \<and> \<bar>v - q\<bar> \<le> 2 powi (n - 53)"
proof (cases "q = 0")
  case True
  then show ?thesis by (simp add: to_binary64_def)
next
  case False
  define e where "e = binary64_quantum \<bar>q\<bar>"
  define v :: rat where "v = of_int (round_half_even (\<bar>q\<bar> / 2 powi e)) * 2 powi e"
  have t: "to_binary64 q = (if 2 ^ 1024 \<le> v then (if q < 0 then NegInf else PosInf) else Fin (sgn q * v))"
    and err: "\<bar>v - \<bar>q\<bar>\<bar> \<le> 2 powi e / 2"
    using to_binary64_nonzero [OF False] by (simp_all add: e_def v_def)
  have "e \<le> n - 52" using binary64_quantum_le assms False by (simp add: e_def)
  then have "(2::rat) powi (e - 1) \<le> 2 powi (n - 53)" by (intro power_int_increasing) auto
  then have pe: "(2::rat) powi e / 2 \<le> 2 powi (n - 53)" by (simp add: power_int_diff)
  have "(2::rat) powi (n + 1) \<le> 2 powi 1023" using assms(3) by (intro power_int_increasing) auto
  moreover have "(2::rat) powi (n - 53) \<le> 2 powi 1023" using assms(3) by (intro power_int_increasing) auto
  ultimately have "v < 2 powi 1023 + 2 powi 1023" using assms(1) err pe by linarith
  then have "\<not> 2 ^ 1024 \<le> v" by (simp add: power_int_def)
  moreover have "\<bar>sgn q * v - q\<bar> = \<bar>v - \<bar>q\<bar>\<bar>"
    using False by (cases "0 < q") (simp_all add: abs_if sgn_if algebra_simps)
  ultimately show ?thesis using t err pe by simp
qed

lemma to_binary64_overflow:
  assumes "2 powi 1024 \<le> \<bar>q\<bar>"
  shows "to_binary64 q = (if q < 0 then NegInf else PosInf)"
proof -
  have q: "q \<noteq> 0" using assms by (auto simp: power_int_def)
  define e where "e = binary64_quantum \<bar>q\<bar>"
  define v :: rat where "v = of_int (round_half_even (\<bar>q\<bar> / 2 powi e)) * 2 powi e"
  have l: "1024 \<le> ilog2 \<bar>q\<bar>" using ilog2_ge assms by blast
  then have e: "e = ilog2 \<bar>q\<bar> - 52" by (simp add: e_def binary64_quantum_def)
  have "ilog2 \<bar>q\<bar> = 52 + e" by (simp add: e)
  then have "(2::rat) powi 52 * 2 powi e = 2 powi ilog2 \<bar>q\<bar>"
    using power_int_add [of "2::rat" 52 e] by simp
  note this
  also have "\<dots> \<le> \<bar>q\<bar>" using ilog2_bounds q by simp
  finally have "2 powi 52 \<le> \<bar>q\<bar> / 2 powi e" by (simp add: pos_le_divide_eq)
  then have "of_int (2 ^ 52) \<le> \<bar>q\<bar> / 2 powi e" by simp
  then have "2 ^ 52 \<le> round_half_even (\<bar>q\<bar> / 2 powi e)"
    using round_half_even_ge_floor le_floor_iff order_trans by blast
  then have "(2::rat) ^ 52 * 2 powi e \<le> v"
    unfolding v_def by (intro mult_right_mono) (simp_all add: of_int_le_iff [symmetric])
  moreover have "(2::rat) ^ 52 * 2 powi e = 2 powi ilog2 \<bar>q\<bar>"
    using power_int_of_nat [of "2::rat" 52] \<open>2 powi 52 * 2 powi e = 2 powi ilog2 \<bar>q\<bar>\<close> by simp
  moreover have "(2::rat) ^ 1024 \<le> 2 powi ilog2 \<bar>q\<bar>"
    using l power_int_increasing [of 1024 "ilog2 \<bar>q\<bar>" "2::rat"] by simp
  ultimately have "2 ^ 1024 \<le> v" by linarith
  then show ?thesis using to_binary64_nonzero(1) [OF q] by (simp add: e_def v_def)
qed

lemma to_binary64_cents_near:
  assumes "\<bar>c\<bar> < 10 ^ 15"
  shows "\<exists>v. to_binary64 (of_int c / 100) = Fin v \<and> \<bar>v - of_int c / 100\<bar> \<le> 1 / 1024"
proof -
  have "\<bar>of_int c / (100::rat)\<bar> < 2 powi (43 + 1)" using assms by (simp add: power_int_def)
  moreover have "(2::rat) powi (43 - 53) = 1 / 1024" by (simp add: power_int_def power_one_over)
  ultimately show ?thesis using to_binary64_near [of "of_int c / 100" 43] by simp
qed

lemma to_binary64_cents_distinct:
  assumes "a \<noteq> b" "\<bar>a\<bar> < 10 ^ 15" "\<bar>b\<bar> < 10 ^ 15"
  shows "to_binary64 (of_int a / 100) \<noteq> to_binary64 (of_int b / 100)"
proof
  note near = to_binary64_cents_near
  assume eq: "to_binary64 (of_int a / 100) = to_binary64 (of_int b / 100)"
  obtain v w where v: "to_binary64 (of_int a / 100) = Fin v" "\<bar>v - of_int a / 100\<bar> \<le> (1::rat) / 1024"
    and w: "to_binary64 (of_int b / 100) = Fin w" "\<bar>w - of_int b / 100\<bar> \<le> (1::rat) / 1024"
    using near assms(2,3) by blast
  have "v = w" using eq v(1) w(1) by simp
  then have "\<bar>of_int a / 100 - of_int b / (100::rat)\<bar> \<le> 1 / 512" using v(2) w(2) by linarith
  moreover have "1 \<le> \<bar>of_int a - (of_int b :: rat)\<bar>" using assms(1) by (simp flip: of_int_diff)
  ultimately show False by (simp add: diff_divide_distrib [symmetric])
qed

section \<open>Reading decimal literals\<close>

lemma digit_char_props:
  assumes "d < 10"
  shows "is_dec_digit (digit_char d)" and "digit_value (digit_char d) = d"
    and "\<not> py_isspace (digit_char d)"
  using assms
  by (simp_all add: is_dec_digit_def digit_value_def digit_char_def py_isspace_def)

lemma show_nat_digits: "list_all is_dec_digit (show_nat n)"
  by (induction n rule: show_nat.induct) (subst show_nat.simps, simp add: digit_char_props)

lemma show_nat_not_Nil [simp]: "show_nat n \<noteq> []"
  by (subst show_nat.simps) simp

lemma digits_nat_append:
  "digits_nat (xs @ ys) = digits_nat xs * 10 ^ length ys + digits_nat ys"
proof (induction ys rule: rev_induct)
  case Nil
  then show ?case by (simp add: digits_nat_def)
next
  case (snoc y ys)
  then show ?case by (simp add: digits_nat_def algebra_simps)
qed

lemma digits_nat_show_nat [simp]: "digits_nat (show_nat n) = n"
proof (induction n rule: show_nat.induct)
  case (1 n)
  show ?case
  proof (cases "n < 10")
    case True
    then show ?thesis by (subst show_nat.simps) (simp add: digits_nat_def digit_char_props)
  next
    case False
    with "1.IH" have "digits_nat (show_nat (n div 10)) = n div 10" by simp
    with False show ?thesis
      by (subst show_nat.simps) (simp add: digits_nat_append digits_nat_def digit_char_props)
  qed
qed

lemma digits_of_all [simp]: "list_all is_dec_digit ds \<Longrightarrow> digits_of ds = ds"
  by (simp add: digits_of_def list_all_iff)

lemma digitpart_digits:
  assumes "ds \<noteq> []" and "list_all is_dec_digit ds"
  shows "digitpart ds"
proof -
  have u: "\<not> is_dec_digit CHR ''_''" by (simp add: is_dec_digit_def)
  then have "CHR ''_'' \<notin> set ds" using assms(2) by (auto simp: list_all_iff)
  then have "\<not> sublist ''__'' ds" using set_mono_sublist by fastforce
  with assms show ?thesis
    by (simp add: digitpart_def list_all_iff)
qed

lemma split_first_none: "\<forall>c \<in> set s. \<not> P c \<Longrightarrow> split_first P s = (s, None)"
  by (induction s) simp_all

lemma split_first_at:
  "\<forall>c \<in> set a. \<not> P c \<Longrightarrow> P c \<Longrightarrow> split_first P (a @ c # b) = (a, Some b)"
  by (induction a) simp_all

lemma not_digit_chars: "\<not> is_dec_digit CHR ''.''" "\<not> is_dec_digit CHR ''e''" "\<not> is_dec_digit CHR ''E''"
  "\<not> is_dec_digit CHR ''-''" "\<not> is_dec_digit CHR ''+''" "\<not> is_dec_digit CHR ''i''" "\<not> is_dec_digit CHR ''n''"
  by (simp_all add: is_dec_digit_def)

lemma ascii_lower_digit: "is_dec_digit c \<Longrightarrow> ascii_lower c = c"
  by (simp add: ascii_lower_def is_dec_digit_def)

lemma digit_not_space: "is_dec_digit c \<Longrightarrow> \<not> py_isspace c"
  by (auto simp: is_dec_digit_def py_isspace_def)

lemma float_number_decimal:
  assumes "ip \<noteq> []" "list_all is_dec_digit ip" "fp \<noteq> []" "list_all is_dec_digit fp"
  shows "float_number (ip @ ''.'' @ fp) = Some (of_nat (digits_nat (ip @ fp)) / 10 ^ length fp)"
proof -
  have ne: "\<forall>c \<in> set (ip @ ''.'' @ fp). \<not> (c = CHR ''e'' \<or> c = CHR ''E'')"
    using assms(2,4) not_digit_chars by (auto simp: list_all_iff)
  have nd: "\<forall>c \<in> set ip. \<not> c = CHR ''.''" using assms(2) not_digit_chars by (auto simp: list_all_iff)
  have "split_first (\<lambda>c. c = CHR ''.'') (ip @ CHR ''.'' # fp) = (ip, Some fp)"
    using nd by (rule split_first_at) simp
  moreover have "list_all is_dec_digit (ip @ fp)" using assms(2,4) by simp
  ultimately show ?thesis
    using split_first_none [OF ne] assms digitpart_digits
    by (simp add: float_number_def float_mantissa_def)
qed

lemma py_float_decimal:
  assumes "ip \<noteq> []" "list_all is_dec_digit ip" "fp \<noteq> []" "list_all is_dec_digit fp"
  shows "py_float ((if neg then ''-'' else []) @ ip @ ''.'' @ fp)
    = Inr (to_binary64 ((if neg then -1 else 1) * (of_nat (digits_nat (ip @ fp)) / 10 ^ length fp)))"
proof -
  let ?s = "(if neg then ''-'' else []) @ ip @ ''.'' @ fp"
  have hd_ip: "is_dec_digit (hd ip)" using assms(1,2) by (cases ip) simp_all
  have last_fp: "is_dec_digit (last fp)" using assms(3,4) by (simp add: list_all_iff)
  have "hd ?s = CHR ''-'' \<or> hd ?s = hd ip" using assms(1) by (cases neg) simp_all
  then have "\<not> py_isspace (hd ?s)"
    using hd_ip digit_not_space by (auto simp: py_isspace_def)
  moreover have "last ?s = last fp" using assms(3) by simp
  ultimately have strip: "py_strip ?s = ?s"
    using py_strip_eqI [of "[]" "[]" ?s] last_fp digit_not_space by simp
  have low: "map ascii_lower (ip @ ''.'' @ fp) \<noteq> ''inf'' \<and> map ascii_lower (ip @ ''.'' @ fp) \<noteq> ''infinity''
      \<and> map ascii_lower (ip @ ''.'' @ fp) \<noteq> ''nan''"
  proof -
    obtain d r where ip: "ip = d # r" using assms(1) by (cases ip) auto
    then have "is_dec_digit d" using assms(2) by simp
    then show ?thesis using ip ascii_lower_digit not_digit_chars by auto
  qed
  show ?thesis
  proof (cases neg)
    case True
    then show ?thesis using strip low float_number_decimal [OF assms] by (simp add: py_float_def Let_def)
  next
    case False
    obtain d r where ip: "ip = d # r" using assms(1) by (cases ip) auto
    then have "is_dec_digit d" using assms(2) by simp
    then have "d \<noteq> CHR ''-'' \<and> d \<noteq> CHR ''+''" using not_digit_chars by auto
    then have body: "(case ip @ ''.'' @ fp of [] \<Rightarrow> (False, [])
        | c # r \<Rightarrow> if c = CHR ''-'' then (True, r) else if c = CHR ''+'' then (False, r)
                   else (False, ip @ ''.'' @ fp)) = (False, ip @ ''.'' @ fp)"
      by (simp add: ip)
    from False show ?thesis using strip low float_number_decimal [OF assms]
      by (simp only: py_float_def Let_def body if_False append_Nil) simp
  qed
qed

text \<open>Overflow: a literal beyond the binary64 range is an infinity, not an error.\<close>

lemma py_float_overflow: "py_float ''1e400'' = Inr PosInf"
proof -
  have "float_number ''1e400'' = Some (10 ^ 400)"
    by (simp add: float_number_def float_mantissa_def float_exponent_def digitpart_digits
        is_dec_digit_def digits_of_def digits_nat_def digit_value_def)
  moreover have "2 powi 1024 \<le> \<bar>(10::rat) ^ 400\<bar>" by (simp add: power_int_def)
  ultimately show ?thesis
    using to_binary64_overflow [of "10 ^ 400"]
    by (simp add: py_float_def py_strip_trim py_isspace_def ascii_lower_def)
qed

end
