(* ===== verification/TestSuite.thy ===== *)
theory TestSuite
  imports Agent PyFloat
begin

text \<open>
  The test suite src/test_parser.py as \<open>python -m pytest test_parser.py\<close> runs it in the
  working directory: the class-scoped fixtures \<open>bank_name\<close>, \<open>parser_module\<close>,
  \<open>expected_data\<close> and \<open>pdf_path\<close>, the two tests, and pytest's exit code. What the
  loaded parser returns, whether its module loads, and the data frame pandas builds from the
  reference CSV are oracles of a \<open>suite_world\<close>; a data frame is its column names and
  its rows of cells (a string, a float, or a missing value). \<open>assert_frame_equal\<close> with
  \<open>check_dtype=False\<close> compares columns and shape exactly, strings exactly, and floats as
  pandas does for float columns (\<open>check_exact=False\<close>): equal within a relative tolerance of
  \<open>10^-5\<close> or an absolute one of \<open>10^-8\<close>, missing values equal to each other. The fixture
  \<open>bank_name\<close> is the constant \<^verbatim>\<open>icici\<close>, whatever bank the agent targets. pytest's exit
  code is that of a working directory where no \<open>conftest.py\<close> or configuration file adds
  plugins, fixtures or tests. Proved here: without an ICICI parser file both tests are
  skipped and pytest exits 0; and exit code 0 with the parser present means the parser
  returned a frame with the required columns that matches the expected one within pandas'
  tolerance, which is weaker than equality.
\<close>

section \<open>Data frames and the outside world of the suite\<close>

datatype df_cell = CStr string | CNum pyfloat | CMissing

record frame =
  frame_columns :: "string list"
  frame_rows :: "df_cell list list"

definition frame_shape :: "frame \<Rightarrow> nat \<times> nat" where
  "frame_shape df = (length (frame_rows df), length (frame_columns df))"

datatype parse_result = ReturnsFrame frame | ReturnsOther string | ParseRaises string

record suite_world =
  module_loads :: "string \<Rightarrow> bool"
  parse_fn :: "string \<Rightarrow> path \<Rightarrow> parse_result"
  expected_of :: "string \<Rightarrow> frame option"

datatype 'a fixture = FixOk 'a | FixSkip string | FixFail string | FixError string

datatype test_status = Test_passed | Test_failed string | Test_skipped string | Test_error string

section \<open>Fixtures\<close>

definition bank_name :: string where
  "bank_name = ''icici''"

definition suite_parser_path :: "path \<Rightarrow> path" where
  "suite_parser_path cwd = cwd @ ''/custom_parsers/'' @ bank_name @ ''_parser.py''"

definition suite_csv_path :: "path \<Rightarrow> path" where
  "suite_csv_path cwd = cwd @ ''/data/'' @ bank_name @ ''/'' @ bank_name @ ''_sample.csv''"

definition suite_pdf_path :: "path \<Rightarrow> path" where
  "suite_pdf_path cwd = cwd @ ''/data/'' @ bank_name @ ''/'' @ bank_name @ ''_sample.pdf''"

definition parser_module :: "suite_world \<Rightarrow> path \<Rightarrow> files \<Rightarrow> string fixture" where
  "parser_module W cwd disk =
     (case disk (suite_parser_path cwd) of
        None \<Rightarrow> FixSkip (''Parser not found at '' @ suite_parser_path cwd @ ''. Skipping tests.'')
      | Some src \<Rightarrow> if module_loads W src then FixOk src else FixError ''exec_module'')"

definition expected_data :: "suite_world \<Rightarrow> path \<Rightarrow> files \<Rightarrow> frame fixture" where
  "expected_data W cwd disk =
     (case disk (suite_csv_path cwd) of
        None \<Rightarrow> FixFail (''Critical test file missing: Expected CSV not found at '' @ suite_csv_path cwd)
      | Some csv \<Rightarrow> (case expected_of W csv of None \<Rightarrow> FixError ''read_csv'' | Some df \<Rightarrow> FixOk df))"

definition pdf_path :: "path \<Rightarrow> files \<Rightarrow> path fixture" where
  "pdf_path cwd disk =
     (if disk (suite_pdf_path cwd) = None
      then FixFail (''Critical test file missing: Sample PDF not found at '' @ suite_pdf_path cwd)
      else FixOk (suite_pdf_path cwd))"

section \<open>Tests\<close>

definition expected_cols :: "string list" where
  "expected_cols = [''Date'', ''Description'', ''Debit Amt'', ''Credit Amt'', ''Balance'']"

definition test_parser_contract :: "suite_world \<Rightarrow> string \<Rightarrow> path \<Rightarrow> frame \<Rightarrow> test_status" where
  "test_parser_contract W src pdf df =
     (case parse_fn W src pdf of
        ParseRaises e \<Rightarrow> Test_failed e
      | ReturnsOther v \<Rightarrow> Test_failed ''The parser must return a pandas DataFrame.''
      | ReturnsFrame r \<Rightarrow>
          if frame_columns r \<noteq> expected_cols then Test_failed ''Column mismatch''
          else if frame_shape r \<noteq> frame_shape df then Test_failed ''Shape mismatch''
          else Test_passed)"

text \<open>\<open>math.isclose\<close> with pandas' default tolerances, as \<open>assert_almost_equal\<close> applies it.\<close>

definition isclose :: "rat \<Rightarrow> rat \<Rightarrow> bool" where
  "isclose a b \<longleftrightarrow> \<bar>a - b\<bar> \<le> max (1 / 100000 * max \<bar>a\<bar> \<bar>b\<bar>) (1 / 100000000)"

fun floats_close :: "pyfloat \<Rightarrow> pyfloat \<Rightarrow> bool" where
  "floats_close (Fin a) (Fin b) = isclose a b"
| "floats_close PosInf PosInf = True"
| "floats_close NegInf NegInf = True"
| "floats_close NaN NaN = True"
| "floats_close x y = False"

text \<open>A missing value (\<open>None\<close> in a float column) is \<open>NaN\<close>; two missing values compare equal.\<close>

fun cell_num :: "df_cell \<Rightarrow> pyfloat option" where
  "cell_num (CNum x) = Some x"
| "cell_num CMissing = Some NaN"
| "cell_num (CStr s) = None"

definition cell_close :: "df_cell \<Rightarrow> df_cell \<Rightarrow> bool" where
  "cell_close a b =
     (case (a, b) of
        (CStr s, CStr t) \<Rightarrow> s = t
      | _ \<Rightarrow> (case (cell_num a, cell_num b) of (Some x, Some y) \<Rightarrow> floats_close x y | _ \<Rightarrow> False))"

text \<open>\<open>pd.testing.assert_frame_equal(result, expected, check_dtype=False)\<close> succeeds.\<close>

definition frames_close :: "frame \<Rightarrow> frame \<Rightarrow> bool" where
  "frames_close r df \<longleftrightarrow>
     frame_columns r = frame_columns df \<and> frame_shape r = frame_shape df
     \<and> list_all2 (list_all2 cell_close) (frame_rows r) (frame_rows df)"

definition test_exact_match :: "suite_world \<Rightarrow> string \<Rightarrow> path \<Rightarrow> frame \<Rightarrow> test_status" where
  "test_exact_match W src pdf df =
     (case parse_fn W src pdf of
        ParseRaises e \<Rightarrow> Test_failed e
      | ReturnsOther v \<Rightarrow> Test_failed ''The parsed DataFrame's content does not exactly match the expected CSV.''
      | ReturnsFrame r \<Rightarrow>
          if frames_close r df then Test_passed
          else Test_failed ''The parsed DataFrame's content does not exactly match the expected CSV.'')"

text \<open>
  A test requests its fixtures in the order of its parameters (\<open>parser_module\<close>,
  \<open>pdf_path\<close>, \<open>expected_data\<close>); a skip in a fixture skips the test, a failure or an
  exception in a fixture is an error of the test.
\<close>

fun fixture_then :: "'a fixture \<Rightarrow> ('a \<Rightarrow> test_status) \<Rightarrow> test_status" where
  "fixture_then (FixOk a) k = k a"
| "fixture_then (FixSkip m) k = Test_skipped m"
| "fixture_then (FixFail m) k = Test_error m"
| "fixture_then (FixError m) k = Test_error m"

definition run_test ::
  "(suite_world \<Rightarrow> string \<Rightarrow> path \<Rightarrow> frame \<Rightarrow> test_status) \<Rightarrow> suite_world \<Rightarrow> path \<Rightarrow> files \<Rightarrow> test_status" where
  "run_test body W cwd disk =
     fixture_then (parser_module W cwd disk) (\<lambda>src.
       fixture_then (pdf_path cwd disk) (\<lambda>pdf.
         fixture_then (expected_data W cwd disk) (\<lambda>df. body W src pdf df)))"

section \<open>The pytest run\<close>

definition suite_statuses :: "suite_world \<Rightarrow> path \<Rightarrow> files \<Rightarrow> test_status list" where
  "suite_statuses W cwd disk =
     [run_test test_parser_contract W cwd disk, run_test test_exact_match W cwd disk]"

fun status_ok :: "test_status \<Rightarrow> bool" where
  "status_ok Test_passed = True"
| "status_ok (Test_skipped m) = True"
| "status_ok (Test_failed m) = False"
| "status_ok (Test_error m) = False"

text \<open>
  The exit code of \<open>python -m pytest test_parser.py\<close>: 4 when the file is not there,
  0 when every test passed or was skipped, 1 otherwise.
\<close>

definition pytest_exit :: "suite_world \<Rightarrow> path \<Rightarrow> files \<Rightarrow> int" where
  "pytest_exit W cwd disk =
     (if disk (cwd @ ''/test_parser.py'') = None then 4
      else if list_all status_ok (suite_statuses W cwd disk) then 0 else 1)"

text \<open>
  The agent's environment runs this suite: every pytest run of the environment exits with
  the code of \<open>pytest_exit\<close> on the files of that moment (the captured output is left
  free).
\<close>

definition pytest_runs_suite :: "env \<Rightarrow> suite_world \<Rightarrow> path \<Rightarrow> bool" where
  "pytest_runs_suite E W cwd \<longleftrightarrow>
     (\<forall>n disk. \<exists>out err. pytest E n disk = Completed (pytest_exit W cwd disk) out err)"

section \<open>Properties of the suite\<close>

text \<open>Without an ICICI parser file, both tests are skipped and pytest exits 0.\<close>

lemma suite_skips_without_icici_parser:
  "disk (cwd @ ''/test_parser.py'') \<noteq> None \<Longrightarrow> disk (suite_parser_path cwd) = None \<Longrightarrow>
   pytest_exit W cwd disk = 0"
  by (simp add: pytest_exit_def suite_statuses_def run_test_def parser_module_def)

text \<open>
  \<open>assert_frame_equal\<close> is weaker than equality: a balance of 100000.01 rupees matches an
  expected 100000.00 (the difference is below the relative tolerance).
\<close>

lemma frames_close_not_exact:
  "frames_close \<lparr>frame_columns = expected_cols, frame_rows = [[CStr ''01-08-2024'', CStr ''NEFT'', CMissing, CMissing, CNum (Fin (10000001 / 100))]]\<rparr>
                \<lparr>frame_columns = expected_cols, frame_rows = [[CStr ''01-08-2024'', CStr ''NEFT'', CMissing, CMissing, CNum (Fin 100000)]]\<rparr>
   \<and> \<lparr>frame_columns = expected_cols, frame_rows = [[CStr ''01-08-2024'', CStr ''NEFT'', CMissing, CMissing, CNum (Fin (10000001 / 100))]]\<rparr>
     \<noteq> \<lparr>frame_columns = expected_cols, frame_rows = [[CStr ''01-08-2024'', CStr ''NEFT'', CMissing, CMissing, CNum (Fin 100000)]]\<rparr>"
  by (simp add: frames_close_def frame_shape_def cell_close_def isclose_def)

text \<open>
  C30: Exit code 0 with the ICICI parser present means both tests passed: the reference
  files exist, and the parser returned a frame with the five required columns, of the shape
  of the frame pandas reads from the CSV, whose strings equal the expected ones and whose
  amounts match within pandas' tolerance.
\<close>

theorem suite_pass_means_frames_match:
  assumes "pytest_exit W cwd disk = 0" and "disk (suite_parser_path cwd) = Some src"
  shows "\<exists>df r csv. disk (suite_pdf_path cwd) \<noteq> None \<and> disk (suite_csv_path cwd) = Some csv
    \<and> expected_of W csv = Some df \<and> parse_fn W src (suite_pdf_path cwd) = ReturnsFrame r
    \<and> frame_columns r = expected_cols \<and> frame_columns df = expected_cols \<and> frames_close r df"
  using assms
  by (auto simp: pytest_exit_def suite_statuses_def run_test_def parser_module_def pdf_path_def
      expected_data_def test_parser_contract_def test_exact_match_def frames_close_def
      split: if_splits option.splits parse_result.splits)

theorem suite_pass_means_frames_match_witness:
  "\<exists>df r csv. ([''/w/test_parser.py'' \<mapsto> ''tests'', ''/w/custom_parsers/icici_parser.py'' \<mapsto> ''src'',
             ''/w/data/icici/icici_sample.csv'' \<mapsto> ''csv'', ''/w/data/icici/icici_sample.pdf'' \<mapsto> ''pdf'']) (suite_pdf_path ''/w'') \<noteq> None
    \<and> ([''/w/test_parser.py'' \<mapsto> ''tests'', ''/w/custom_parsers/icici_parser.py'' \<mapsto> ''src'',
             ''/w/data/icici/icici_sample.csv'' \<mapsto> ''csv'', ''/w/data/icici/icici_sample.pdf'' \<mapsto> ''pdf'']) (suite_csv_path ''/w'') = Some csv
    \<and> expected_of \<lparr>module_loads = (\<lambda>s. True),
         parse_fn = (\<lambda>s p. ReturnsFrame \<lparr>frame_columns = expected_cols, frame_rows = [[CStr ''01-08-2024'', CStr ''NEFT'', CMissing, CNum (Fin 500), CNum (Fin (150001 / 100))]]\<rparr>),
         expected_of = (\<lambda>c. Some \<lparr>frame_columns = expected_cols, frame_rows = [[CStr ''01-08-2024'', CStr ''NEFT'', CMissing, CNum (Fin 500), CNum (Fin 1500)]]\<rparr>)\<rparr> csv = Some df
    \<and> parse_fn \<lparr>module_loads = (\<lambda>s. True),
         parse_fn = (\<lambda>s p. ReturnsFrame \<lparr>frame_columns = expected_cols, frame_rows = [[CStr ''01-08-2024'', CStr ''NEFT'', CMissing, CNum (Fin 500), CNum (Fin (150001 / 100))]]\<rparr>),
         expected_of = (\<lambda>c. Some \<lparr>frame_columns = expected_cols, frame_rows = [[CStr ''01-08-2024'', CStr ''NEFT'', CMissing, CNum (Fin 500), CNum (Fin 1500)]]\<rparr>)\<rparr> ''src'' (suite_pdf_path ''/w'') = ReturnsFrame r
    \<and> frame_columns r = expected_cols \<and> frame_columns df = expected_cols \<and> frames_close r df"
proof -
  have e: "pytest_exit \<lparr>module_loads = (\<lambda>s. True),
         parse_fn = (\<lambda>s p. ReturnsFrame \<lparr>frame_columns = expected_cols, frame_rows = [[CStr ''01-08-2024'', CStr ''NEFT'', CMissing, CNum (Fin 500), CNum (Fin (150001 / 100))]]\<rparr>),
         expected_of = (\<lambda>c. Some \<lparr>frame_columns = expected_cols, frame_rows = [[CStr ''01-08-2024'', CStr ''NEFT'', CMissing, CNum (Fin 500), CNum (Fin 1500)]]\<rparr>)\<rparr>
      ''/w'' [''/w/test_parser.py'' \<mapsto> ''tests'', ''/w/custom_parsers/icici_parser.py'' \<mapsto> ''src'',
             ''/w/data/icici/icici_sample.csv'' \<mapsto> ''csv'', ''/w/data/icici/icici_sample.pdf'' \<mapsto> ''pdf''] = 0"
    by (simp add: pytest_exit_def suite_statuses_def run_test_def parser_module_def pdf_path_def
        expected_data_def test_parser_contract_def test_exact_match_def suite_parser_path_def
        suite_csv_path_def suite_pdf_path_def bank_name_def frames_close_def frame_shape_def
        cell_close_def isclose_def expected_cols_def)
  have p: "([''/w/test_parser.py'' \<mapsto> ''tests'', ''/w/custom_parsers/icici_parser.py'' \<mapsto> ''src'',
             ''/w/data/icici/icici_sample.csv'' \<mapsto> ''csv'', ''/w/data/icici/icici_sample.pdf'' \<mapsto> ''pdf'']) (suite_parser_path ''/w'') = Some ''src''"
    by (simp add: suite_parser_path_def bank_name_def)
  show ?thesis by (rule suite_pass_means_frames_match [OF e p])
qed

end
