(* ===== verification/IciciParser.thy ===== *)
theory IciciParser
  imports PyFloat
begin

text \<open>
  The generated parser src/custom_parsers/icici_parser.py, function \<open>parse(pdf_path)\<close>.
  \<open>pdfplumber.open\<close> is an oracle: the pages of the document, each a list of the tables
  \<open>page.extract_tables()\<close> returns (a table is a list of rows, a row a list of cells, a
  cell a string or \<open>None\<close>), or \<open>FileNotFoundError\<close>, or another exception. The loops
  over pages, tables and rows, the header skip \<open>table[1:]\<close>, the five-cell test, the
  sanitising of each cell and the catching of \<open>ValueError\<close> per row are kept;
  \<open>print\<close> is not modelled. \<open>pd.DataFrame(all_data)\<close> of a list of dictionaries with the
  same five keys has those keys as columns, or no column at all for an empty list.
  Proved here: a table rendered from transactions with a header row and amounts written with
  thousands separators parses back to exactly those transactions; the first row of every
  table is dropped; only \<open>pdfplumber.open\<close> can make \<open>parse\<close> raise, and a missing file
  returns \<open>None\<close>.
\<close>

section \<open>Input and output\<close>

type_synonym cell = "string option"

type_synonym table = "cell list list"

datatype pdf_result = PdfPages "table list list" | PdfNotFound | PdfRaises string

record row_data =
  row_date :: string
  row_description :: string
  debit_amt :: "pyfloat option"
  credit_amt :: "pyfloat option"
  row_balance :: "pyfloat option"

record row_frame =
  df_columns :: "string list"
  df_rows :: "row_data list"

definition icici_columns :: "string list" where
  "icici_columns = [''Date'', ''Description'', ''Debit Amt'', ''Credit Amt'', ''Balance'']"

definition data_frame :: "row_data list \<Rightarrow> row_frame" where
  "data_frame rows = \<lparr>df_columns = (if rows = [] then [] else icici_columns), df_rows = rows\<rparr>"

section \<open>The parser\<close>

text \<open>\<open>s.replace(old, new)\<close> for a one-character \<open>old\<close>.\<close>

definition py_replace_char :: "char \<Rightarrow> string \<Rightarrow> string \<Rightarrow> string" where
  "py_replace_char old new s = concat (map (\<lambda>x. if x = old then new else [x]) s)"

text \<open>
  \<open>float(str(v).replace(",", "").strip()) if v and str(v).strip() else None\<close>.
\<close>

definition amount :: "cell \<Rightarrow> py_error + pyfloat option" where
  "amount v =
     (if py_truthy v \<and> py_strip (py_str_opt v) \<noteq> []
      then bind_sum (py_float (py_strip (py_replace_char CHR '','' [] (py_str_opt v)))) (\<lambda>f. Inr (Some f))
      else Inr None)"

text \<open>The body of the inner \<open>try\<close>: unpack the five cells, sanitise them, build the row.\<close>

definition parse_row :: "cell list \<Rightarrow> py_error + row_data" where
  "parse_row row =
     (case row of
        [date, description, debit, credit, balance] \<Rightarrow>
          bind_sum (amount debit) (\<lambda>d. bind_sum (amount credit) (\<lambda>c. bind_sum (amount balance) (\<lambda>b.
            Inr \<lparr>row_date = py_strip (py_str_opt date), row_description = py_strip (py_str_opt description),
                 debit_amt = d, credit_amt = c, row_balance = b\<rparr>)))
      | _ \<Rightarrow> Inl (ValueError ''wrong number of values to unpack''))"

text \<open>\<open>for row in table[1:]\<close>: a row of five cells is parsed, a \<open>ValueError\<close> drops it.\<close>

fun process_rows :: "cell list list \<Rightarrow> row_data list" where
  "process_rows [] = []"
| "process_rows (row # rows) =
     (if row \<noteq> [] \<and> length row = 5
      then (case parse_row row of Inr d \<Rightarrow> d # process_rows rows | Inl e \<Rightarrow> process_rows rows)
      else process_rows rows)"

definition process_table :: "table \<Rightarrow> row_data list" where
  "process_table t = (if t \<noteq> [] then process_rows (drop 1 t) else [])"

definition all_rows :: "table list list \<Rightarrow> row_data list" where
  "all_rows pages = concat (map (\<lambda>tables. concat (map process_table tables)) pages)"

definition icici_parse :: "(path \<Rightarrow> pdf_result) \<Rightarrow> path \<Rightarrow> string + row_frame option" where
  "icici_parse pdf_open pdf_path =
     (case pdf_open pdf_path of
        PdfNotFound \<Rightarrow> Inr None
      | PdfRaises e \<Rightarrow> Inl e
      | PdfPages pages \<Rightarrow> Inr (Some (data_frame (all_rows pages))))"

section \<open>Statements as tables\<close>

text \<open>
  How a bank statement shows an amount in paise: a sign, the rupees with a comma between
  groups of three digits, a point and two digits of paise. A transaction is shown as a
  row of five cells, an empty cell where there is no amount.
\<close>

function with_commas :: "string \<Rightarrow> string" where
  "with_commas ds =
     (if length ds \<le> 3 then ds
      else with_commas (take (length ds - 3) ds) @ CHR '','' # drop (length ds - 3) ds)"
  by pat_completeness auto
termination
  by (relation "measure length") auto

declare with_commas.simps [simp del]

definition two_digits :: "nat \<Rightarrow> string" where
  "two_digits m = [digit_char (m div 10), digit_char (m mod 10)]"

definition render_amount :: "int \<Rightarrow> string" where
  "render_amount c =
     (if c < 0 then ''-'' else []) @ with_commas (show_nat (nat \<bar>c\<bar> div 100)) @ ''.''
       @ two_digits (nat \<bar>c\<bar> mod 100)"

record txn =
  t_date :: string
  t_desc :: string
  t_debit :: "int option"
  t_credit :: "int option"
  t_balance :: "int option"

definition render_cell :: "int option \<Rightarrow> cell" where
  "render_cell v = map_option render_amount v"

definition render_txn :: "txn \<Rightarrow> cell list" where
  "render_txn t = [Some (t_date t), Some (t_desc t), render_cell (t_debit t), render_cell (t_credit t),
                   render_cell (t_balance t)]"

definition paise_value :: "int option \<Rightarrow> pyfloat option" where
  "paise_value v = map_option (\<lambda>c. to_binary64 (of_int c / 100)) v"

definition txn_row :: "txn \<Rightarrow> row_data" where
  "txn_row t = \<lparr>row_date = t_date t, row_description = t_desc t, debit_amt = paise_value (t_debit t),
                credit_amt = paise_value (t_credit t), row_balance = paise_value (t_balance t)\<rparr>"

definition statement_header :: "cell list" where
  "statement_header = map Some [''Date'', ''Description'', ''Debit Amt'', ''Credit Amt'', ''Balance'']"

section \<open>Reading rendered amounts and rows\<close>

lemma py_replace_char_Nil: "py_replace_char c [] s = filter (\<lambda>x. x \<noteq> c) s"
  by (induction s) (simp_all add: py_replace_char_def)

lemma with_commas_filter:
  "CHR '','' \<notin> set ds \<Longrightarrow> filter (\<lambda>x. x \<noteq> CHR '','') (with_commas ds) = ds"
proof (induction ds rule: with_commas.induct)
  case (1 ds)
  show ?case
  proof (cases "length ds \<le> 3")
    case True
    with "1.prems" show ?thesis by (subst with_commas.simps) (auto simp: filter_id_conv)
  next
    case False
    have "CHR '','' \<notin> set (take (length ds - 3) ds)" using "1.prems" by (meson in_set_takeD)
    with False "1.IH" have "filter (\<lambda>x. x \<noteq> CHR '','') (with_commas (take (length ds - 3) ds))
        = take (length ds - 3) ds" by simp
    moreover have "filter (\<lambda>x. x \<noteq> CHR '','') (drop (length ds - 3) ds) = drop (length ds - 3) ds"
      using "1.prems" by (auto simp: filter_id_conv dest: in_set_dropD)
    ultimately show ?thesis using False by (subst with_commas.simps) simp
  qed
qed

lemma with_commas_ends:
  "ds \<noteq> [] \<Longrightarrow> with_commas ds \<noteq> [] \<and> hd (with_commas ds) = hd ds \<and> last (with_commas ds) = last ds"
proof (induction ds rule: with_commas.induct)
  case (1 ds)
  show ?case
  proof (cases "length ds \<le> 3")
    case True
    then have "with_commas ds = ds" by (subst with_commas.simps) simp
    then show ?thesis using "1.prems" by simp
  next
    case False
    then have ne: "take (length ds - 3) ds \<noteq> []" by (cases ds) auto
    with False "1.IH" have ih: "with_commas (take (length ds - 3) ds) \<noteq> []
        \<and> hd (with_commas (take (length ds - 3) ds)) = hd ds" by (simp add: hd_take)
    have d: "drop (length ds - 3) ds \<noteq> []" using False by simp
    then have l: "last (drop (length ds - 3) ds) = last ds" by (simp add: last_drop)
    have eq: "with_commas ds
        = with_commas (take (length ds - 3) ds) @ CHR '','' # drop (length ds - 3) ds"
      using False by (subst with_commas.simps) simp
    show ?thesis using ih eq l d by simp
  qed
qed

lemma two_digits_props:
  "m < 100 \<Longrightarrow> list_all is_dec_digit (two_digits m) \<and> digits_nat (two_digits m) = m
     \<and> length (two_digits m) = 2 \<and> two_digits m \<noteq> []"
  by (simp add: two_digits_def digit_char_props digits_nat_def)

lemma digits_are_not_comma: "list_all is_dec_digit ds \<Longrightarrow> CHR '','' \<notin> set ds"
  by (auto simp: list_all_iff is_dec_digit_def)

lemma render_amount_digits:
  "filter (\<lambda>x. x \<noteq> CHR '','') (render_amount c)
     = (if c < 0 then ''-'' else []) @ show_nat (nat \<bar>c\<bar> div 100) @ ''.'' @ two_digits (nat \<bar>c\<bar> mod 100)"
proof -
  have t: "list_all is_dec_digit (two_digits (nat \<bar>c\<bar> mod 100))" using two_digits_props by simp
  have "filter (\<lambda>x. x \<noteq> CHR '','') (two_digits (nat \<bar>c\<bar> mod 100)) = two_digits (nat \<bar>c\<bar> mod 100)"
    using digits_are_not_comma [OF t] by (auto simp: filter_id_conv)
  then show ?thesis
    using with_commas_filter [OF digits_are_not_comma [OF show_nat_digits]]
    by (simp add: render_amount_def)
qed

lemma hd_sign_with_commas:
  "ds \<noteq> [] \<Longrightarrow> hd ((if b then ''-'' else []) @ with_commas ds @ rest) = (if b then CHR ''-'' else hd ds)"
  using with_commas_ends [of ds] by simp

lemma render_amount_strip: "py_strip (render_amount c) = render_amount c"
proof (rule py_strip_id)
  let ?ds = "show_nat (nat \<bar>c\<bar> div 100)"
  have hd_ds: "is_dec_digit (hd ?ds)" using show_nat_digits [of "nat \<bar>c\<bar> div 100"]
    by (cases ?ds) simp_all
  have "hd (render_amount c) = (if c < 0 then CHR ''-'' else hd ?ds)"
    unfolding render_amount_def by (rule hd_sign_with_commas) simp
  then show "\<not> py_isspace (hd (render_amount c))"
    using hd_ds digit_not_space by (auto simp: py_isspace_def)
  have "last (render_amount c) = digit_char (nat \<bar>c\<bar> mod 100 mod 10)"
    by (simp add: render_amount_def two_digits_def)
  then show "\<not> py_isspace (last (render_amount c))" by (simp add: digit_char_props)
qed (simp add: render_amount_def)

lemma amount_render: "amount (Some (render_amount c)) = Inr (Some (to_binary64 (of_int c / 100)))"
proof -
  let ?q = "nat \<bar>c\<bar> div 100" and ?r = "nat \<bar>c\<bar> mod 100"
  have tp: "list_all is_dec_digit (two_digits ?r)" "digits_nat (two_digits ?r) = ?r"
    "length (two_digits ?r) = 2" "two_digits ?r \<noteq> []"
    using two_digits_props [of ?r] by simp_all
  have f: "py_float ((if c < 0 then ''-'' else []) @ show_nat ?q @ ''.'' @ two_digits ?r)
      = Inr (to_binary64 ((if c < 0 then -1 else 1) * (of_nat (digits_nat (show_nat ?q @ two_digits ?r)) / 10 ^ 2)))"
    using py_float_decimal [OF show_nat_not_Nil show_nat_digits tp(4) tp(1), of "c < 0"] tp(3) by simp
  have "digits_nat (show_nat ?q @ two_digits ?r) = nat \<bar>c\<bar>"
    using tp by (simp add: digits_nat_append)
  then have v: "(if c < 0 then -1 else 1) * (of_nat (digits_nat (show_nat ?q @ two_digits ?r)) / 10 ^ 2)
      = (of_int c / 100 :: rat)"
    by (cases "c < 0") (simp_all add: of_nat_nat)
  have s: "py_strip (filter (\<lambda>x. x \<noteq> CHR '','') (render_amount c))
      = (if c < 0 then ''-'' else []) @ show_nat ?q @ ''.'' @ two_digits ?r"
  proof -
    have e: "filter (\<lambda>x. x \<noteq> CHR '','') (render_amount c) = (if c < 0 then ''-'' else []) @ show_nat ?q @ ''.'' @ two_digits ?r"
      by (rule render_amount_digits)
    have "py_strip ((if c < 0 then ''-'' else []) @ show_nat ?q @ ''.'' @ two_digits ?r)
        = (if c < 0 then ''-'' else []) @ show_nat ?q @ ''.'' @ two_digits ?r"
    proof (rule py_strip_id)
      have "is_dec_digit (hd (show_nat ?q))" using show_nat_digits [of ?q] by (cases "show_nat ?q") simp_all
      then show "\<not> py_isspace (hd ((if c < 0 then ''-'' else []) @ show_nat ?q @ ''.'' @ two_digits ?r))"
        using digit_not_space by (auto simp: py_isspace_def)
      have "is_dec_digit (last (two_digits ?r))" using tp(1,4) by (simp add: list_all_iff)
      then show "\<not> py_isspace (last ((if c < 0 then ''-'' else []) @ show_nat ?q @ ''.'' @ two_digits ?r))"
        using tp(4) digit_not_space by simp
    qed simp
    with e show ?thesis by simp
  qed
  have "render_amount c \<noteq> []" by (simp add: render_amount_def)
  then show ?thesis
    using s f v render_amount_strip
    by (simp add: amount_def py_truthy_def py_str_opt_def py_replace_char_Nil)
qed

lemma amount_render_cell: "amount (render_cell v) = Inr (paise_value v)"
  by (cases v) (simp_all add: render_cell_def paise_value_def amount_render, simp add: amount_def py_truthy_def)

lemma parse_row_render:
  "py_strip (t_date t) = t_date t \<Longrightarrow> py_strip (t_desc t) = t_desc t \<Longrightarrow>
   parse_row (render_txn t) = Inr (txn_row t)"
  by (simp add: parse_row_def render_txn_def amount_render_cell txn_row_def py_str_opt_def)

lemma process_rows_render:
  "\<forall>t \<in> set ts. py_strip (t_date t) = t_date t \<and> py_strip (t_desc t) = t_desc t \<Longrightarrow>
   process_rows (map render_txn ts) = map txn_row ts"
  by (induction ts) (simp_all add: parse_row_render, simp add: render_txn_def)

text \<open>
  C31: Round trip: a statement table, a header row followed by the rows of transactions
  with amounts in the bank's format (thousands separators, two decimals, empty cells for
  no amount), parses to exactly those transactions, amounts in rupees.
\<close>

theorem icici_parse_roundtrip:
  assumes "\<forall>t \<in> set ts. py_strip (t_date t) = t_date t \<and> py_strip (t_desc t) = t_desc t"
  shows "icici_parse (\<lambda>p. PdfPages [[statement_header # map render_txn ts]]) pdf
    = Inr (Some (data_frame (map txn_row ts)))"
  using process_rows_render [OF assms]
  by (simp add: icici_parse_def all_rows_def process_table_def)

theorem icici_parse_roundtrip_witness:
  "icici_parse (\<lambda>p. PdfPages [[statement_header # map render_txn [\<lparr>t_date = ''01-08-2024'', t_desc = ''NEFT SALARY'', t_debit = None, t_credit = Some 5000000, t_balance = Some 12345678\<rparr>, \<lparr>t_date = ''02-08-2024'', t_desc = ''ATM'', t_debit = Some 200000, t_credit = None, t_balance = Some 12145678\<rparr>]]]) ''icici_sample.pdf''
     = Inr (Some (data_frame (map txn_row [\<lparr>t_date = ''01-08-2024'', t_desc = ''NEFT SALARY'', t_debit = None, t_credit = Some 5000000, t_balance = Some 12345678\<rparr>, \<lparr>t_date = ''02-08-2024'', t_desc = ''ATM'', t_debit = Some 200000, t_credit = None, t_balance = Some 12145678\<rparr>])))"
proof -
  have h: "\<forall>t \<in> set [\<lparr>t_date = ''01-08-2024'', t_desc = ''NEFT SALARY'', t_debit = None, t_credit = Some 5000000, t_balance = Some 12345678\<rparr>, \<lparr>t_date = ''02-08-2024'', t_desc = ''ATM'', t_debit = Some 200000, t_credit = None, t_balance = Some 12145678\<rparr>]. py_strip (t_date t) = t_date t \<and> py_strip (t_desc t) = t_desc t"
    by (simp add: py_strip_trim py_isspace_def)
  show ?thesis by (rule icici_parse_roundtrip [OF h])
qed

text \<open>
  C32: The first row of every table is taken for a header and dropped: when a statement's
  transactions continue on a second page whose table has no header row, the first
  transaction of that page is lost.
\<close>

theorem icici_parse_drops_continuation_row:
  assumes "\<forall>t \<in> set (ts1 @ t # ts2). py_strip (t_date t) = t_date t \<and> py_strip (t_desc t) = t_desc t"
  shows "icici_parse (\<lambda>p. PdfPages [[statement_header # map render_txn ts1], [map render_txn (t # ts2)]]) pdf
    = Inr (Some (data_frame (map txn_row (ts1 @ ts2))))"
proof -
  have "process_rows (map render_txn ts1) = map txn_row ts1"
    and "process_rows (map render_txn ts2) = map txn_row ts2"
    using assms by (auto intro!: process_rows_render)
  then show ?thesis by (simp add: icici_parse_def all_rows_def process_table_def)
qed

theorem icici_parse_drops_continuation_row_witness:
  "icici_parse (\<lambda>p. PdfPages [[statement_header # map render_txn [\<lparr>t_date = ''01-08-2024'', t_desc = ''NEFT SALARY'', t_debit = None, t_credit = Some 5000000, t_balance = Some 12345678\<rparr>]], [map render_txn (\<lparr>t_date = ''02-08-2024'', t_desc = ''ATM'', t_debit = Some 200000, t_credit = None, t_balance = Some 12145678\<rparr> # [\<lparr>t_date = ''03-08-2024'', t_desc = ''UPI'', t_debit = Some 5050, t_credit = None, t_balance = Some 12140628\<rparr>])]])
       ''icici_sample.pdf''
     = Inr (Some (data_frame (map txn_row ([\<lparr>t_date = ''01-08-2024'', t_desc = ''NEFT SALARY'', t_debit = None, t_credit = Some 5000000, t_balance = Some 12345678\<rparr>] @ [\<lparr>t_date = ''03-08-2024'', t_desc = ''UPI'', t_debit = Some 5050, t_credit = None, t_balance = Some 12140628\<rparr>]))))"
proof -
  have h: "\<forall>t \<in> set ([\<lparr>t_date = ''01-08-2024'', t_desc = ''NEFT SALARY'', t_debit = None, t_credit = Some 5000000, t_balance = Some 12345678\<rparr>] @ \<lparr>t_date = ''02-08-2024'', t_desc = ''ATM'', t_debit = Some 200000, t_credit = None, t_balance = Some 12145678\<rparr> # [\<lparr>t_date = ''03-08-2024'', t_desc = ''UPI'', t_debit = Some 5050, t_credit = None, t_balance = Some 12140628\<rparr>]). py_strip (t_date t) = t_date t \<and> py_strip (t_desc t) = t_desc t"
    by (simp add: py_strip_trim py_isspace_def)
  show ?thesis by (rule icici_parse_drops_continuation_row [OF h])
qed

lemma parse_row_stripped:
  "parse_row row = Inr d \<Longrightarrow> py_strip (row_date d) = row_date d \<and> py_strip (row_description d) = row_description d"
  by (auto simp: parse_row_def split: list.splits)

lemma process_rows_stripped:
  "r \<in> set (process_rows rows) \<Longrightarrow> py_strip (row_date r) = row_date r \<and> py_strip (row_description r) = row_description r"
  by (induction rows rule: process_rows.induct) (auto split: if_splits sum.splits dest: parse_row_stripped)

text \<open>
  C34: Well-formed output: a frame \<open>parse\<close> returns has the five columns whenever it has
  rows, and the date and description of every row carry no surrounding white space.
\<close>

theorem icici_rows_well_formed:
  assumes "icici_parse pdf_open p = Inr (Some df)"
  shows "(df_rows df \<noteq> [] \<longrightarrow> df_columns df = icici_columns)
    \<and> (\<forall>r \<in> set (df_rows df). py_strip (row_date r) = row_date r
          \<and> py_strip (row_description r) = row_description r)"
  using assms process_rows_stripped
  by (auto simp: icici_parse_def data_frame_def all_rows_def process_table_def split: pdf_result.splits if_splits)

theorem icici_rows_well_formed_witness:
  "icici_parse (\<lambda>p. PdfPages [[[statement_header, [Some '' 01-08-2024 '', Some ''NEFT '', None, None, None]]]]) ''icici_sample.pdf'' = Inr (Some \<lparr>df_columns = icici_columns, df_rows = [\<lparr>row_date = ''01-08-2024'', row_description = ''NEFT'', debit_amt = None, credit_amt = None, row_balance = None\<rparr>]\<rparr>)
   \<and> df_columns \<lparr>df_columns = icici_columns, df_rows = [\<lparr>row_date = ''01-08-2024'', row_description = ''NEFT'', debit_amt = None, credit_amt = None, row_balance = None\<rparr>]\<rparr> = icici_columns
   \<and> py_strip (row_date (hd (df_rows \<lparr>df_columns = icici_columns, df_rows = [\<lparr>row_date = ''01-08-2024'', row_description = ''NEFT'', debit_amt = None, credit_amt = None, row_balance = None\<rparr>]\<rparr>))) = row_date (hd (df_rows \<lparr>df_columns = icici_columns, df_rows = [\<lparr>row_date = ''01-08-2024'', row_description = ''NEFT'', debit_amt = None, credit_amt = None, row_balance = None\<rparr>]\<rparr>))
   \<and> py_strip (row_description (hd (df_rows \<lparr>df_columns = icici_columns, df_rows = [\<lparr>row_date = ''01-08-2024'', row_description = ''NEFT'', debit_amt = None, credit_amt = None, row_balance = None\<rparr>]\<rparr>))) = row_description (hd (df_rows \<lparr>df_columns = icici_columns, df_rows = [\<lparr>row_date = ''01-08-2024'', row_description = ''NEFT'', debit_amt = None, credit_amt = None, row_balance = None\<rparr>]\<rparr>))"
proof -
  have h: "icici_parse (\<lambda>p. PdfPages [[[statement_header, [Some '' 01-08-2024 '', Some ''NEFT '', None, None, None]]]]) ''icici_sample.pdf'' = Inr (Some \<lparr>df_columns = icici_columns, df_rows = [\<lparr>row_date = ''01-08-2024'', row_description = ''NEFT'', debit_amt = None, credit_amt = None, row_balance = None\<rparr>]\<rparr>)"
    by (simp add: icici_parse_def all_rows_def process_table_def data_frame_def parse_row_def
        amount_def py_truthy_def statement_header_def py_str_opt_def py_strip_trim py_isspace_def)
  have "df_rows \<lparr>df_columns = icici_columns, df_rows = [\<lparr>row_date = ''01-08-2024'', row_description = ''NEFT'', debit_amt = None, credit_amt = None, row_balance = None\<rparr>]\<rparr> \<noteq> []" "hd (df_rows \<lparr>df_columns = icici_columns, df_rows = [\<lparr>row_date = ''01-08-2024'', row_description = ''NEFT'', debit_amt = None, credit_amt = None, row_balance = None\<rparr>]\<rparr>) \<in> set (df_rows \<lparr>df_columns = icici_columns, df_rows = [\<lparr>row_date = ''01-08-2024'', row_description = ''NEFT'', debit_amt = None, credit_amt = None, row_balance = None\<rparr>]\<rparr>)" by simp_all
  then show ?thesis using h icici_rows_well_formed [OF h] by blast
qed

text \<open>
  C35: Amounts are read to within a thousandth of a rupee and distinct amounts stay
  distinct: an amount in paise of magnitude below \<open>10^15\<close> (ten trillion rupees), written
  as the statement writes it, is sanitised and converted by \<open>float()\<close> to a finite float
  within \<open>2^-10\<close> of its value in rupees, and two different amounts give different floats
  (they are at least \<open>1/100\<close> apart).
\<close>

theorem icici_amounts_distinct:
  assumes "a \<noteq> b" "\<bar>a\<bar> < 10 ^ 15" "\<bar>b\<bar> < 10 ^ 15"
  shows "\<exists>x y. amount (Some (render_amount a)) = Inr (Some (Fin x))
    \<and> amount (Some (render_amount b)) = Inr (Some (Fin y))
    \<and> \<bar>x - of_int a / 100\<bar> \<le> 1 / 1024 \<and> \<bar>y - of_int b / 100\<bar> \<le> 1 / 1024 \<and> x \<noteq> y"
proof -
  obtain x y where x: "to_binary64 (of_int a / 100) = Fin x" "\<bar>x - of_int a / 100\<bar> \<le> (1::rat) / 1024"
    and y: "to_binary64 (of_int b / 100) = Fin y" "\<bar>y - of_int b / 100\<bar> \<le> (1::rat) / 1024"
    using to_binary64_cents_near assms(2,3) by blast
  have "x \<noteq> y" using to_binary64_cents_distinct [OF assms] x(1) y(1) by auto
  then show ?thesis using x y by (simp add: amount_render)
qed

theorem icici_amounts_distinct_witness:
  "\<exists>x y. amount (Some (render_amount 123456789)) = Inr (Some (Fin x))
    \<and> amount (Some (render_amount 123456790)) = Inr (Some (Fin y))
    \<and> \<bar>x - of_int 123456789 / 100\<bar> \<le> 1 / 1024 \<and> \<bar>y - of_int 123456790 / 100\<bar> \<le> 1 / 1024 \<and> x \<noteq> y"
  using icici_amounts_distinct [of 123456789 123456790] by simp

end
