(* ===== verification/Liveness.thy ===== *)
theory Liveness
  imports AgentRun
begin

text \<open>
  Progress of the retry loop: when every model answer contains code and the tests pass for
  the first time at the \<open>k\<close>-th test run, within the attempt budget and the recursion limit,
  the run ends in success after exactly \<open>k + 1\<close> cycles. A cycle is a generation, a test
  run and, after a failure, the correction step; the proof follows the cycles one by one.
\<close>

section \<open>Assumptions on the outside world\<close>

definition code_always :: "env \<Rightarrow> bool" where
  "code_always E \<longleftrightarrow>
     (\<forall>n p. \<exists>ans cd. llm E n p = GenText ans \<and> extract_code ans = Inr (Some cd) \<and> cd \<noteq> [])
     \<and> (\<forall>p. write_error E p = None)"

definition passes :: "env \<Rightarrow> nat \<Rightarrow> files \<Rightarrow> bool" where
  "passes E n f \<longleftrightarrow> (\<exists>out err. pytest E n f = Completed 0 out err)"

definition passes_first_at :: "env \<Rightarrow> nat \<Rightarrow> bool" where
  "passes_first_at E k \<longleftrightarrow> (\<forall>n f. n < k \<longrightarrow> \<not> passes E n f) \<and> (\<forall>f. passes E k f)"

text \<open>The configuration at the start of the \<open>j\<close>-th cycle (counted from 0).\<close>

definition cycle_at :: "cfg \<Rightarrow> nat \<Rightarrow> cfg \<Rightarrow> bool" where
  "cycle_at c0 j c \<longleftrightarrow>
     pc c = Generate_code \<and> attempt_count (st c) = int j + 1 \<and> llm_calls (tr c) = j
     \<and> test_runs (tr c) = j \<and> \<not> task_complete (st c) \<and> same_setup c0 c"

section \<open>One cycle\<close>

lemma cycle_generate:
  assumes "cycle_at c0 j c" and "code_always E" and "csv_columns E (csv_path (st c)) \<noteq> None"
  shows "\<exists>c1. step E c = Inr c1 \<and> pc c1 = Run_tests \<and> attempt_count (st c1) = int j + 1
    \<and> llm_calls (tr c1) = Suc j \<and> test_runs (tr c1) = j \<and> \<not> task_complete (st c1)
    \<and> same_setup c0 c1"
proof -
  obtain cols where cols: "csv_columns E (csv_path (st c)) = Some cols" using assms(3) by blast
  obtain ans cd where a: "llm E (llm_calls (tr c)) (build_prompt (target_bank (st c)) (test_results (st c)))
      = GenText ans" and x: "extract_code ans = Inr (Some cd)" and ne: "cd \<noteq> []"
    using assms(2) unfolding code_always_def by blast
  have w: "write_error E (parser_path (st c)) = None" using assms(2) unfolding code_always_def by blast
  show ?thesis
    using generate_code_node_code [OF cols a x ne w] assms(1) ne
    by (simp add: cycle_at_def node_simps py_truthy_def llm_calls_def test_runs_def same_setup_def)
qed

lemma cycle_test:
  assumes "pc c1 = Run_tests"
  shows "step E c1 = Inr ((run_tests_node E c1)\<lparr>pc := (if passes E (test_runs (tr c1)) (fs c1) then END
            else if attempt_count (st c1) < max_attempts (st c1) then Self_fix else END)\<rparr>)
    \<and> (task_complete (st (run_tests_node E c1)) \<longleftrightarrow> passes E (test_runs (tr c1)) (fs c1))"
  using assms by (simp add: node_simps passes_def)

lemma cycle_fail:
  assumes "cycle_at c0 j c" and "code_always E" and "csv_columns E (csv_path (st c)) \<noteq> None"
    and "\<forall>f. \<not> passes E j f" and "int j + 1 < max_attempts (st c0)"
  shows "\<exists>c'. (\<forall>m. run_graph (Suc (Suc (Suc m))) E c = run_graph m E c') \<and> cycle_at c0 (Suc j) c'"
proof -
  obtain c1 where s1: "step E c = Inr c1" and c1: "pc c1 = Run_tests" "attempt_count (st c1) = int j + 1"
    "llm_calls (tr c1) = Suc j" "test_runs (tr c1) = j" "\<not> task_complete (st c1)" "same_setup c0 c1"
    using cycle_generate [OF assms(1-3)] by blast
  let ?c2 = "(run_tests_node E c1)\<lparr>pc := Self_fix\<rparr>"
  have s2: "step E c1 = Inr ?c2"
    using cycle_test [OF c1(1), of E] c1 assms(4,5) by (simp add: same_setup_def)
  let ?c3 = "?c2\<lparr>pc := Generate_code, st := self_fix_node (st ?c2)\<rparr>"
  have s3: "step E ?c2 = Inr ?c3" by (simp add: node_simps)
  have "cycle_at c0 (Suc j) ?c3"
    using c1 cycle_test [OF c1(1), of E] assms(4)
    by (simp add: cycle_at_def node_simps llm_calls_def test_runs_def same_setup_def)
  moreover have "pc c \<noteq> END" "pc c1 \<noteq> END" using assms(1) c1(1) by (simp_all add: cycle_at_def)
  ultimately show ?thesis using s1 s2 s3 by auto
qed

lemma cycle_pass:
  assumes "cycle_at c0 j c" and "code_always E" and "csv_columns E (csv_path (st c)) \<noteq> None"
    and "\<forall>f. passes E j f"
  shows "\<exists>c'. (\<forall>m. run_graph (Suc (Suc m)) E c = Inr c') \<and> task_complete (st c')
    \<and> attempt_count (st c') = int j + 1 \<and> same_setup c0 c'"
proof -
  obtain c1 where s1: "step E c = Inr c1" and c1: "pc c1 = Run_tests" "attempt_count (st c1) = int j + 1"
    "llm_calls (tr c1) = Suc j" "test_runs (tr c1) = j" "\<not> task_complete (st c1)" "same_setup c0 c1"
    using cycle_generate [OF assms(1-3)] by blast
  let ?c2 = "(run_tests_node E c1)\<lparr>pc := END\<rparr>"
  have s2: "step E c1 = Inr ?c2" and t: "task_complete (st ?c2)"
    using cycle_test [OF c1(1), of E] c1 assms(4) by simp_all
  have e: "run_graph m E ?c2 = Inr ?c2" for m by (cases m) simp_all
  have "pc c \<noteq> END" using assms(1) by (simp add: cycle_at_def)
  then have "\<forall>m. run_graph (Suc (Suc m)) E c = Inr ?c2" using s1 s2 c1(1) e by simp
  with t c1 show ?thesis by (intro exI [of _ ?c2]) (simp add: node_simps same_setup_def)
qed

section \<open>All cycles\<close>

lemma cycles_succeed:
  assumes "cycle_at c0 j c" and "j \<le> k" and "code_always E" and "passes_first_at E k"
    and "int k < max_attempts (st c0)" and "csv_columns E (csv_path (st c0)) \<noteq> None"
  shows "\<exists>c'. run_graph (3 * (k - j) + 2 + m) E c = Inr c' \<and> task_complete (st c')
    \<and> attempt_count (st c') = int k + 1 \<and> same_setup c0 c'"
  using assms
proof (induction "k - j" arbitrary: j c)
  case 0
  then have j: "j = k" by simp
  have csv: "csv_columns E (csv_path (st c)) \<noteq> None"
    using "0.prems"(1,6) by (simp add: cycle_at_def same_setup_def)
  have "\<forall>f. passes E j f" using "0.prems"(4) j by (simp add: passes_first_at_def)
  from cycle_pass [OF "0.prems"(1,3) csv this] j show ?case by auto
next
  case (Suc d)
  then have jk: "j < k" by simp
  have csv: "csv_columns E (csv_path (st c)) \<noteq> None"
    using Suc.prems(1,6) by (simp add: cycle_at_def same_setup_def)
  have nf: "\<forall>f. \<not> passes E j f" using Suc.prems(4) jk by (simp add: passes_first_at_def)
  have lim: "int j + 1 < max_attempts (st c0)" using Suc.prems(5) jk by simp
  obtain c' where r: "\<forall>m. run_graph (Suc (Suc (Suc m))) E c = run_graph m E c'"
    and cy: "cycle_at c0 (Suc j) c'"
    using cycle_fail [OF Suc.prems(1,3) csv nf lim] by blast
  have "d = k - Suc j" using Suc.hyps(2) by simp
  from Suc.hyps(1) [OF this cy] jk Suc.prems(3-6) obtain c'' where
    "run_graph (3 * (k - Suc j) + 2 + m) E c' = Inr c''" "task_complete (st c'')"
    "attempt_count (st c'') = int k + 1" "same_setup c0 c''" by auto
  moreover have "3 * (k - j) + 2 + m = Suc (Suc (Suc (3 * (k - Suc j) + 2 + m)))" using jk by simp
  ultimately show ?case using r by metis
qed

text \<open>
  C33: Progress: if every model answer contains code and the tests first pass at the
  \<open>k\<close>-th test run, with \<open>k < max_attempts\<close> and \<open>k \<le> 7\<close> (so that the \<open>3 k + 3\<close> node
  executions fit in the recursion limit of 25), then \<open>run\<close> reports success after
  exactly \<open>k + 1\<close> attempts.
\<close>

theorem run_succeeds_when_tests_pass:
  assumes "code_always E" and "passes_first_at E k" and "int k < limit" and "k \<le> 7"
    and "csv_columns E (csv_path (initial_state cwd bank limit)) \<noteq> None"
  shows "\<exists>c. run E cwd bank limit f0 = Inr (Succeeded (parser_path (initial_state cwd bank limit)), c)
    \<and> attempt_count (st c) = int k + 1"
proof -
  let ?c0 = "initial_cfg cwd bank limit f0"
  let ?c1 = "?c0\<lparr>pc := Generate_code, st := plan_node (st ?c0)\<rparr>"
  have s: "step E ?c0 = Inr ?c1" by (simp add: initial_cfg_def node_simps)
  have cy: "cycle_at ?c0 0 ?c1"
    by (simp add: cycle_at_def initial_cfg_def initial_state_def node_simps llm_calls_def
        test_runs_def same_setup_def)
  have lim: "int k < max_attempts (st ?c0)" and csv: "csv_columns E (csv_path (st ?c0)) \<noteq> None"
    using assms(3,5) by (simp_all add: initial_cfg_def initial_state_def)
  define N where "N = 3 * (k - 0) + 2 + (22 - 3 * k)"
  obtain c where r: "run_graph N E ?c1 = Inr c" and t: "task_complete (st c)"
    and a: "attempt_count (st c) = int k + 1" and ss: "same_setup ?c0 c"
    using cycles_succeed [OF cy _ assms(1,2) lim csv] unfolding N_def by blast
  have f: "recursion_limit = Suc N" using assms(4) by (simp add: recursion_limit_def N_def)
  have "run_graph (Suc N) E ?c0 = Inr c" using s r by (simp add: initial_cfg_def)
  then have "run_graph recursion_limit E ?c0 = Inr c" unfolding f .
  then show ?thesis using t a ss
    by (simp add: run_def final_report_def same_setup_def initial_cfg_def)
qed

theorem run_succeeds_when_tests_pass_witness:
  "code_always (scripted (\<lambda>n. fenced_answer) (\<lambda>n. if n < 2 then Completed 1 ''F'' [] else Completed 0 ''ok'' [])) \<and> passes_first_at (scripted (\<lambda>n. fenced_answer) (\<lambda>n. if n < 2 then Completed 1 ''F'' [] else Completed 0 ''ok'' [])) 2 \<and> int 2 < (3::int) \<and> (2::nat) \<le> 7
   \<and> csv_columns (scripted (\<lambda>n. fenced_answer) (\<lambda>n. if n < 2 then Completed 1 ''F'' [] else Completed 0 ''ok'' [])) (csv_path (initial_state ''/w'' ''icici'' 3)) \<noteq> None
   \<and> (\<exists>c. run (scripted (\<lambda>n. fenced_answer) (\<lambda>n. if n < 2 then Completed 1 ''F'' [] else Completed 0 ''ok'' [])) ''/w'' ''icici'' 3 Map.empty
          = Inr (Succeeded (parser_path (initial_state ''/w'' ''icici'' 3)), c)
        \<and> attempt_count (st c) = int 2 + 1)"
proof -
  have x: "extract_code ''```python\<newline>def parse(pdf_path): pass\<newline>```'' = Inr (Some ''def parse(pdf_path): pass'')"
    by (simp add: extract_code_def fence_python_def fence_def py_split_def py_split_ne.simps
        py_strip_trim py_isspace_def sublist_code)
  have h1: "code_always (scripted (\<lambda>n. fenced_answer) (\<lambda>n. if n < 2 then Completed 1 ''F'' [] else Completed 0 ''ok'' []))"
    unfolding code_always_def using x by (simp add: scripted_def fenced_answer_def)
  have h2: "passes_first_at (scripted (\<lambda>n. fenced_answer) (\<lambda>n. if n < 2 then Completed 1 ''F'' [] else Completed 0 ''ok'' [])) 2" by (simp add: passes_first_at_def passes_def scripted_def)
  have h3: "int 2 < (3::int)" by simp
  have h4: "(2::nat) \<le> 7" by simp
  have h5: "csv_columns (scripted (\<lambda>n. fenced_answer) (\<lambda>n. if n < 2 then Completed 1 ''F'' [] else Completed 0 ''ok'' [])) (csv_path (initial_state ''/w'' ''icici'' 3)) \<noteq> None"
    by (simp add: scripted_def)
  show ?thesis using h1 h2 h3 h4 h5 run_succeeds_when_tests_pass [OF h1 h2 h3 h4 h5] by blast
qed

end
