(* ===== verification/Runs.thy ===== *)
theory Runs
  imports Liveness
begin

text \<open>
  Whole runs of \<open>run\<close> for every environment of a given shape: what the first model
  request is, what happens when the first answer passes, has no code or cannot be written,
  when the tests never pass within the attempt limit, and when the limit is so large that
  the failing cycles exceed LangGraph's recursion limit. The proofs go cycle by cycle with
  the lemmas of Liveness; the trace of outside calls only grows.
\<close>

section \<open>The trace only grows\<close>

lemma generate_code_node_tr:
  assumes "generate_code_node E c = Inr c'"
  shows "\<exists>xs. tr c' = tr c @ LlmCall (build_prompt (target_bank (st c)) (test_results (st c))) # xs"
  using assms
  by (auto simp: generate_code_node_def Let_def
      split: option.splits gen_outcome.splits sum.splits if_splits)

lemma step_tr_append: "step E c = Inr c' \<Longrightarrow> \<exists>xs. tr c' = tr c @ xs"
  by (cases "pc c")
     (auto simp: step_def exec_node_def node_simps dest!: generate_code_node_tr)

lemma run_graph_tr_append: "run_graph k E c = Inr c' \<Longrightarrow> \<exists>xs. tr c' = tr c @ xs"
proof (induction k arbitrary: c)
  case 0
  then show ?case by (simp split: if_splits)
next
  case (Suc k)
  show ?case
  proof (cases "pc c = END")
    case True
    then show ?thesis using Suc.prems by simp
  next
    case False
    then obtain c1 where s: "step E c = Inr c1" and r: "run_graph k E c1 = Inr c'"
      using Suc.prems by (auto split: sum.splits)
    then show ?thesis using step_tr_append [OF s] Suc.IH [OF r] by auto
  qed
qed

section \<open>Failing cycles\<close>

lemma cycles_fail:
  assumes "cycle_at c0 j c" and "j \<le> k" and "code_always E"
    and "\<forall>n f. n < k \<longrightarrow> \<not> passes E n f" and "int k < max_attempts (st c0)"
    and "csv_columns E (csv_path (st c0)) \<noteq> None"
  shows "\<exists>c'. (\<forall>m. run_graph (3 * (k - j) + m) E c = run_graph m E c') \<and> cycle_at c0 k c'"
  using assms
proof (induction "k - j" arbitrary: j c)
  case 0
  then show ?case by auto
next
  case (Suc d)
  then have jk: "j < k" by simp
  have csv: "csv_columns E (csv_path (st c)) \<noteq> None"
    using Suc.prems(1,6) by (simp add: cycle_at_def same_setup_def)
  have nf: "\<forall>f. \<not> passes E j f" using Suc.prems(4) jk by simp
  have lim: "int j + 1 < max_attempts (st c0)" using Suc.prems(5) jk by simp
  obtain c' where r: "\<forall>m. run_graph (Suc (Suc (Suc m))) E c = run_graph m E c'"
    and cy: "cycle_at c0 (Suc j) c'"
    using cycle_fail [OF Suc.prems(1,3) csv nf lim] by blast
  have "d = k - Suc j" using Suc.hyps(2) by simp
  from Suc.hyps(1) [OF this cy] jk Suc.prems(3-6) obtain c'' where
    r': "\<forall>m. run_graph (3 * (k - Suc j) + m) E c' = run_graph m E c''" and "cycle_at c0 k c''"
    by auto
  moreover have "3 * (k - j) + m = Suc (Suc (Suc (3 * (k - Suc j) + m)))" for m using jk by simp
  ultimately show ?case using r by metis
qed

text \<open>The last cycle: the tests fail and the attempt budget is spent, so the graph ends.\<close>

lemma cycle_last:
  assumes "cycle_at c0 j c" and "code_always E" and "csv_columns E (csv_path (st c)) \<noteq> None"
    and "\<forall>f. \<not> passes E j f" and "max_attempts (st c0) \<le> int j + 1"
  shows "\<exists>c' r. (\<forall>m. run_graph (Suc (Suc m)) E c = Inr c') \<and> \<not> task_complete (st c')
    \<and> attempt_count (st c') = int j + 1 \<and> llm_calls (tr c') = Suc j \<and> test_runs (tr c') = Suc j
    \<and> last (tr c') = TestRun r \<and> same_setup c0 c'"
proof -
  obtain c1 where s1: "step E c = Inr c1" and c1: "pc c1 = Run_tests" "attempt_count (st c1) = int j + 1"
    "llm_calls (tr c1) = Suc j" "test_runs (tr c1) = j" "\<not> task_complete (st c1)" "same_setup c0 c1"
    using cycle_generate [OF assms(1-3)] by blast
  let ?c2 = "(run_tests_node E c1)\<lparr>pc := END\<rparr>"
  have s2: "step E c1 = Inr ?c2" and t: "\<not> task_complete (st ?c2)"
    using cycle_test [OF c1(1), of E] c1 assms(4,5) by (simp_all add: same_setup_def)
  have e: "run_graph m E ?c2 = Inr ?c2" for m by (cases m) simp_all
  have "pc c \<noteq> END" using assms(1) by (simp add: cycle_at_def)
  then have "\<forall>m. run_graph (Suc (Suc m)) E c = Inr ?c2" using s1 s2 c1(1) e by simp
  with t c1 show ?thesis
    by (intro exI [of _ ?c2]) (simp add: node_simps same_setup_def llm_calls_def test_runs_def)
qed

section \<open>The first generation\<close>

text \<open>The plan step, then the first generation, from the initial configuration.\<close>

lemma run_first_generation:
  assumes "generate_code_node E ((initial_cfg cwd bank limit f0)\<lparr>pc := Generate_code,
             st := plan_node (initial_state cwd bank limit)\<rparr>) = Inr c2"
  shows "run_graph (Suc (Suc k)) E (initial_cfg cwd bank limit f0)
    = run_graph k E (c2\<lparr>pc := (if py_truthy (current_code (st c2)) then Run_tests else END)\<rparr>)"
proof -
  let ?c1 = "(initial_cfg cwd bank limit f0)\<lparr>pc := Generate_code, st := plan_node (initial_state cwd bank limit)\<rparr>"
  have s1: "step E (initial_cfg cwd bank limit f0) = Inr ?c1" by (simp add: initial_cfg_def node_simps)
  have s2: "step E ?c1 = Inr (c2\<lparr>pc := (if py_truthy (current_code (st c2)) then Run_tests else END)\<rparr>)"
    using assms by (simp add: node_simps)
  show ?thesis using s1 s2 by (simp add: initial_cfg_def)
qed

lemma run_ends_at_END: "pc c = END \<Longrightarrow> run_graph k E c = Inr c"
  by (cases k) simp_all

text \<open>A first generation that leaves no code ends the run with its feedback.\<close>

lemma run_first_no_code:
  assumes "generate_code_node E ((initial_cfg cwd bank limit f0)\<lparr>pc := Generate_code,
             st := plan_node (initial_state cwd bank limit)\<rparr>) = Inr c2"
    and "\<not> py_truthy (current_code (st c2))"
  shows "run E cwd bank limit f0 = Inr (final_report (st c2), c2\<lparr>pc := END\<rparr>)"
proof -
  have "recursion_limit = Suc (Suc 23)" by (simp add: recursion_limit_def)
  then have "run_graph recursion_limit E (initial_cfg cwd bank limit f0) = Inr (c2\<lparr>pc := END\<rparr>)"
    using run_first_generation [OF assms(1), of 23] assms(2) run_ends_at_END by simp
  then show ?thesis by (simp add: run_def)
qed

section \<open>Whole runs\<close>

text \<open>
  C17: On the first cycle \<open>test_results\<close> is \<open>None\<close>, so the first model request of every run
  that returns is the prompt whose feedback is the word \<^verbatim>\<open>None\<close>:
  \<^verbatim>\<open>**Feedback from previous attempt:** None\<close>, where the default of \<open>state.get\<close>
  suggests \<^verbatim>\<open>This is the first attempt.\<close>.
\<close>

theorem run_first_prompt:
  assumes "run E cwd bank limit f0 = Inr (rep, c)"
  shows "\<exists>rest. tr c = LlmCall (prompt_head bank @ ''None'' @ prompt_tail) # rest"
proof -
  let ?c0 = "initial_cfg cwd bank limit f0"
  let ?c1 = "?c0\<lparr>pc := Generate_code, st := plan_node (initial_state cwd bank limit)\<rparr>"
  define N where "N = (23::nat)"
  have f: "recursion_limit = Suc (Suc N)" by (simp add: recursion_limit_def N_def)
  have r: "run_graph (Suc (Suc N)) E ?c0 = Inr c" using assms unfolding run_def f by auto
  obtain c2 where g: "generate_code_node E ?c1 = Inr c2"
  proof (cases "generate_code_node E ?c1")
    case (Inl e)
    then have "run_graph (Suc (Suc N)) E ?c0 = Inl e" by (simp add: initial_cfg_def node_simps)
    then show ?thesis using r by simp
  qed
  then have r2: "run_graph N E (c2\<lparr>pc := (if py_truthy (current_code (st c2)) then Run_tests else END)\<rparr>) = Inr c"
    using run_first_generation [OF g] r by simp
  have "\<exists>xs. tr c2 = LlmCall (build_prompt bank None) # xs"
    using generate_code_node_tr [OF g] by (simp add: initial_cfg_def initial_state_def node_simps)
  moreover have "\<exists>ys. tr c = tr c2 @ ys" using run_graph_tr_append [OF r2] by simp
  ultimately show ?thesis by (auto simp: build_prompt_def py_str_opt_def)
qed

theorem run_first_prompt_witness:
  "\<exists>rep c rest. run (scripted (\<lambda>n. GenText []) (\<lambda>n. Completed 0 ''ok'' [])) ''/w'' ''icici'' 3 Map.empty
     = Inr (rep, c) \<and> tr c = LlmCall (prompt_head ''icici'' @ ''None'' @ prompt_tail) # rest"
proof -
  have h: "case run (scripted (\<lambda>n. GenText []) (\<lambda>n. Completed 0 ''ok'' [])) ''/w'' ''icici'' 3 Map.empty of
      Inl e \<Rightarrow> False | Inr p \<Rightarrow> True"
    by code_simp
  then obtain rep c where r: "run (scripted (\<lambda>n. GenText []) (\<lambda>n. Completed 0 ''ok'' [])) ''/w'' ''icici'' 3 Map.empty = Inr (rep, c)"
    by (auto split: sum.splits)
  show ?thesis using run_first_prompt [OF r] r by blast
qed

text \<open>
  C20: A first answer that passes, for every attempt limit (even one below 1): after one model
  request and one test run the run reports success on the first attempt, and the parser
  file holds the extracted code.
\<close>

theorem run_first_answer_passes:
  assumes "csv_columns E (csv_path (initial_state cwd bank limit)) \<noteq> None"
    and "llm E 0 (build_prompt bank None) = GenText ans" and "extract_code ans = Inr (Some cd)"
    and "cd \<noteq> []" and "write_error E (parser_path (initial_state cwd bank limit)) = None"
    and "\<forall>f. passes E 0 f"
  shows "\<exists>c. run E cwd bank limit f0 = Inr (Succeeded (parser_path (initial_state cwd bank limit)), c)
    \<and> llm_calls (tr c) = 1 \<and> test_runs (tr c) = 1 \<and> attempt_count (st c) = 1
    \<and> fs c (parser_path (initial_state cwd bank limit)) = Some cd"
proof -
  let ?s0 = "initial_state cwd bank limit"
  let ?c0 = "initial_cfg cwd bank limit f0"
  let ?c1 = "?c0\<lparr>pc := Generate_code, st := plan_node ?s0\<rparr>"
  let ?c2 = "?c1\<lparr>st := (plan_node ?s0)\<lparr>current_code := Some cd\<rparr>, fs := f0(parser_path ?s0 \<mapsto> cd),
               tr := [LlmCall (build_prompt bank None), WriteFile (parser_path ?s0) cd]\<rparr>"
  let ?c3 = "?c2\<lparr>pc := Run_tests\<rparr>"
  obtain cols where cols: "csv_columns E (csv_path (st ?c1)) = Some cols"
    using assms(1) by (auto simp: initial_cfg_def node_simps)
  have g: "generate_code_node E ?c1 = Inr ?c2"
    using generate_code_node_code [OF cols, of ans cd] assms(2-5)
    by (simp add: initial_cfg_def node_simps llm_calls_def initial_state_def)
  define N where "N = (22::nat)"
  have f: "recursion_limit = Suc (Suc (Suc N))" by (simp add: recursion_limit_def N_def)
  have r1: "run_graph (Suc (Suc (Suc N))) E ?c0 = run_graph (Suc N) E ?c3"
    using run_first_generation [OF g, of "Suc N"] assms(4) by (simp add: py_truthy_def)
  have p: "passes E (test_runs (tr ?c3)) (fs ?c3)" using assms(6) by (simp add: test_runs_def)
  let ?c4 = "(run_tests_node E ?c3)\<lparr>pc := END\<rparr>"
  have "run_graph (Suc N) E ?c3 = Inr ?c4"
    using cycle_test [of ?c3 E] p run_ends_at_END by simp
  with r1 f have r: "run_graph recursion_limit E ?c0 = Inr ?c4" by simp
  have t: "task_complete (st ?c4)" using cycle_test [of ?c3 E] p by simp
  have "run E cwd bank limit f0 = Inr (Succeeded (parser_path ?s0), ?c4)"
    using r t by (simp add: run_def final_report_def node_simps)
  moreover have "llm_calls (tr ?c4) = 1 \<and> test_runs (tr ?c4) = 1 \<and> attempt_count (st ?c4) = 1
      \<and> fs ?c4 (parser_path ?s0) = Some cd"
    by (simp add: node_simps llm_calls_def test_runs_def initial_state_def plan_node_simps)
  ultimately show ?thesis by blast
qed

theorem run_first_answer_passes_witness:
  "\<exists>c. run (scripted (\<lambda>n. fenced_answer) (\<lambda>n. Completed 0 ''ok'' [])) ''/w'' ''icici'' 0 Map.empty
       = Inr (Succeeded (parser_path (initial_state ''/w'' ''icici'' 0)), c)
    \<and> llm_calls (tr c) = 1 \<and> test_runs (tr c) = 1 \<and> attempt_count (st c) = 1
    \<and> fs c (parser_path (initial_state ''/w'' ''icici'' 0)) = Some ''def parse(pdf_path): pass''"
proof -
  have x: "extract_code ''```python\<newline>def parse(pdf_path): pass\<newline>```'' = Inr (Some ''def parse(pdf_path): pass'')"
    by (simp add: extract_code_def fence_python_def fence_def py_split_def py_split_ne.simps
        py_strip_trim py_isspace_def sublist_code)
  show ?thesis
    by (rule run_first_answer_passes [where ans = "''```python\<newline>def parse(pdf_path): pass\<newline>```''"])
       (simp_all add: scripted_def fenced_answer_def x passes_def)
qed

text \<open>
  C21: A parser file that cannot be written (\<open>os.makedirs\<close> or \<open>open\<close> raising inside the
  \<open>try\<close>) ends the run after the first attempt: the error is the feedback, the files are
  untouched, and no test runs and no second model request is made.
\<close>

theorem run_write_error:
  assumes "csv_columns E (csv_path (initial_state cwd bank limit)) \<noteq> None"
    and "llm E 0 (build_prompt bank None) = GenText ans" and "extract_code ans = Inr (Some cd)"
    and "cd \<noteq> []" and "write_error E (parser_path (initial_state cwd bank limit)) = Some e"
  shows "\<exists>c. run E cwd bank limit f0 = Inr (Failed 1 (''An exception occurred during code generation: '' @ e), c)
    \<and> llm_calls (tr c) = 1 \<and> test_runs (tr c) = 0 \<and> fs c = f0"
proof -
  let ?s0 = "initial_state cwd bank limit"
  let ?c1 = "(initial_cfg cwd bank limit f0)\<lparr>pc := Generate_code, st := plan_node ?s0\<rparr>"
  let ?c2 = "?c1\<lparr>tr := [LlmCall (build_prompt bank None)], st := (plan_node ?s0)\<lparr>current_code := None,
               test_results := Some (''An exception occurred during code generation: '' @ e)\<rparr>\<rparr>"
  have g: "generate_code_node E ?c1 = Inr ?c2"
    using assms by (auto simp: generate_code_node_def Let_def initial_cfg_def node_simps llm_calls_def
        initial_state_def)
  show ?thesis
    using run_first_no_code [OF g]
    by (simp add: final_report_def py_truthy_def py_str_opt_def node_simps llm_calls_def test_runs_def
        initial_cfg_def initial_state_def)
qed

theorem run_write_error_witness:
  "\<exists>c. run \<lparr>llm = (\<lambda>n p. fenced_answer), pytest = (\<lambda>n f. Completed 0 ''ok'' []),
             csv_columns = (\<lambda>p. Some [''Date'']), write_error = (\<lambda>p. Some ''[Errno 13] Permission denied'')\<rparr>
           ''/w'' ''icici'' 3 Map.empty
       = Inr (Failed 1 (''An exception occurred during code generation: '' @ ''[Errno 13] Permission denied''), c)
    \<and> llm_calls (tr c) = 1 \<and> test_runs (tr c) = 0 \<and> fs c = Map.empty"
proof -
  have x: "extract_code ''```python\<newline>def parse(pdf_path): pass\<newline>```'' = Inr (Some ''def parse(pdf_path): pass'')"
    by (simp add: extract_code_def fence_python_def fence_def py_split_def py_split_ne.simps
        py_strip_trim py_isspace_def sublist_code)
  show ?thesis
    by (rule run_write_error [where ans = "''```python\<newline>def parse(pdf_path): pass\<newline>```''"
          and cd = "''def parse(pdf_path): pass''"]) (simp_all add: fenced_answer_def x)
qed

text \<open>
  C23: A first answer without code (no fenced block and empty text, or an empty block) ends
  the run at once: the generation failure is the feedback after 1 attempt, nothing is
  written and no test runs, whatever the attempt limit.
\<close>

theorem run_first_answer_no_code:
  assumes "csv_columns E (csv_path (initial_state cwd bank limit)) \<noteq> None"
    and "llm E 0 (build_prompt bank None) = GenText ans"
    and "extract_code ans = Inr None \<or> extract_code ans = Inr (Some [])"
  shows "\<exists>c. run E cwd bank limit f0 = Inr (Failed 1 ''Failed to generate valid Python code.'', c)
    \<and> llm_calls (tr c) = 1 \<and> test_runs (tr c) = 0 \<and> fs c = f0"
proof -
  let ?s0 = "initial_state cwd bank limit"
  let ?c1 = "(initial_cfg cwd bank limit f0)\<lparr>pc := Generate_code, st := plan_node ?s0\<rparr>"
  let ?c2 = "?c1\<lparr>tr := [LlmCall (build_prompt bank None)], st := (plan_node ?s0)\<lparr>current_code := None,
               test_results := Some ''Failed to generate valid Python code.''\<rparr>\<rparr>"
  have g: "generate_code_node E ?c1 = Inr ?c2"
    using assms by (auto simp: generate_code_node_def Let_def initial_cfg_def node_simps llm_calls_def
        initial_state_def)
  show ?thesis
    using run_first_no_code [OF g]
    by (simp add: final_report_def py_truthy_def py_str_opt_def node_simps llm_calls_def test_runs_def
        initial_cfg_def initial_state_def)
qed

theorem run_first_answer_no_code_witness:
  "\<exists>c. run (scripted (\<lambda>n. GenText []) (\<lambda>n. Completed 0 ''ok'' [])) ''/w'' ''icici'' 3 Map.empty
       = Inr (Failed 1 ''Failed to generate valid Python code.'', c)
    \<and> llm_calls (tr c) = 1 \<and> test_runs (tr c) = 0 \<and> fs c = Map.empty"
proof -
  have x: "extract_code [] = Inr None \<or> extract_code [] = Inr (Some [])"
    by (simp add: extract_code_def fence_python_def sublist_code)
  show ?thesis by (rule run_first_answer_no_code [where ans = "[]"]) (simp_all add: scripted_def x)
qed

text \<open>The first cycle starts after the plan step.\<close>

lemma first_cycle:
  "step E (initial_cfg cwd bank limit f0)
     = Inr ((initial_cfg cwd bank limit f0)\<lparr>pc := Generate_code, st := plan_node (initial_state cwd bank limit)\<rparr>)
   \<and> cycle_at (initial_cfg cwd bank limit f0) 0
       ((initial_cfg cwd bank limit f0)\<lparr>pc := Generate_code, st := plan_node (initial_state cwd bank limit)\<rparr>)"
  by (simp add: cycle_at_def initial_cfg_def initial_state_def node_simps llm_calls_def
      test_runs_def same_setup_def)

text \<open>
  C22: Tests that never pass exhaust the budget: with every answer carrying code that can
  be written and \<open>1 \<le> max_attempts \<le> 8\<close>, the run reports failure after exactly
  \<open>max_attempts\<close> attempts, having made that many model requests and test runs, and its
  last outside call is a test run.
\<close>

theorem run_exhausts_attempts:
  assumes "code_always E" and "\<forall>n f. \<not> passes E n f" and "1 \<le> limit" and "limit \<le> 8"
    and "csv_columns E (csv_path (initial_state cwd bank limit)) \<noteq> None"
  shows "\<exists>c fb r. run E cwd bank limit f0 = Inr (Failed limit fb, c)
    \<and> llm_calls (tr c) = nat limit \<and> test_runs (tr c) = nat limit \<and> last (tr c) = TestRun r"
proof -
  let ?c0 = "initial_cfg cwd bank limit f0"
  let ?c1 = "?c0\<lparr>pc := Generate_code, st := plan_node (initial_state cwd bank limit)\<rparr>"
  define k where "k = nat limit - 1"
  have k: "int k + 1 = limit" "k \<le> 7" using assms(3,4) by (simp_all add: k_def)
  have lim: "int k < max_attempts (st ?c0)" and csv: "csv_columns E (csv_path (st ?c0)) \<noteq> None"
    using k assms(5) by (simp_all add: initial_cfg_def initial_state_def)
  obtain c' where r: "\<forall>m. run_graph (3 * (k - 0) + m) E ?c1 = run_graph m E c'" and cy: "cycle_at ?c0 k c'"
    using cycles_fail [OF conjunct2 [OF first_cycle] _ assms(1) _ lim csv] assms(2) by blast
  have csv': "csv_columns E (csv_path (st c')) \<noteq> None"
    using cy csv by (simp add: cycle_at_def same_setup_def)
  have last: "max_attempts (st ?c0) \<le> int k + 1" using k by (simp add: initial_cfg_def initial_state_def)
  obtain c'' r0 where r': "\<forall>m. run_graph (Suc (Suc m)) E c' = Inr c''" and t: "\<not> task_complete (st c'')"
    and a: "attempt_count (st c'') = int k + 1" and n: "llm_calls (tr c'') = Suc k" "test_runs (tr c'') = Suc k"
    and l: "last (tr c'') = TestRun r0"
    using cycle_last [OF cy assms(1) csv' _ last] assms(2) by blast
  define N where "N = 3 * (k - 0) + Suc (Suc (22 - 3 * k))"
  have f: "recursion_limit = Suc N" using k by (simp add: recursion_limit_def N_def)
  have p0: "pc ?c0 \<noteq> END" by (simp add: initial_cfg_def)
  have "run_graph (Suc N) E ?c0 = run_graph N E ?c1" using first_cycle p0 by simp
  also have "\<dots> = run_graph (Suc (Suc (22 - 3 * k))) E c'" using r unfolding N_def by blast
  also have "\<dots> = Inr c''" using r' by blast
  finally have "run_graph (Suc N) E ?c0 = Inr c''" .
  then have "run E cwd bank limit f0 = Inr (final_report (st c''), c'')" unfolding run_def f by simp
  moreover have "Suc k = nat limit" using k by simp
  ultimately show ?thesis using t a k n l by (simp add: final_report_def)
qed

theorem run_exhausts_attempts_witness:
  "\<exists>c fb r. run (scripted (\<lambda>n. fenced_answer) (\<lambda>n. Completed 1 ''F'' [])) ''/w'' ''icici'' 2 Map.empty
       = Inr (Failed 2 fb, c)
    \<and> llm_calls (tr c) = nat 2 \<and> test_runs (tr c) = nat 2 \<and> last (tr c) = TestRun r"
proof -
  have x: "extract_code ''```python\<newline>def parse(pdf_path): pass\<newline>```'' = Inr (Some ''def parse(pdf_path): pass'')"
    by (simp add: extract_code_def fence_python_def fence_def py_split_def py_split_ne.simps
        py_strip_trim py_isspace_def sublist_code)
  have h1: "code_always (scripted (\<lambda>n. fenced_answer) (\<lambda>n. Completed 1 ''F'' []))"
    unfolding code_always_def using x by (simp add: scripted_def fenced_answer_def)
  have h2: "\<forall>n f. \<not> passes (scripted (\<lambda>n. fenced_answer) (\<lambda>n. Completed 1 ''F'' [])) n f"
    by (simp add: passes_def scripted_def)
  show ?thesis
    using run_exhausts_attempts [OF h1 h2, of 2 "''/w''" "''icici''" Map.empty] by (simp add: scripted_def)
qed

text \<open>
  C12: The recursion limit, not the attempt limit, ends a long run: when every answer
  carries code that can be written, the first 8 test runs fail and \<open>max_attempts \<ge> 9\<close>,
  the 25 node executions LangGraph allows are used up by the plan step and 8 failing cycles,
  and \<open>run\<close> raises \<open>GraphRecursionError\<close> instead of reporting a failure.
\<close>

theorem run_recursion_limit:
  assumes "code_always E" and "\<forall>n f. n < 8 \<longrightarrow> \<not> passes E n f" and "9 \<le> limit"
    and "csv_columns E (csv_path (initial_state cwd bank limit)) \<noteq> None"
  shows "run E cwd bank limit f0 = Inl GraphRecursionError"
proof -
  let ?c0 = "initial_cfg cwd bank limit f0"
  let ?c1 = "?c0\<lparr>pc := Generate_code, st := plan_node (initial_state cwd bank limit)\<rparr>"
  have lim: "int 8 < max_attempts (st ?c0)" and csv: "csv_columns E (csv_path (st ?c0)) \<noteq> None"
    using assms(3,4) by (simp_all add: initial_cfg_def initial_state_def)
  obtain c' where r: "\<forall>m. run_graph (3 * (8 - 0) + m) E ?c1 = run_graph m E c'" and cy: "cycle_at ?c0 8 c'"
    using cycles_fail [OF conjunct2 [OF first_cycle] _ assms(1,2) lim csv] by blast
  have e: "run_graph 0 E c' = Inl GraphRecursionError" using cy by (simp add: cycle_at_def)
  define N where "N = 3 * (8 - 0) + (0::nat)"
  have f: "recursion_limit = Suc N" by (simp add: recursion_limit_def N_def)
  have p0: "pc ?c0 \<noteq> END" by (simp add: initial_cfg_def)
  have "run_graph (Suc N) E ?c0 = run_graph N E ?c1" using first_cycle p0 by simp
  also have "\<dots> = run_graph 0 E c'" using r unfolding N_def by blast
  finally have "run_graph (Suc N) E ?c0 = Inl GraphRecursionError" using e by simp
  then show ?thesis unfolding run_def f by simp
qed

theorem run_recursion_limit_witness:
  "run (scripted (\<lambda>n. fenced_answer) (\<lambda>n. Completed 1 ''F'' [])) ''/w'' ''icici'' 9 Map.empty
     = Inl GraphRecursionError"
proof -
  have x: "extract_code ''```python\<newline>def parse(pdf_path): pass\<newline>```'' = Inr (Some ''def parse(pdf_path): pass'')"
    by (simp add: extract_code_def fence_python_def fence_def py_split_def py_split_ne.simps
        py_strip_trim py_isspace_def sublist_code)
  have h1: "code_always (scripted (\<lambda>n. fenced_answer) (\<lambda>n. Completed 1 ''F'' []))"
    unfolding code_always_def using x by (simp add: scripted_def fenced_answer_def)
  have h2: "\<forall>n f. n < 8 \<longrightarrow> \<not> passes (scripted (\<lambda>n. fenced_answer) (\<lambda>n. Completed 1 ''F'' [])) n f"
    by (simp add: passes_def scripted_def)
  show ?thesis
    using run_recursion_limit [OF h1 h2, of 9 "''/w''" "''icici''" Map.empty] by (simp add: scripted_def)
qed

end
