(* ===== verification/Spec2Isabelle.thy ===== *)
theory Spec2Isabelle
  imports AgentRun ControlSpec Config TestSuite IciciParser Runs
begin

text \<open>
  A verification development for the bank-statement parser agent of this repository.

  \<^bold>\<open>The program.\<close> src/agent.py runs a LangGraph state machine over a typed dictionary
  \<open>AgentState\<close>. The entry point \<open>run\<close> builds the initial state (attempt 1, no code, no
  feedback), invokes the compiled graph of \<open>_build_graph\<close> and prints a report. The graph
  has four nodes: \<open>plan\<close> appends a message; \<open>generate_code\<close> reads the sample CSV, builds
  the prompt, asks the model, extracts the code with \<open>_extract_code\<close> and writes it to the
  parser file; \<open>run_tests\<close> runs pytest on src/test_parser.py and records pass or
  failure; \<open>self_fix\<close> increments the attempt counter. The routers \<open>_should_test\<close> and
  \<open>_should_continue_fixing\<close> choose the edges out of generate_code and run_tests.
  src/test_parser.py is the verifier the loop runs; src/custom_parsers/icici_parser.py is a
  parser the loop produced; src/config.py holds settings and directory helpers that the
  agent duplicates rather than imports.

  \<^bold>\<open>Theories.\<close>
  \<^item> Prelude: rule collections (\<open>pystr_simps\<close>, \<open>node_simps\<close>), the exception type
    \<open>py_error\<close>, the bind \<open>bind_sum\<close>, Python indexing, dictionary lookup, truthiness and
    \<open>str()\<close> of an optional string, lemmas on substrings and on trimming lists.
  \<^item> PyStr: the \<open>str\<close> builtins the code calls (\<open>isspace\<close>, \<open>strip\<close>, \<open>find\<close>,
    \<open>in\<close>, \<open>split\<close>, \<open>join\<close>) as CPython computes them, with their laws (split/join
    round trip, pieces free of the separator, strip idempotent and exact).
  \<^item> PyFloat: the builtin \<open>float()\<close> on strings (Python's literal grammar, \<open>ValueError\<close>
    otherwise), the literal's value rounded to binary64 as CPython does (\<open>to_binary64\<close>:
    nearest, ties to even, subnormals, overflow to an infinity), and \<open>str()\<close> of natural
    numbers; the rounding error is at most half a unit in the last place, magnitudes from
    \<open>2^1024\<close> overflow, and amounts in paise below \<open>10^15\<close> round to distinct floats.
  \<^item> Extract: \<open>extract_code\<close> is \<open>_extract_code\<close>, every indexing and split that may
    raise kept as a branch of the sum type (C13 to C16).
  \<^item> Prompt: \<open>build_prompt\<close> is the f-string of \<open>_generate_code_node\<close>, line by line
    (C18).
  \<^item> Agent: the record \<open>agent_state\<close> (AgentState), the client settings of
    \<open>__init__\<close> (\<open>agent_init\<close>), the environment record \<open>env\<close> of oracles (the
    \<open>n\<close>-th model request, the \<open>n\<close>-th pytest run on the current files, the columns of a
    CSV path or \<open>None\<close> when \<open>pd.read_csv\<close> raises, the \<open>OSError\<close> that creating the
    parser's directory or opening the parser file raises, if any), the configuration \<open>cfg\<close> (node
    about to run, state, files, trace of outside calls), one definition per node, the routers,
    the path-map lookup \<open>branch\<close> of \<open>add_conditional_edges\<close>, the superstep \<open>step\<close>,
    the graph execution \<open>run_graph\<close>, \<open>run\<close> and \<open>agent_main\<close> (\<open>main\<close> from the
    parsed \<open>--target\<close> and \<open>--api-key\<close>: the agent built with the key, then \<open>run\<close>)
    (C19).
  \<^item> AgentRun: the superstep relation \<open>cstep\<close>, reachability \<open>reach\<close>, and the
    invariant \<open>agent_inv\<close>, kept by every superstep (attempt bounds, trace protocol, one
    model request per attempt, the parser file holds the current code, completion only
    after a passing test run, fixed setup); claims on single steps and finished runs
    (C4 to C11).
  \<^item> Liveness: cycle by cycle, a run whose tests first pass within the budget succeeds
    after exactly that many attempts (C33).
  \<^item> Runs: whole runs of \<open>run\<close> traced cycle by cycle: the first prompt carries
    \<open>None\<close> as feedback (C17), a first answer that passes (C20), a parser file that cannot
    be written (C21), tests that never pass (C22), a first answer without code (C23), and
    the recursion limit ending a run whose attempt limit is 9 or more (C12).
  \<^item> ControlSpec: the abstract controller of spec.md section 4.5 as a relation
    \<open>ctl_step\<close>, its invariant and a measure decreasing on every step.
  \<^item> Config: a file system \<open>fsys\<close> of directories and regular files with a
    writability predicate, \<open>Path.mkdir\<close> (\<open>os_mkdir\<close>, and with \<open>exist_ok\<close> and
    \<open>parents\<close>) raising \<open>FileNotFoundError\<close>, \<open>FileExistsError\<close>,
    \<open>NotADirectoryError\<close> or \<open>PermissionError\<close> as the operating system does;
    \<open>Config\<close>'s attributes, \<open>get_bank_paths\<close>, \<open>validate_setup\<close> (whose
    \<open>exists()\<close> holds for a file as well as a directory), \<open>create_directories\<close>,
    \<open>validate_environment\<close>, and \<open>config_main\<close>, the \<open>__main__\<close> block
    (C24, C25, C27, C29).
  \<^item> TestSuite: the fixtures and tests of src/test_parser.py, \<open>assert_frame_equal\<close>
    with \<open>check_dtype=False\<close> (\<open>frames_close\<close>: exact columns, shape and strings, floats
    within pandas' tolerance) and pytest's exit code over the files of the working directory;
    \<open>pytest_runs_suite\<close> says that the environment's pytest oracle is this suite (C30).
  \<^item> IciciParser: \<open>parse\<close> of the generated ICICI parser over the tables pdfplumber
    yields (C31, C32, C34), and the amounts read to within \<open>2^-10\<close> rupee, distinct ones
    staying distinct through the sanitising and the rounding of \<open>float()\<close> (C35).
  \<^item> This theory: the abstraction \<open>abs_cfg\<close> and the refinement of \<open>ctl_step\<close> by
    \<open>cstep\<close> (C3), termination within a bound of supersteps (C2), that \<open>run\<close> returns
    (C1), and the properties across components: configuration against agent (C26), test
    suite against agent (C28).

  \<^bold>\<open>Fuel.\<close> \<open>run_graph k\<close> executes at most \<open>k\<close> node executions and raises
  \<open>GraphRecursionError\<close> when the graph has not ended; \<open>run\<close> uses \<open>k = 25\<close>, LangGraph's
  default \<open>recursion_limit\<close>, which the source does not override. This is the bound of the
  code, not a modelling choice. The measure of ControlSpec shows
  \<open>3 * (max_attempts - 1) + 4\<close> executions suffice, so 25 is enough for \<open>max_attempts \<le> 8\<close>
  (C1), and C12 shows every run with limit 9 or more whose tests fail 8 times raising.

  \<^bold>\<open>Environment.\<close> The model's answers and pytest's outcomes are arbitrary functions of
  the call count (and of the prompt, resp. the files); theorems quantified over \<open>E\<close> hold
  for every behaviour of the outside world. The witnesses use scripted environments
  (\<open>scripted\<close>). Where a claim needs pytest to be the repository's suite,
  it assumes \<open>pytest_runs_suite\<close>; the suite's own outside world (loading the parser
  module, its result, pandas reading the CSV) is again an oracle. Writing the parser file
  fails with the \<open>OSError\<close> that \<open>write_error\<close> gives for its path; the claims that need the
  code on disk (C20, C28, C33) assume that the write succeeds.

  \<^bold>\<open>Paths.\<close> A \<open>Path\<close> joined with a name is the string joined with a slash, which is
  what \<open>str()\<close> gives for a working directory other than the root and a bank name that is
  a single path component.

  \<^bold>\<open>Not modelled.\<close> Console output (\<open>print\<close>) everywhere (the \<open>__main__\<close>
  block of src/config.py is modelled by the values it prints, not their layout); the
  network client behind the model (an oracle);
  the directories \<open>os.makedirs\<close> creates in the agent (the file model is a map from
  paths to contents; the call is modelled by its outcome, success or the \<open>OSError\<close>); the
  content of the CSV (only whether it can be read: the code ignores the columns); the
  argument parsing of \<open>main\<close> (argparse is a library whose treatment of abbreviated and
  combined options differs between Python versions: \<open>main\<close> starts from the parsed values,
  and a missing required option ends in argparse's exit status 2 before any of the modelled
  code runs); \<open>get_config\<close>, which returns the module's instance; pytest's own
  collection machinery beyond the two tests and their fixtures, and the \<open>conftest.py\<close>,
  \<open>pytest.ini\<close> or \<open>pyproject.toml\<close> files that could change it (the suite is run in a
  working directory without them); the truncation of the parser file by \<open>open(..., "w")\<close>
  before a write that fails (the write is modelled as all or nothing); the index of a
  frame (the parser and \<open>read_csv\<close> both give a range index); the internals of pdfplumber
  and pandas; the sign of a floating zero (\<open>-0.0\<close> and \<open>0.0\<close> are one value, and compare
  equal in Python and pandas).
\<close>

section \<open>Refinement of the controller specification\<close>

fun phase_of :: "node \<Rightarrow> phase" where
  "phase_of Plan = Planning"
| "phase_of Generate_code = Generating"
| "phase_of Run_tests = Testing"
| "phase_of Self_fix = Fixing"
| "phase_of END = Terminated"

definition abs_cfg :: "cfg \<Rightarrow> ctl" where
  "abs_cfg c = \<lparr>phase = phase_of (pc c), attempt = attempt_count (st c),
                attempt_limit = max_attempts (st c), completed = task_complete (st c)\<rparr>"

text \<open>
  C3: Every superstep of the graph is a step of the controller of the specification
  (ControlSpec) on the abstracted state: phase, attempt counter, limit and completion.
\<close>

theorem cstep_refines_ctl_step: "cstep E c c' \<Longrightarrow> ctl_step (abs_cfg c) (abs_cfg c')"
proof (induction rule: cstep_cases)
  case plan
  then show ?case
    using ctl_step.plan [of "abs_cfg c"] by (simp add: abs_cfg_def node_simps)
next
  case (generate_code c1)
  note g = generate_code_node_cases [OF generate_code.hyps(2)]
  show ?case
  proof (cases "py_truthy (current_code (st c1))")
    case True
    then show ?thesis using generate_code.hyps g ctl_step.code_extracted [of "abs_cfg c"]
      by (simp add: abs_cfg_def)
  next
    case False
    then show ?thesis using generate_code.hyps g ctl_step.no_code [of "abs_cfg c"]
      by (simp add: abs_cfg_def)
  qed
next
  case run_tests
  then show ?case
    using ctl_step.verified [of "abs_cfg c"] ctl_step.exhausted [of "abs_cfg c"]
      ctl_step.retry [of "abs_cfg c"]
    by (auto simp: abs_cfg_def node_simps split: if_splits)
next
  case self_fix
  then show ?case
    using ctl_step.correct [of "abs_cfg c"] by (simp add: abs_cfg_def node_simps)
qed

lemma abs_initial_cfg: "abs_cfg (initial_cfg cwd bank limit f0) = ctl_init limit"
  by (simp add: abs_cfg_def initial_cfg_def initial_state_def ctl_init_def)

lemma reach_refines_ctl_reach: "reach E c0 c \<Longrightarrow> ctl_reach (abs_cfg c0) (abs_cfg c)"
  by (induction rule: reach.induct) (auto intro: ctl_reach.intros cstep_refines_ctl_step)

lemma run_graph_enough_fuel:
  assumes "reach E (initial_cfg cwd bank limit f0) c"
    and "csv_columns E (csv_path (initial_state cwd bank limit)) \<noteq> None"
    and "ctl_measure (abs_cfg c) \<le> k"
  shows "\<exists>c'. run_graph k E c = Inr c' \<and> pc c' = END"
  using assms
proof (induction k arbitrary: c)
  case 0
  then have "pc c = END"
    by (cases "pc c") (simp_all add: ctl_measure_def abs_cfg_def)
  then show ?case by simp
next
  case (Suc k)
  show ?case
  proof (cases "pc c = END")
    case True
    then show ?thesis by simp
  next
    case False
    have "same_setup (initial_cfg cwd bank limit f0) c"
      using reach_agent_inv [OF Suc.prems(1) initial_agent_inv] by (simp add: agent_inv_def)
    then have "csv_columns E (csv_path (st c)) \<noteq> None"
      using Suc.prems(2) by (simp add: same_setup_def initial_cfg_def)
    then obtain c1 where s: "step E c = Inr c1" using step_defined False by blast
    then have cs: "cstep E c c1" using False by (rule cstep.superstep [rotated])
    have "ctl_reach (ctl_init limit) (abs_cfg c)"
      using reach_refines_ctl_reach [OF Suc.prems(1)] by (simp add: abs_initial_cfg)
    then have "ctl_measure (abs_cfg c1) < ctl_measure (abs_cfg c)"
      using ctl_step_measure [OF cstep_refines_ctl_step [OF cs]] ctl_reach_inv by blast
    with Suc.prems(3) have "ctl_measure (abs_cfg c1) \<le> k" by simp
    moreover have "reach E (initial_cfg cwd bank limit f0) c1"
      using Suc.prems(1) cs by (rule reach.extend)
    ultimately obtain c' where "run_graph k E c1 = Inr c' \<and> pc c' = END"
      using Suc.IH Suc.prems(2) by blast
    with False s show ?thesis by simp
  qed
qed

text \<open>
  C2: The graph reaches \<open>END\<close> from the initial state within \<open>3 * (max_attempts - 1) + 4\<close>
  supersteps whatever the model and the tests answer, provided the sample CSV exists.
\<close>

theorem run_graph_terminates:
  assumes "csv_columns E (csv_path (initial_state cwd bank limit)) \<noteq> None"
    and "3 * nat (limit - 1) + 4 \<le> k"
  shows "\<exists>c. run_graph k E (initial_cfg cwd bank limit f0) = Inr c \<and> pc c = END"
  using run_graph_enough_fuel [OF reach.start assms(1)] assms(2)
  by (simp add: abs_initial_cfg ctl_measure_init)

text \<open>
  C1: \<open>run\<close> returns, with a report, for every model and test behaviour, when the sample
  CSV exists and \<open>max_attempts\<close> is at most 8: the 25 supersteps LangGraph allows are enough.
\<close>

theorem run_returns:
  assumes "csv_columns E (csv_path (initial_state cwd bank limit)) \<noteq> None" and "limit \<le> 8"
  shows "\<exists>rep c. run E cwd bank limit f0 = Inr (rep, c)"
proof -
  have "3 * nat (limit - 1) + 4 \<le> recursion_limit" using assms(2) by (simp add: recursion_limit_def)
  then show ?thesis using run_graph_terminates [OF assms(1)] by (auto simp: run_def)
qed

theorem cstep_refines_ctl_step_witness:
  "cstep (scripted (\<lambda>n. fenced_answer) (\<lambda>n. Completed 0 ''ok'' []))
      \<lparr>pc = Plan, st = initial_state ''/w'' ''icici'' 3, fs = Map.empty, tr = []\<rparr>
      \<lparr>pc = Generate_code, st = plan_node (initial_state ''/w'' ''icici'' 3), fs = Map.empty, tr = []\<rparr>
   \<and> ctl_step (abs_cfg \<lparr>pc = Plan, st = initial_state ''/w'' ''icici'' 3, fs = Map.empty, tr = []\<rparr>)
       (abs_cfg \<lparr>pc = Generate_code, st = plan_node (initial_state ''/w'' ''icici'' 3), fs = Map.empty, tr = []\<rparr>)"
proof -
  let ?E = "scripted (\<lambda>n. fenced_answer) (\<lambda>n. Completed 0 ''ok'' [])"
  have s: "cstep ?E \<lparr>pc = Plan, st = initial_state ''/w'' ''icici'' 3, fs = Map.empty, tr = []\<rparr>
      \<lparr>pc = Generate_code, st = plan_node (initial_state ''/w'' ''icici'' 3), fs = Map.empty, tr = []\<rparr>"
    by (rule cstep.superstep) (simp_all add: node_simps)
  show ?thesis using cstep_refines_ctl_step [OF s] s by simp
qed

theorem run_graph_terminates_witness:
  "csv_columns (scripted (\<lambda>n. fenced_answer) (\<lambda>n. Completed 1 [] []))
      (csv_path (initial_state ''/w'' ''icici'' 8)) \<noteq> None
   \<and> 3 * nat (8 - 1) + 4 \<le> (25::nat)
   \<and> (\<exists>c. run_graph 25 (scripted (\<lambda>n. fenced_answer) (\<lambda>n. Completed 1 [] []))
          (initial_cfg ''/w'' ''icici'' 8 Map.empty) = Inr c \<and> pc c = END)"
  using run_graph_terminates [of "scripted (\<lambda>n. fenced_answer) (\<lambda>n. Completed 1 [] [])"
      "''/w''" "''icici''" 8 25 Map.empty]
  by (simp add: scripted_def)

theorem run_returns_witness:
  "csv_columns (scripted (\<lambda>n. fenced_answer) (\<lambda>n. Completed 1 [] []))
      (csv_path (initial_state ''/w'' ''icici'' 8)) \<noteq> None
   \<and> (8::int) \<le> 8
   \<and> (\<exists>rep c. run (scripted (\<lambda>n. fenced_answer) (\<lambda>n. Completed 1 [] [])) ''/w'' ''icici'' 8 Map.empty
        = Inr (rep, c))"
  using run_returns [of "scripted (\<lambda>n. fenced_answer) (\<lambda>n. Completed 1 [] [])"
      "''/w''" "''icici''" 8 Map.empty]
  by (simp add: scripted_def)

section \<open>Configuration and agent\<close>

text \<open>
  C26: The paths of \<open>Config.get_bank_paths\<close> are the paths \<open>run\<close> computes when the
  agent runs in the directory of the sources: the reference CSV and the parser file agree.
\<close>

theorem config_agent_paths_agree:
  "py_dict_get (get_bank_paths c bank) ''csv_path'' = Inr (csv_path (initial_state (BASE_DIR c) bank limit))
   \<and> py_dict_get (get_bank_paths c bank) ''parser_path''
       = Inr (parser_path (initial_state (BASE_DIR c) bank limit))"
  by (simp add: py_dict_get_def get_bank_paths_def initial_state_def path_div_def
      DATA_DIR_def PARSERS_DIR_def)

section \<open>Test suite and agent\<close>

text \<open>
  C28: False success for every bank but ICICI: the suite's \<open>bank_name\<close> fixture is fixed
  to \<^verbatim>\<open>icici\<close>, so when the agent targets another bank and no ICICI parser exists, both
  tests are skipped, pytest exits 0, and \<open>run\<close> reports the untested parser as a success
  after one cycle.
\<close>

theorem run_false_success_other_bank:
  assumes "bank \<noteq> ''icici''"
    and "f0 (suite_parser_path cwd) = None" and "f0 (cwd @ ''/test_parser.py'') \<noteq> None"
    and "csv_columns E (csv_path (initial_state cwd bank limit)) \<noteq> None"
    and "pytest_runs_suite E W cwd"
    and "llm E 0 (build_prompt bank None) = GenText ans"
    and "extract_code ans = Inr (Some cd)" and "cd \<noteq> []"
    and "write_error E (parser_path (initial_state cwd bank limit)) = None"
  shows "\<exists>c. run E cwd bank limit f0 = Inr (Succeeded (parser_path (initial_state cwd bank limit)), c)
           \<and> llm_calls (tr c) = 1 \<and> test_runs (tr c) = 1"
proof -
  let ?s0 = "initial_state cwd bank limit"
  let ?pp = "parser_path ?s0"
  let ?c0 = "initial_cfg cwd bank limit f0"
  let ?c1 = "?c0\<lparr>pc := Generate_code, st := plan_node ?s0\<rparr>"
  let ?p = "build_prompt bank None"
  let ?c2 = "?c1\<lparr>st := (plan_node ?s0)\<lparr>current_code := Some cd\<rparr>, fs := f0(?pp \<mapsto> cd),
               tr := [LlmCall ?p, WriteFile ?pp cd], pc := Run_tests\<rparr>"
  have ne1: "?pp \<noteq> suite_parser_path cwd" using assms(1)
    by (simp add: initial_state_def suite_parser_path_def bank_name_def)
  have ne2: "?pp \<noteq> cwd @ ''/test_parser.py''"
    by (simp add: initial_state_def)
  obtain out err where t: "pytest E 0 (f0(?pp \<mapsto> cd)) = Completed (pytest_exit W cwd (f0(?pp \<mapsto> cd))) out err"
    using assms(5) unfolding pytest_runs_suite_def by blast
  have "pytest_exit W cwd (f0(?pp \<mapsto> cd)) = 0"
    using ne1 ne2 assms(2,3) by (intro suite_skips_without_icici_parser) simp_all
  with t have t0: "pytest E 0 (f0(?pp \<mapsto> cd)) = Completed 0 out err" by simp
  have s1: "step E ?c0 = Inr ?c1" by (simp add: initial_cfg_def node_simps)
  obtain cols where cols: "csv_columns E (csv_path (st ?c1)) = Some cols"
    using assms(4) by (auto simp: node_simps)
  have g: "generate_code_node E ?c1 =
      Inr (?c1\<lparr>st := (plan_node ?s0)\<lparr>current_code := Some cd\<rparr>, fs := f0(?pp \<mapsto> cd),
             tr := [LlmCall ?p, WriteFile ?pp cd]\<rparr>)"
    using generate_code_node_code [OF cols, of ans cd] assms(6,7,8,9)
    by (simp add: initial_cfg_def node_simps llm_calls_def initial_state_def)
  have s2: "step E ?c1 = Inr ?c2"
    using g assms(8) by (simp add: node_simps py_truthy_def)
  have tc: "task_complete (st (run_tests_node E ?c2))"
    using t0 by (simp add: node_simps test_runs_def)
  have s3: "step E ?c2 = Inr ((run_tests_node E ?c2)\<lparr>pc := END\<rparr>)"
    using tc by (simp add: node_simps)
  have r: "run_graph recursion_limit E ?c0 = Inr ((run_tests_node E ?c2)\<lparr>pc := END\<rparr>)"
    using s1 s2 s3 by (simp add: recursion_limit_def numeral_eq_Suc initial_cfg_def)
  show ?thesis
    using r tc by (simp add: run_def final_report_def node_simps llm_calls_def test_runs_def
        initial_cfg_def plan_node_simps)
qed

theorem run_false_success_other_bank_witness:
  "''sbi'' \<noteq> ''icici''
   \<and> (Map.empty(''/w/test_parser.py'' \<mapsto> ''tests'')) (suite_parser_path ''/w'') = None
   \<and> (Map.empty(''/w/test_parser.py'' \<mapsto> ''tests'')) (''/w'' @ ''/test_parser.py'') \<noteq> None
   \<and> csv_columns \<lparr>llm = (\<lambda>n p. fenced_answer), pytest = (\<lambda>n d. Completed (pytest_exit \<lparr>module_loads = (\<lambda>s. True), parse_fn = (\<lambda>s p. ReturnsOther ''None''), expected_of = (\<lambda>c. None)\<rparr> ''/w'' d) [] []),
       csv_columns = (\<lambda>p. Some [''Date'']), write_error = (\<lambda>p. None)\<rparr> (csv_path (initial_state ''/w'' ''sbi'' 3)) \<noteq> None
   \<and> pytest_runs_suite \<lparr>llm = (\<lambda>n p. fenced_answer), pytest = (\<lambda>n d. Completed (pytest_exit \<lparr>module_loads = (\<lambda>s. True), parse_fn = (\<lambda>s p. ReturnsOther ''None''), expected_of = (\<lambda>c. None)\<rparr> ''/w'' d) [] []),
       csv_columns = (\<lambda>p. Some [''Date'']), write_error = (\<lambda>p. None)\<rparr> \<lparr>module_loads = (\<lambda>s. True), parse_fn = (\<lambda>s p. ReturnsOther ''None''), expected_of = (\<lambda>c. None)\<rparr> ''/w''
   \<and> llm \<lparr>llm = (\<lambda>n p. fenced_answer), pytest = (\<lambda>n d. Completed (pytest_exit \<lparr>module_loads = (\<lambda>s. True), parse_fn = (\<lambda>s p. ReturnsOther ''None''), expected_of = (\<lambda>c. None)\<rparr> ''/w'' d) [] []),
       csv_columns = (\<lambda>p. Some [''Date'']), write_error = (\<lambda>p. None)\<rparr> 0 (build_prompt ''sbi'' None) = GenText ''```python\<newline>def parse(pdf_path): pass\<newline>```''
   \<and> extract_code ''```python\<newline>def parse(pdf_path): pass\<newline>```'' = Inr (Some ''def parse(pdf_path): pass'')
   \<and> write_error \<lparr>llm = (\<lambda>n p. fenced_answer), pytest = (\<lambda>n d. Completed (pytest_exit \<lparr>module_loads = (\<lambda>s. True), parse_fn = (\<lambda>s p. ReturnsOther ''None''), expected_of = (\<lambda>c. None)\<rparr> ''/w'' d) [] []),
       csv_columns = (\<lambda>p. Some [''Date'']), write_error = (\<lambda>p. None)\<rparr> (parser_path (initial_state ''/w'' ''sbi'' 3)) = None
   \<and> (\<exists>c. run \<lparr>llm = (\<lambda>n p. fenced_answer), pytest = (\<lambda>n d. Completed (pytest_exit \<lparr>module_loads = (\<lambda>s. True), parse_fn = (\<lambda>s p. ReturnsOther ''None''), expected_of = (\<lambda>c. None)\<rparr> ''/w'' d) [] []),
       csv_columns = (\<lambda>p. Some [''Date'']), write_error = (\<lambda>p. None)\<rparr> ''/w'' ''sbi'' 3 (Map.empty(''/w/test_parser.py'' \<mapsto> ''tests''))
          = Inr (Succeeded (parser_path (initial_state ''/w'' ''sbi'' 3)), c)
        \<and> llm_calls (tr c) = 1 \<and> test_runs (tr c) = 1)"
proof -
  have h1: "(Map.empty(''/w/test_parser.py'' \<mapsto> ''tests'')) (suite_parser_path ''/w'') = None"
    by (simp add: suite_parser_path_def bank_name_def)
  have h2: "(Map.empty(''/w/test_parser.py'' \<mapsto> ''tests'')) (''/w'' @ ''/test_parser.py'') \<noteq> None"
    by simp
  have h3: "csv_columns \<lparr>llm = (\<lambda>n p. fenced_answer), pytest = (\<lambda>n d. Completed (pytest_exit \<lparr>module_loads = (\<lambda>s. True), parse_fn = (\<lambda>s p. ReturnsOther ''None''), expected_of = (\<lambda>c. None)\<rparr> ''/w'' d) [] []),
       csv_columns = (\<lambda>p. Some [''Date'']), write_error = (\<lambda>p. None)\<rparr> (csv_path (initial_state ''/w'' ''sbi'' 3)) \<noteq> None" by simp
  have h4: "pytest_runs_suite \<lparr>llm = (\<lambda>n p. fenced_answer), pytest = (\<lambda>n d. Completed (pytest_exit \<lparr>module_loads = (\<lambda>s. True), parse_fn = (\<lambda>s p. ReturnsOther ''None''), expected_of = (\<lambda>c. None)\<rparr> ''/w'' d) [] []),
       csv_columns = (\<lambda>p. Some [''Date'']), write_error = (\<lambda>p. None)\<rparr> \<lparr>module_loads = (\<lambda>s. True), parse_fn = (\<lambda>s p. ReturnsOther ''None''), expected_of = (\<lambda>c. None)\<rparr> ''/w''" by (simp add: pytest_runs_suite_def)
  have h5: "llm \<lparr>llm = (\<lambda>n p. fenced_answer), pytest = (\<lambda>n d. Completed (pytest_exit \<lparr>module_loads = (\<lambda>s. True), parse_fn = (\<lambda>s p. ReturnsOther ''None''), expected_of = (\<lambda>c. None)\<rparr> ''/w'' d) [] []),
       csv_columns = (\<lambda>p. Some [''Date'']), write_error = (\<lambda>p. None)\<rparr> 0 (build_prompt ''sbi'' None) = GenText ''```python\<newline>def parse(pdf_path): pass\<newline>```''"
    by (simp add: fenced_answer_def)
  have h6: "extract_code ''```python\<newline>def parse(pdf_path): pass\<newline>```'' = Inr (Some ''def parse(pdf_path): pass'')"
    by (simp add: extract_code_def fence_python_def fence_def py_split_def py_split_ne.simps
        py_strip_trim py_isspace_def sublist_code)
  have h7: "''def parse(pdf_path): pass'' \<noteq> []" by simp
  have h0: "''sbi'' \<noteq> ''icici''" by simp
  have h8: "write_error \<lparr>llm = (\<lambda>n p. fenced_answer), pytest = (\<lambda>n d. Completed (pytest_exit \<lparr>module_loads = (\<lambda>s. True), parse_fn = (\<lambda>s p. ReturnsOther ''None''), expected_of = (\<lambda>c. None)\<rparr> ''/w'' d) [] []),
       csv_columns = (\<lambda>p. Some [''Date'']), write_error = (\<lambda>p. None)\<rparr> (parser_path (initial_state ''/w'' ''sbi'' 3)) = None" by simp
  have hc: "\<exists>c. run \<lparr>llm = (\<lambda>n p. fenced_answer), pytest = (\<lambda>n d. Completed (pytest_exit \<lparr>module_loads = (\<lambda>s. True), parse_fn = (\<lambda>s p. ReturnsOther ''None''), expected_of = (\<lambda>c. None)\<rparr> ''/w'' d) [] []),
       csv_columns = (\<lambda>p. Some [''Date'']), write_error = (\<lambda>p. None)\<rparr> ''/w'' ''sbi'' 3 (Map.empty(''/w/test_parser.py'' \<mapsto> ''tests''))
          = Inr (Succeeded (parser_path (initial_state ''/w'' ''sbi'' 3)), c)
        \<and> llm_calls (tr c) = 1 \<and> test_runs (tr c) = 1"
    by (rule run_false_success_other_bank [OF h0 h1 h2 h3 h4 h5 h6 h7 h8])
  show ?thesis using h0 h1 h2 h3 h4 h5 h6 h8 hc by blast
qed

end
